(* ===== verification/Prelude.thy ===== *)
theory Prelude
  imports Main "HOL-Library.Word" "HOL-Library.Sublist"
begin

text \<open>
  The shared vocabulary of the BorderDNS verification library.

  \<^item> names for the machine integers of the Rust sources (\<open>u8\<close>, \<open>u16\<close>, \<open>u32\<close>, \<open>u64\<close>);
  \<^item> the sequencing combinator \<open>rbind\<close> for Rust's \<^verbatim>\<open>?\<close> operator on \<^verbatim>\<open>Result\<close>, where
    \<open>Inl\<close> is \<^verbatim>\<open>Err\<close> and \<open>Inr\<close> is \<^verbatim>\<open>Ok\<close>;
  \<^item> big-endian (network order) conversion of 16-bit and 32-bit words, the Rust functions
    \<^verbatim>\<open>from_be_bytes\<close> and \<^verbatim>\<open>to_be_bytes\<close>;
  \<^item> the few functions of Rust's \<^verbatim>\<open>str\<close> and slice types the program uses, on byte strings:
    a Rust string is modelled by the list of its UTF-8 bytes, one \<open>char\<close> per byte;
  \<^item> the collections \<open>result_simps\<close> and \<open>wire_simps\<close> of rewrite rules that the component
    theories extend and hand to the simplifier.
\<close>

unbundle bit_operations_syntax

section \<open>Machine integers\<close>

type_synonym u8 = "8 word"
type_synonym u16 = "16 word"
type_synonym u32 = "32 word"
type_synonym u64 = "64 word"

named_theorems result_simps
named_theorems wire_simps

section \<open>Results\<close>

definition rbind :: "'e + 'a \<Rightarrow> ('a \<Rightarrow> 'e + 'b) \<Rightarrow> 'e + 'b" where
  "rbind m f = (case m of Inl e \<Rightarrow> Inl e | Inr x \<Rightarrow> f x)"

lemma rbind_Inl [simp]: "rbind (Inl e) f = Inl e"
  by (simp add: rbind_def)

lemma rbind_Inr [simp]: "rbind (Inr x) f = f x"
  by (simp add: rbind_def)

lemma rbind_eq_Inr [result_simps]:
  "rbind m f = Inr y \<longleftrightarrow> (\<exists>x. m = Inr x \<and> f x = Inr y)"
  by (cases m) auto

lemma rbind_eq_Inl [result_simps]:
  "rbind m f = Inl e \<longleftrightarrow> m = Inl e \<or> (\<exists>x. m = Inr x \<and> f x = Inl e)"
  by (cases m) auto

lemma rbind_cong [fundef_cong]:
  "m = m' \<Longrightarrow> (\<And>x. m' = Inr x \<Longrightarrow> f x = f' x) \<Longrightarrow> rbind m f = rbind m' f'"
  by (cases m') auto

section \<open>Network byte order\<close>

definition u16_from_be_bytes :: "u8 \<Rightarrow> u8 \<Rightarrow> u16" where
  "u16_from_be_bytes a b = push_bit 8 (ucast a) OR ucast b"

definition u16_to_be_bytes :: "u16 \<Rightarrow> u8 list" where
  "u16_to_be_bytes w = [ucast (drop_bit 8 w), ucast w]"

definition u32_from_be_bytes :: "u8 \<Rightarrow> u8 \<Rightarrow> u8 \<Rightarrow> u8 \<Rightarrow> u32" where
  "u32_from_be_bytes a b c d =
     push_bit 24 (ucast a) OR push_bit 16 (ucast b) OR push_bit 8 (ucast c) OR ucast d"

definition u32_to_be_bytes :: "u32 \<Rightarrow> u8 list" where
  "u32_to_be_bytes w =
     [ucast (drop_bit 24 w), ucast (drop_bit 16 w), ucast (drop_bit 8 w), ucast w]"

lemma length_u16_to_be_bytes [simp]: "length (u16_to_be_bytes w) = 2"
  by (simp add: u16_to_be_bytes_def)

lemma length_u32_to_be_bytes [simp]: "length (u32_to_be_bytes w) = 4"
  by (simp add: u32_to_be_bytes_def)

lemma u16_be_roundtrip [simp]:
  "u16_from_be_bytes (ucast (drop_bit 8 w)) (ucast w) = w"
  by (rule bit_word_eqI) (auto simp: u16_from_be_bytes_def bit_simps not_le)

lemma u32_be_roundtrip [simp]:
  "u32_from_be_bytes (ucast (drop_bit 24 w)) (ucast (drop_bit 16 w))
     (ucast (drop_bit 8 w)) (ucast w) = w"
proof (rule bit_word_eqI)
  fix n :: nat
  assume "n < LENGTH(32)"
  then consider "n < 8" | "8 \<le> n" "n < 16" | "16 \<le> n" "n < 24" | "24 \<le> n" "n < 32"
    by force
  then show "bit (u32_from_be_bytes (ucast (drop_bit 24 w)) (ucast (drop_bit 16 w))
      (ucast (drop_bit 8 w)) (ucast w)) n = bit w n"
    by cases (auto simp: u32_from_be_bytes_def bit_simps)
qed

lemma u16_be_bytes_roundtrip:
  "u16_to_be_bytes (u16_from_be_bytes a b) = [a, b]"
proof -
  have "ucast (drop_bit 8 (u16_from_be_bytes a b)) = a"
    by (rule bit_word_eqI)
      (auto simp: u16_from_be_bytes_def bit_simps dest: bit_imp_le_length)
  moreover have "ucast (u16_from_be_bytes a b) = b"
    by (rule bit_word_eqI) (auto simp: u16_from_be_bytes_def bit_simps)
  ultimately show ?thesis by (simp add: u16_to_be_bytes_def)
qed

text \<open>Conversions of the source between \<^verbatim>\<open>usize\<close> and the fixed widths.\<close>

lemma unat_of_nat_u16: "n < 65536 \<Longrightarrow> unat (of_nat n :: u16) = n"
  by (simp add: unat_of_nat)

lemma unat_of_nat_u8: "n < 256 \<Longrightarrow> unat (of_nat n :: u8) = n"
  by (simp add: unat_of_nat)

lemma u8_unat_less [simp]: "unat (b :: u8) < 256"
  using unsigned_less [of b, where ?'a = nat] by simp

lemma u16_unat_less [simp]: "unat (w :: u16) < 65536"
  using unsigned_less [of w, where ?'a = nat] by simp

lemma unat_and_mask: "unat ((w :: 'a::len word) AND mask n) = unat w mod 2 ^ n"
  by (metis take_bit_eq_mask take_bit_eq_mod unsigned_take_bit_eq)

lemma unat_and_numeral_mask [simp]:
  "unat ((b :: u8) AND 0x3F) = unat b mod 64" "unat ((w :: u16) AND 0x3F) = unat w mod 64"
  "unat ((w :: u16) AND 0xFF) = unat w mod 256"
  using unat_and_mask [of b 6] unat_and_mask [of w 6] unat_and_mask [of w 8]
  by (simp_all add: mask_eq_exp_minus_1)

lemma take_bit_small: "unat (w :: 'a::len word) < 2 ^ n \<Longrightarrow> take_bit n w = w"
  by (simp add: word_unat_eq_iff unsigned_take_bit_eq take_bit_nat_eq_self)

lemma bit_small:
  assumes "unat (w :: 'a::len word) < 2 ^ n" "bit w i"
  shows "i < n"
  using take_bit_small [OF assms(1)] assms(2) by (metis bit_take_bit_iff)

lemma bit_or_flag: "bit (if b then x OR c else x) n \<longleftrightarrow> bit x n \<or> b \<and> bit c n"
  for x :: "'a::len word"
  by (simp add: bit_or_iff)

lemma bit_single:
  assumes "c = (2 :: 'a::len word) ^ k" "k < LENGTH('a)"
  shows "bit c n \<longleftrightarrow> n = k"
  using assms by (auto simp: bit_exp_iff dest: bit_imp_le_length)

lemma and_single:
  assumes "c = (2 :: 'a::len word) ^ k"
  shows "w AND c \<noteq> 0 \<longleftrightarrow> bit w k"
  using assms by (simp add: and_exp_eq_0_iff_not_bit)

lemma push_bit_or_eq:
  assumes "b < 2 ^ n"
  shows "push_bit n k OR b = 2 ^ n * k + (b::nat)"
proof -
  have b: "take_bit n b = b" "drop_bit n b = 0"
    using assms by (simp_all add: take_bit_nat_eq_self_iff drop_bit_eq_div)
  have "push_bit n k OR b = push_bit n (drop_bit n (push_bit n k OR b)) + take_bit n (push_bit n k OR b)"
    by (rule bits_ident [symmetric])
  also have "take_bit n (push_bit n k OR b) = b"
    by (simp add: b take_bit_push_bit)
  also have "drop_bit n (push_bit n k OR b) = k"
    by (simp only: drop_bit_or b) (simp add: drop_bit_eq_div push_bit_eq_mult)
  finally show ?thesis by (simp add: push_bit_eq_mult)
qed

section \<open>Slices\<close>

text \<open>\<^verbatim>\<open>&buf[start..end]\<close>; Rust panics unless \<open>start \<le> end \<le> len\<close>, and the invariants
  of the component theories establish that range for every sub_slice taken.\<close>

definition sub_slice :: "nat \<Rightarrow> nat \<Rightarrow> 'a list \<Rightarrow> 'a list" where
  "sub_slice s e xs = take (e - s) (drop s xs)"

lemma length_sub_slice [simp]: "e \<le> length xs \<Longrightarrow> length (sub_slice s e xs) = e - s"
  by (simp add: sub_slice_def)

lemma sub_slice_append_left: "e \<le> length xs \<Longrightarrow> sub_slice s e (xs @ ys) = sub_slice s e xs"
  by (cases "s \<le> e") (auto simp: sub_slice_def)

lemma sub_slice_append_right:
  "sub_slice (length xs + s) (length xs + e) (xs @ ys) = sub_slice s e ys"
  by (simp add: sub_slice_def)

section \<open>Strings\<close>

text \<open>Decimal rendering of an unsigned number, as \<^verbatim>\<open>format!("{n}")\<close> prints it.\<close>

definition digit_char :: "nat \<Rightarrow> char" where
  "digit_char d = char_of (48 + d mod 10)"

fun show_nat :: "nat \<Rightarrow> string" where
  "show_nat n = (if n < 10 then [digit_char n] else show_nat (n div 10) @ [digit_char n])"

declare show_nat.simps [simp del]

text \<open>ASCII lower-casing. \<^verbatim>\<open>to_lowercase\<close> also folds non-ASCII letters; on the ASCII
  names the program compares the two agree.\<close>

definition ascii_lower :: "char \<Rightarrow> char" where
  "ascii_lower c =
     (let n = of_char c :: nat in if 65 \<le> n \<and> n \<le> 90 then char_of (n + 32) else c)"

definition to_lowercase :: "string \<Rightarrow> string" where
  "to_lowercase s = map ascii_lower s"

lemma ascii_lower_idem [simp]: "ascii_lower (ascii_lower c) = ascii_lower c"
  by (auto simp: ascii_lower_def Let_def)

lemma to_lowercase_idem [simp]: "to_lowercase (to_lowercase s) = to_lowercase s"
  by (simp add: to_lowercase_def)

lemma length_to_lowercase [simp]: "length (to_lowercase s) = length s"
  by (simp add: to_lowercase_def)

text \<open>\<^verbatim>\<open>str::split(c)\<close>: the maximal runs between separators, empty ones included.\<close>

fun split_on :: "'a \<Rightarrow> 'a list \<Rightarrow> 'a list list" where
  "split_on c [] = [[]]"
| "split_on c (x # xs) =
     (if x = c then [] # split_on c xs
      else case split_on c xs of [] \<Rightarrow> [[x]] | y # ys \<Rightarrow> (x # y) # ys)"

lemma split_on_neq_Nil [simp]: "split_on c xs \<noteq> []"
  by (induction xs) (auto split: list.splits)

lemma split_on_no_sep: "c \<notin> set xs \<Longrightarrow> split_on c xs = [xs]"
  by (induction xs) auto

lemma split_on_append_sep:
  "c \<notin> set xs \<Longrightarrow> split_on c (xs @ c # ys) = xs # split_on c ys"
  by (induction xs) auto

lemma split_on_pieces: "p \<in> set (split_on c xs) \<Longrightarrow> c \<notin> set p"
  by (induction xs arbitrary: p) (auto split: list.splits if_splits)

text \<open>\<^verbatim>\<open>str::strip_suffix(c).unwrap_or(s)\<close>: one trailing character removed if present.\<close>

definition strip_suffix_char :: "'a \<Rightarrow> 'a list \<Rightarrow> 'a list" where
  "strip_suffix_char c s = (if s \<noteq> [] \<and> last s = c then butlast s else s)"

text \<open>\<^verbatim>\<open>str::trim_end_matches(c)\<close>: every trailing occurrence removed.\<close>

definition trim_end_matches :: "'a \<Rightarrow> 'a list \<Rightarrow> 'a list" where
  "trim_end_matches c s = rev (dropWhile (\<lambda>x. x = c) (rev s))"

lemma trim_end_matches_last:
  "s \<noteq> [] \<Longrightarrow> last s \<noteq> c \<Longrightarrow> trim_end_matches c s = s"
  by (cases s rule: rev_cases) (auto simp: trim_end_matches_def)

lemma trim_end_matches_snoc [simp]:
  "trim_end_matches c (s @ [c]) = trim_end_matches c s"
  by (simp add: trim_end_matches_def)

lemma ascii_lower_sep [simp]:
  "ascii_lower c = CHR ''.'' \<longleftrightarrow> c = CHR ''.''" "ascii_lower c = CHR ''*'' \<longleftrightarrow> c = CHR ''*''"
  by (auto simp: ascii_lower_def Let_def char_of_eq_iff take_bit_eq_mod)

lemma split_on_map:
  assumes "\<And>x. f x = c \<longleftrightarrow> x = c"
  shows "split_on c (map f xs) = map (map f) (split_on c xs)"
  by (induction xs) (auto simp: assms split: list.splits)

lemma split_on_snoc_sep: "split_on c (xs @ [c]) = split_on c xs @ [[]]"
  by (induction xs) (auto split: list.splits)

lemma split_on_chars: "p \<in> set (split_on c xs) \<Longrightarrow> set p \<subseteq> set xs"
proof (induction xs arbitrary: p)
  case (Cons x xs)
  then show ?case by (cases "split_on c xs") (fastforce split: if_splits)+
qed simp

text \<open>\<^verbatim>\<open>char::is_whitespace\<close> on ASCII, and \<^verbatim>\<open>str::trim\<close>.\<close>

definition is_whitespace :: "char \<Rightarrow> bool" where
  "is_whitespace c \<longleftrightarrow> c = CHR '' '' \<or> (9 \<le> (of_char c :: nat) \<and> (of_char c :: nat) \<le> 13)"

definition trim :: "string \<Rightarrow> string" where
  "trim s = rev (dropWhile is_whitespace (rev (dropWhile is_whitespace s)))"

lemma dropWhile_none: "(\<And>x. x \<in> set xs \<Longrightarrow> \<not> P x) \<Longrightarrow> dropWhile P xs = xs"
  by (cases xs) auto

lemma trim_id: "list_all (\<lambda>c. \<not> is_whitespace c) s \<Longrightarrow> trim s = s"
  using dropWhile_none [of s is_whitespace] dropWhile_none [of "rev s" is_whitespace]
  by (simp add: trim_def list_all_iff)

lemma strip_suffix_char_append: "x \<noteq> [] \<Longrightarrow> strip_suffix_char c (p @ x) = p @ strip_suffix_char c x"
  by (auto simp: strip_suffix_char_def butlast_append)

end
