(* ===== verification/Dns_Types.thy ===== *)
theory Dns_Types
  imports Prelude
begin

text \<open>
  The crate \<^verbatim>\<open>dns-types\<close>: the error type of the protocol codec, the numeric record type and
  class codes, and the enumerations of the routing model. The Rust variants keep their names
  behind a prefix per type (\<open>RT_A\<close> is \<^verbatim>\<open>RecordType::A\<close>), since Isabelle constructors share
  one name space. The lemmas show that the numeric codes are converted without loss, and which
  values are canonical, that is, the ones the decoder can produce.
\<close>

section \<open>Limits (\<^verbatim>\<open>lib.rs\<close>)\<close>

definition MAX_LABEL_LENGTH :: nat where "MAX_LABEL_LENGTH = 63"
definition MAX_NAME_WIRE_LENGTH :: nat where "MAX_NAME_WIRE_LENGTH = 255"
definition MAX_LABEL_COUNT :: nat where "MAX_LABEL_COUNT = 128"
definition MAX_UDP_MESSAGE_SIZE :: nat where "MAX_UDP_MESSAGE_SIZE = 512"

section \<open>Protocol errors (\<^verbatim>\<open>error.rs\<close>)\<close>

datatype protocol_error =
    BufferUnderflow nat nat
  | NameTooLong nat
  | LabelTooLong nat
  | TooManyLabels nat
  | PointerOutOfBounds nat nat
  | PointerLoop nat nat
  | PointerChainDepthExceeded nat nat
  | InvalidPointerMarker nat u8
  | RdLengthExceedsBuffer u16 nat
  | MalformedRData u16 string
  | UnsupportedRecordType u16
  | SectionCountMismatch string u16 nat
  | UnsupportedEdnsVersion u8
  | MessageTooLarge nat nat
  | SvcbMalformed string
  | SoaMalformed string
  | MxMalformed string
  | TcpFrameTooLarge u16 u16
  | DecodeError string

text \<open>The error messages; \<open>hex_u8\<close> is the format \<^verbatim>\<open>{:#04x}\<close>.\<close>

definition hex_digit :: "nat \<Rightarrow> char" where
  "hex_digit d = (if d < 10 then char_of (48 + d) else char_of (87 + d))"

definition hex_u8 :: "u8 \<Rightarrow> string" where
  "hex_u8 b = ''0x'' @ [hex_digit (unat b div 16), hex_digit (unat b mod 16)]"

fun protocol_error_to_string :: "protocol_error \<Rightarrow> string" where
  "protocol_error_to_string (BufferUnderflow need have_n) =
     ''buffer underflow: need '' @ show_nat need @ '' bytes but only '' @ show_nat have_n @ '' available''"
| "protocol_error_to_string (NameTooLong n) =
     ''domain name exceeds maximum wire length ('' @ show_nat n @ '' > 255)''"
| "protocol_error_to_string (LabelTooLong n) = ''label exceeds maximum length ('' @ show_nat n @ '' > 63)''"
| "protocol_error_to_string (TooManyLabels n) = ''too many labels in domain name ('' @ show_nat n @ '' > 128)''"
| "protocol_error_to_string (PointerOutOfBounds pointer message_len) =
     ''compression pointer offset '' @ show_nat pointer @ '' exceeds message length '' @ show_nat message_len"
| "protocol_error_to_string (PointerLoop off depth) =
     ''compression pointer loop detected at offset '' @ show_nat off @ '' (depth '' @ show_nat depth @ '')''"
| "protocol_error_to_string (PointerChainDepthExceeded depth max_depth) =
     ''compression pointer chain depth exceeded ('' @ show_nat depth @ '' > '' @ show_nat max_depth @ '')''"
| "protocol_error_to_string (InvalidPointerMarker off byte) =
     ''invalid compression pointer marker at offset '' @ show_nat off @ '': got '' @ hex_u8 byte"
| "protocol_error_to_string (RdLengthExceedsBuffer rdlength available) =
     ''RDLENGTH ('' @ show_nat (unat rdlength) @ '') exceeds remaining buffer ('' @ show_nat available @ '')''"
| "protocol_error_to_string (MalformedRData rr_type reason) =
     ''malformed RDATA for type '' @ show_nat (unat rr_type) @ '': '' @ reason"
| "protocol_error_to_string (UnsupportedRecordType t) = ''unsupported record type: '' @ show_nat (unat t)"
| "protocol_error_to_string (SectionCountMismatch sec expected decoded) =
     ''header section count mismatch: expected '' @ show_nat (unat expected) @ '' '' @ sec @
     '' records but decoded '' @ show_nat decoded"
| "protocol_error_to_string (UnsupportedEdnsVersion v) = ''unsupported EDNS version: '' @ show_nat (unat v)"
| "protocol_error_to_string (MessageTooLarge n limit) =
     ''message size '' @ show_nat n @ '' exceeds maximum '' @ show_nat limit"
| "protocol_error_to_string (SvcbMalformed e) = ''SVCB/HTTPS malformed: '' @ e"
| "protocol_error_to_string (SoaMalformed e) = ''SOA malformed: '' @ e"
| "protocol_error_to_string (MxMalformed e) = ''MX malformed: '' @ e"
| "protocol_error_to_string (TcpFrameTooLarge len limit) =
     ''TCP frame length '' @ show_nat (unat len) @ '' exceeds limit '' @ show_nat (unat limit)"
| "protocol_error_to_string (DecodeError e) = ''decode error: '' @ e"

section \<open>Record types (\<^verbatim>\<open>record_type.rs\<close>)\<close>

datatype record_type =
    RT_A | RT_NS | RT_CNAME | RT_SOA | RT_PTR | RT_MX | RT_TXT | RT_AAAA | RT_SRV
  | RT_SVCB | RT_HTTPS | RT_OPT | RT_Unknown u16

definition record_type_from_u16 :: "u16 \<Rightarrow> record_type" where
  "record_type_from_u16 value =
     (if value = 1 then RT_A
      else if value = 2 then RT_NS
      else if value = 5 then RT_CNAME
      else if value = 6 then RT_SOA
      else if value = 12 then RT_PTR
      else if value = 15 then RT_MX
      else if value = 16 then RT_TXT
      else if value = 28 then RT_AAAA
      else if value = 33 then RT_SRV
      else if value = 41 then RT_OPT
      else if value = 64 then RT_SVCB
      else if value = 65 then RT_HTTPS
      else RT_Unknown value)"

fun record_type_as_u16 :: "record_type \<Rightarrow> u16" where
  "record_type_as_u16 RT_A = 1"
| "record_type_as_u16 RT_NS = 2"
| "record_type_as_u16 RT_CNAME = 5"
| "record_type_as_u16 RT_SOA = 6"
| "record_type_as_u16 RT_PTR = 12"
| "record_type_as_u16 RT_MX = 15"
| "record_type_as_u16 RT_TXT = 16"
| "record_type_as_u16 RT_AAAA = 28"
| "record_type_as_u16 RT_SRV = 33"
| "record_type_as_u16 RT_OPT = 41"
| "record_type_as_u16 RT_SVCB = 64"
| "record_type_as_u16 RT_HTTPS = 65"
| "record_type_as_u16 (RT_Unknown v) = v"

fun record_type_as_str :: "record_type \<Rightarrow> string" where
  "record_type_as_str RT_A = ''A''"
| "record_type_as_str RT_NS = ''NS''"
| "record_type_as_str RT_CNAME = ''CNAME''"
| "record_type_as_str RT_SOA = ''SOA''"
| "record_type_as_str RT_PTR = ''PTR''"
| "record_type_as_str RT_MX = ''MX''"
| "record_type_as_str RT_TXT = ''TXT''"
| "record_type_as_str RT_AAAA = ''AAAA''"
| "record_type_as_str RT_SRV = ''SRV''"
| "record_type_as_str RT_SVCB = ''SVCB''"
| "record_type_as_str RT_HTTPS = ''HTTPS''"
| "record_type_as_str RT_OPT = ''OPT''"
| "record_type_as_str (RT_Unknown _) = ''TYPE?''"

fun has_name_rdata :: "record_type \<Rightarrow> bool" where
  "has_name_rdata RT_CNAME = True"
| "has_name_rdata RT_NS = True"
| "has_name_rdata RT_PTR = True"
| "has_name_rdata RT_MX = True"
| "has_name_rdata RT_SOA = True"
| "has_name_rdata RT_SRV = True"
| "has_name_rdata _ = False"

datatype qtype = QT_Type record_type | QT_All | QT_Axfr | QT_Mailb | QT_Maila

definition qtype_from_u16 :: "u16 \<Rightarrow> qtype" where
  "qtype_from_u16 value =
     (if value = 252 then QT_Axfr
      else if value = 253 then QT_Mailb
      else if value = 254 then QT_Maila
      else if value = 255 then QT_All
      else QT_Type (record_type_from_u16 value))"

fun qtype_as_u16 :: "qtype \<Rightarrow> u16" where
  "qtype_as_u16 (QT_Type rt) = record_type_as_u16 rt"
| "qtype_as_u16 QT_All = 255"
| "qtype_as_u16 QT_Axfr = 252"
| "qtype_as_u16 QT_Mailb = 253"
| "qtype_as_u16 QT_Maila = 254"

fun as_record_type :: "qtype \<Rightarrow> record_type option" where
  "as_record_type (QT_Type rt) = Some rt"
| "as_record_type _ = None"

section \<open>Record classes (\<^verbatim>\<open>record_class.rs\<close>)\<close>

datatype record_class = RC_In | RC_Ch | RC_Hs | RC_Unknown u16

definition record_class_from_u16 :: "u16 \<Rightarrow> record_class" where
  "record_class_from_u16 value =
     (if value = 1 then RC_In
      else if value = 3 then RC_Ch
      else if value = 4 then RC_Hs
      else RC_Unknown value)"

fun record_class_as_u16 :: "record_class \<Rightarrow> u16" where
  "record_class_as_u16 RC_In = 1"
| "record_class_as_u16 RC_Ch = 3"
| "record_class_as_u16 RC_Hs = 4"
| "record_class_as_u16 (RC_Unknown v) = v"

datatype qclass = QC_Class record_class | QC_Any

definition qclass_from_u16 :: "u16 \<Rightarrow> qclass" where
  "qclass_from_u16 value =
     (if value = 255 then QC_Any else QC_Class (record_class_from_u16 value))"

fun qclass_as_u16 :: "qclass \<Rightarrow> u16" where
  "qclass_as_u16 (QC_Class rc) = record_class_as_u16 rc"
| "qclass_as_u16 QC_Any = 255"

section \<open>Routing enumerations (\<^verbatim>\<open>route.rs\<close>)\<close>

datatype route = Route_China | Route_Foreign | Route_Bootstrap | Route_Fallback

fun route_as_str :: "route \<Rightarrow> string" where
  "route_as_str Route_China = ''china''"
| "route_as_str Route_Foreign = ''foreign''"
| "route_as_str Route_Bootstrap = ''bootstrap''"
| "route_as_str Route_Fallback = ''fallback''"

datatype resolver_location = Loc_China | Loc_Foreign | Loc_Unknown

datatype route_source =
  RS_DomainPrior | RS_GeoIpEvidence | RS_CnameEvidence | RS_DefaultPolicy | RS_FallbackPolicy

datatype domain_prior = Prior_China | Prior_Foreign | Prior_GlobalCdn | Prior_Unknown

datatype cname_hint = Hint_ChinaProvider | Hint_ForeignProvider | Hint_GlobalCdn | Hint_None

datatype ip_geo_scope = Geo_Cn | Geo_Foreign | Geo_Private | Geo_Reserved | Geo_Unknown

datatype confidence = Conf_None | Conf_Weak | Conf_Moderate | Conf_Strong

text \<open>The derived \<^verbatim>\<open>Ord\<close> of \<^verbatim>\<open>Confidence\<close>: declaration order.\<close>

fun confidence_rank :: "confidence \<Rightarrow> nat" where
  "confidence_rank Conf_None = 0"
| "confidence_rank Conf_Weak = 1"
| "confidence_rank Conf_Moderate = 2"
| "confidence_rank Conf_Strong = 3"

lemma confidence_rank_inj: "confidence_rank a = confidence_rank b \<Longrightarrow> a = b"
  by (cases a; cases b) auto

instantiation confidence :: linorder
begin

definition less_eq_confidence :: "confidence \<Rightarrow> confidence \<Rightarrow> bool" where
  "less_eq_confidence a b \<longleftrightarrow> confidence_rank a \<le> confidence_rank b"

definition less_confidence :: "confidence \<Rightarrow> confidence \<Rightarrow> bool" where
  "less_confidence a b \<longleftrightarrow> confidence_rank a < confidence_rank b"

instance
  by standard
    (auto simp: less_eq_confidence_def less_confidence_def dest: confidence_rank_inj)

end

datatype reason_code =
    Reason_DomainPriorCn | Reason_DomainPriorForeign | Reason_GeoIpCn | Reason_GeoIpForeign | Reason_CnameHint
  | Reason_MixedGeo | Reason_GlobalCdn | Reason_DefaultRoute | Reason_FallbackRoute

text \<open>Names for logs and metrics, and the default values.\<close>

definition route_default :: route where
  "route_default = Route_Fallback"

fun resolver_location_as_str :: "resolver_location \<Rightarrow> string" where
  "resolver_location_as_str Loc_China = ''china''"
| "resolver_location_as_str Loc_Foreign = ''foreign''"
| "resolver_location_as_str Loc_Unknown = ''unknown''"

definition resolver_location_default :: resolver_location where
  "resolver_location_default = Loc_Unknown"

fun route_source_as_str :: "route_source \<Rightarrow> string" where
  "route_source_as_str RS_DomainPrior = ''domain_prior''"
| "route_source_as_str RS_GeoIpEvidence = ''geoip_evidence''"
| "route_source_as_str RS_CnameEvidence = ''cname_evidence''"
| "route_source_as_str RS_DefaultPolicy = ''default_policy''"
| "route_source_as_str RS_FallbackPolicy = ''fallback_policy''"

fun domain_prior_as_str :: "domain_prior \<Rightarrow> string" where
  "domain_prior_as_str Prior_China = ''china''"
| "domain_prior_as_str Prior_Foreign = ''foreign''"
| "domain_prior_as_str Prior_GlobalCdn = ''global_cdn''"
| "domain_prior_as_str Prior_Unknown = ''unknown''"

definition domain_prior_default :: domain_prior where
  "domain_prior_default = Prior_Unknown"

fun cname_hint_as_str :: "cname_hint \<Rightarrow> string" where
  "cname_hint_as_str Hint_ChinaProvider = ''china_provider''"
| "cname_hint_as_str Hint_ForeignProvider = ''foreign_provider''"
| "cname_hint_as_str Hint_GlobalCdn = ''global_cdn''"
| "cname_hint_as_str Hint_None = ''none''"

definition cname_hint_default :: cname_hint where
  "cname_hint_default = Hint_None"

fun ip_geo_scope_as_str :: "ip_geo_scope \<Rightarrow> string" where
  "ip_geo_scope_as_str Geo_Cn = ''cn''"
| "ip_geo_scope_as_str Geo_Foreign = ''foreign''"
| "ip_geo_scope_as_str Geo_Private = ''private''"
| "ip_geo_scope_as_str Geo_Reserved = ''reserved''"
| "ip_geo_scope_as_str Geo_Unknown = ''unknown''"

definition ip_geo_scope_default :: ip_geo_scope where
  "ip_geo_scope_default = Geo_Unknown"

fun confidence_as_str :: "confidence \<Rightarrow> string" where
  "confidence_as_str Conf_None = ''none''"
| "confidence_as_str Conf_Weak = ''weak''"
| "confidence_as_str Conf_Moderate = ''moderate''"
| "confidence_as_str Conf_Strong = ''strong''"

definition confidence_default :: confidence where
  "confidence_default = Conf_None"

fun reason_code_as_str :: "reason_code \<Rightarrow> string" where
  "reason_code_as_str Reason_DomainPriorCn = ''domain_prior_cn''"
| "reason_code_as_str Reason_DomainPriorForeign = ''domain_prior_foreign''"
| "reason_code_as_str Reason_GeoIpCn = ''geoip_cn''"
| "reason_code_as_str Reason_GeoIpForeign = ''geoip_foreign''"
| "reason_code_as_str Reason_CnameHint = ''cname_hint''"
| "reason_code_as_str Reason_MixedGeo = ''mixed_geo''"
| "reason_code_as_str Reason_GlobalCdn = ''global_cdn''"
| "reason_code_as_str Reason_DefaultRoute = ''default_route''"
| "reason_code_as_str Reason_FallbackRoute = ''fallback_route''"

section \<open>Lossless conversion\<close>

lemma record_type_as_from_u16 [simp]: "record_type_as_u16 (record_type_from_u16 v) = v"
  by (simp add: record_type_from_u16_def)

lemma qtype_as_from_u16 [simp]: "qtype_as_u16 (qtype_from_u16 v) = v"
  by (simp add: qtype_from_u16_def)

lemma record_class_as_from_u16 [simp]: "record_class_as_u16 (record_class_from_u16 v) = v"
  by (simp add: record_class_from_u16_def)

lemma qclass_as_from_u16 [simp]: "qclass_as_u16 (qclass_from_u16 v) = v"
  by (simp add: qclass_from_u16_def)

text \<open>
  A value is canonical when decoding its code gives it back. Only an \<open>Unknown\<close> variant that
  carries an assigned code, or a \<^verbatim>\<open>QType::Type\<close> that carries a meta code, is not.
\<close>

definition record_type_ok :: "record_type \<Rightarrow> bool" where
  "record_type_ok t \<longleftrightarrow> record_type_from_u16 (record_type_as_u16 t) = t"

definition qtype_ok :: "qtype \<Rightarrow> bool" where
  "qtype_ok t \<longleftrightarrow> qtype_from_u16 (qtype_as_u16 t) = t"

definition record_class_ok :: "record_class \<Rightarrow> bool" where
  "record_class_ok c \<longleftrightarrow> record_class_from_u16 (record_class_as_u16 c) = c"

definition qclass_ok :: "qclass \<Rightarrow> bool" where
  "qclass_ok c \<longleftrightarrow> qclass_from_u16 (qclass_as_u16 c) = c"

lemma record_type_ok_from_u16 [simp]: "record_type_ok (record_type_from_u16 v)"
  by (simp add: record_type_ok_def)

lemma qtype_ok_from_u16 [simp]: "qtype_ok (qtype_from_u16 v)"
  by (simp add: qtype_ok_def)

lemma record_class_ok_from_u16 [simp]: "record_class_ok (record_class_from_u16 v)"
  by (simp add: record_class_ok_def)

lemma qclass_ok_from_u16 [simp]: "qclass_ok (qclass_from_u16 v)"
  by (simp add: qclass_ok_def)

lemma record_type_ok_iff:
  "record_type_ok t \<longleftrightarrow>
     (\<forall>v. t = RT_Unknown v \<longrightarrow> v \<notin> {1, 2, 5, 6, 12, 15, 16, 28, 33, 41, 64, 65})"
  by (cases t) (auto simp: record_type_ok_def record_type_from_u16_def)

end
