(* ===== verification/Wire.thy ===== *)
theory Wire
  imports Dns_Types
begin

text \<open>
  The cursor types of \<^verbatim>\<open>dns-protocol/src/wire.rs\<close>. A \<^verbatim>\<open>WireReader\<close> is a record of the
  buffer, the read position and the stack of saved positions; a reading operation returns the
  value with the advanced reader, or the error. After an \<^verbatim>\<open>Err\<close> every caller of the crate
  abandons the reader, so the error branch carries no reader. A \<^verbatim>\<open>WireWriter\<close> is its buffer.

  Two locales state what the message codec relies on: \<open>wire_decoder\<close> (a decoder moves forward
  inside an unchanged buffer) and \<open>wire_codec\<close> (decoding what was encoded gives the value back
  and stops right behind it). Both are proved here for the integer operations and lifted once
  to repeated decoding; the name, question and record theories interpret them.
\<close>

section \<open>Reader\<close>

record wire_reader =
  rbuf :: "u8 list"
  rpos :: nat
  rsaved :: "nat list"

type_synonym 'a decode = "protocol_error + 'a \<times> wire_reader"

definition reader_new :: "u8 list \<Rightarrow> wire_reader" where
  "reader_new buf = \<lparr>rbuf = buf, rpos = 0, rsaved = []\<rparr>"

definition remaining :: "wire_reader \<Rightarrow> nat" where
  "remaining r = length (rbuf r) - rpos r"

definition set_pos :: "wire_reader \<Rightarrow> nat \<Rightarrow> protocol_error + wire_reader" where
  "set_pos r new_pos =
     (if new_pos > length (rbuf r)
      then Inl (BufferUnderflow 0 (length (rbuf r) - rpos r))
      else Inr (r\<lparr>rpos := new_pos\<rparr>))"

definition save_position :: "wire_reader \<Rightarrow> wire_reader" where
  "save_position r = r\<lparr>rsaved := rpos r # rsaved r\<rparr>"

definition restore_position :: "wire_reader \<Rightarrow> protocol_error + wire_reader" where
  "restore_position r =
     (case rsaved r of
        [] \<Rightarrow> Inl (DecodeError ''no saved position to restore'')
      | p # ps \<Rightarrow> Inr (r\<lparr>rsaved := ps, rpos := p\<rparr>))"

definition read_u8 :: "wire_reader \<Rightarrow> u8 decode" where
  "read_u8 r =
     (if rpos r \<ge> length (rbuf r) then Inl (BufferUnderflow 1 0)
      else Inr (rbuf r ! rpos r, r\<lparr>rpos := rpos r + 1\<rparr>))"

definition read_u16 :: "wire_reader \<Rightarrow> u16 decode" where
  "read_u16 r =
     (if remaining r < 2 then Inl (BufferUnderflow 2 (remaining r))
      else Inr (u16_from_be_bytes (rbuf r ! rpos r) (rbuf r ! (rpos r + 1)),
                r\<lparr>rpos := rpos r + 2\<rparr>))"

definition read_u32 :: "wire_reader \<Rightarrow> u32 decode" where
  "read_u32 r =
     (if remaining r < 4 then Inl (BufferUnderflow 4 (remaining r))
      else Inr (u32_from_be_bytes (rbuf r ! rpos r) (rbuf r ! (rpos r + 1))
                  (rbuf r ! (rpos r + 2)) (rbuf r ! (rpos r + 3)),
                r\<lparr>rpos := rpos r + 4\<rparr>))"

definition read_bytes :: "nat \<Rightarrow> wire_reader \<Rightarrow> u8 list decode" where
  "read_bytes len r =
     (if remaining r < len then Inl (BufferUnderflow len (remaining r))
      else Inr (sub_slice (rpos r) (rpos r + len) (rbuf r), r\<lparr>rpos := rpos r + len\<rparr>))"

definition peek_u8 :: "wire_reader \<Rightarrow> protocol_error + u8" where
  "peek_u8 r =
     (if rpos r \<ge> length (rbuf r) then Inl (BufferUnderflow 1 0)
      else Inr (rbuf r ! rpos r))"

definition is_compression_pointer :: "wire_reader \<Rightarrow> bool" where
  "is_compression_pointer r =
     (case peek_u8 r of Inr b \<Rightarrow> b AND 0xC0 = 0xC0 | Inl _ \<Rightarrow> False)"

section \<open>Writer\<close>

record wire_writer =
  wbuf :: "u8 list"

definition writer_new :: wire_writer where
  "writer_new = \<lparr>wbuf = []\<rparr>"

definition writer_pos :: "wire_writer \<Rightarrow> nat" where
  "writer_pos w = length (wbuf w)"

definition write_u8 :: "u8 \<Rightarrow> wire_writer \<Rightarrow> wire_writer" where
  "write_u8 v w = w\<lparr>wbuf := wbuf w @ [v]\<rparr>"

definition write_u16 :: "u16 \<Rightarrow> wire_writer \<Rightarrow> wire_writer" where
  "write_u16 v w = w\<lparr>wbuf := wbuf w @ u16_to_be_bytes v\<rparr>"

definition write_u32 :: "u32 \<Rightarrow> wire_writer \<Rightarrow> wire_writer" where
  "write_u32 v w = w\<lparr>wbuf := wbuf w @ u32_to_be_bytes v\<rparr>"

definition write_bytes :: "u8 list \<Rightarrow> wire_writer \<Rightarrow> wire_writer" where
  "write_bytes data w = w\<lparr>wbuf := wbuf w @ data\<rparr>"

text \<open>The indexed assignment \<^verbatim>\<open>as_bytes_mut()[i] = v\<close> (a panic in Rust when out of range).\<close>

definition patch_u8 :: "nat \<Rightarrow> u8 \<Rightarrow> wire_writer \<Rightarrow> wire_writer" where
  "patch_u8 i v w = w\<lparr>wbuf := (wbuf w)[i := v]\<rparr>"

lemma wbuf_write_u8 [wire_simps]: "wbuf (write_u8 v w) = wbuf w @ [v]"
  by (simp add: write_u8_def)

lemma wbuf_write_u16 [wire_simps]: "wbuf (write_u16 v w) = wbuf w @ u16_to_be_bytes v"
  by (simp add: write_u16_def)

lemma wbuf_write_u32 [wire_simps]: "wbuf (write_u32 v w) = wbuf w @ u32_to_be_bytes v"
  by (simp add: write_u32_def)

lemma wbuf_write_bytes [wire_simps]: "wbuf (write_bytes d w) = wbuf w @ d"
  by (simp add: write_bytes_def)

lemma wbuf_writer_new [wire_simps]: "wbuf writer_new = []"
  by (simp add: writer_new_def)

lemma wbuf_patch_u8 [wire_simps]: "wbuf (patch_u8 i v w) = (wbuf w)[i := v]"
  by (simp add: patch_u8_def)

section \<open>The unread suffix\<close>

definition reader_ok :: "wire_reader \<Rightarrow> bool" where
  "reader_ok r \<longleftrightarrow> rpos r \<le> length (rbuf r)"

definition rest :: "wire_reader \<Rightarrow> u8 list" where
  "rest r = drop (rpos r) (rbuf r)"

definition adv :: "nat \<Rightarrow> wire_reader \<Rightarrow> wire_reader" where
  "adv n r = r\<lparr>rpos := rpos r + n\<rparr>"

lemma reader_ok_new [simp]: "reader_ok (reader_new buf)"
  by (simp add: reader_ok_def reader_new_def)

lemma rest_new [simp]: "rest (reader_new buf) = buf"
  by (simp add: rest_def reader_new_def)

lemma rbuf_adv [simp]: "rbuf (adv n r) = rbuf r"
  by (simp add: adv_def)

lemma rpos_adv [simp]: "rpos (adv n r) = rpos r + n"
  by (simp add: adv_def)

lemma adv_adv [simp]: "adv m (adv n r) = adv (n + m) r"
  by (simp add: adv_def add.assoc)

lemma adv_0 [simp]: "adv 0 r = r"
  by (simp add: adv_def)

lemma rest_adv: "rest (adv n r) = drop n (rest r)"
  by (simp add: rest_def adv_def add.commute)

lemma rest_adv_append: "rest r = xs @ ys \<Longrightarrow> n = length xs \<Longrightarrow> rest (adv n r) = ys"
  by (simp add: rest_adv)

lemma remaining_rest: "remaining r = length (rest r)"
  by (simp add: remaining_def rest_def)

lemma reader_ok_adv: "reader_ok r \<Longrightarrow> n \<le> length (rest r) \<Longrightarrow> reader_ok (adv n r)"
  by (auto simp: reader_ok_def rest_def)

lemma rest_length: "reader_ok r \<Longrightarrow> length (rbuf r) = rpos r + length (rest r)"
  by (simp add: reader_ok_def rest_def)

lemma rest_Cons_conv:
  "rpos r < length (rbuf r) \<Longrightarrow> rest r = rbuf r ! rpos r # rest (adv 1 r)"
  by (simp add: rest_def Cons_nth_drop_Suc)

lemma read_u8_rest:
  "rest r = b # ys \<Longrightarrow> read_u8 r = Inr (b, adv 1 r)"
  by (auto simp: read_u8_def rest_def adv_def nth_via_drop)

lemma peek_u8_rest: "rest r = b # ys \<Longrightarrow> peek_u8 r = Inr b"
  by (auto simp: peek_u8_def rest_def nth_via_drop)

lemma read_u16_rest:
  assumes "rest r = a # b # ys"
  shows "read_u16 r = Inr (u16_from_be_bytes a b, adv 2 r)"
proof -
  have "\<forall>i < length (rest r). rbuf r ! (rpos r + i) = rest r ! i"
    by (simp add: rest_def)
  with assms have "rbuf r ! rpos r = a" "rbuf r ! (rpos r + 1) = b"
    by (metis add_0_right length_greater_0_conv list.discI nth_Cons_0)
      (use \<open>\<forall>i < length (rest r). rbuf r ! (rpos r + i) = rest r ! i\<close> assms in force)
  with assms show ?thesis
    by (simp add: read_u16_def remaining_rest adv_def)
qed

lemma read_bytes_rest:
  "rest r = xs @ ys \<Longrightarrow> length xs = n \<Longrightarrow> read_bytes n r = Inr (xs, adv n r)"
  by (auto simp: read_bytes_def remaining_rest sub_slice_def adv_def simp flip: rest_def)

lemma read_u32_rest:
  assumes "rest r = a # b # c # d # ys"
  shows "read_u32 r = Inr (u32_from_be_bytes a b c d, adv 4 r)"
proof -
  have nth: "rbuf r ! (rpos r + i) = rest r ! i" if "i < length (rest r)" for i
    using that by (simp add: rest_def)
  from nth [of 0] nth [of 1] nth [of 2] nth [of 3] assms show ?thesis
    by (simp add: read_u32_def remaining_rest adv_def)
qed

section \<open>Decoder and codec interfaces\<close>

text \<open>
  \<open>reads n\<close> of the source's \<^verbatim>\<open>for _ in 0..count { v.push(T::read(..)?) }\<close>: \<open>count\<close> values in
  order, the first error ends the loop.
\<close>

fun read_many :: "(wire_reader \<Rightarrow> 'a decode) \<Rightarrow> nat \<Rightarrow> wire_reader \<Rightarrow> 'a list decode" where
  "read_many dec 0 r = Inr ([], r)"
| "read_many dec (Suc n) r =
     rbind (dec r) (\<lambda>(x, r). rbind (read_many dec n r) (\<lambda>(xs, r). Inr (x # xs, r)))"

definition moves_forward :: "wire_reader \<Rightarrow> wire_reader \<Rightarrow> bool" where
  "moves_forward r r' \<longleftrightarrow>
     rbuf r' = rbuf r \<and> rsaved r' = rsaved r \<and> rpos r \<le> rpos r' \<and>
     (reader_ok r \<longrightarrow> reader_ok r')"

lemma moves_forward_refl [simp]: "moves_forward r r"
  by (simp add: moves_forward_def)

lemma moves_forward_trans [trans]:
  "moves_forward r s \<Longrightarrow> moves_forward s t \<Longrightarrow> moves_forward r t"
  by (auto simp: moves_forward_def)

locale wire_decoder =
  fixes dec :: "wire_reader \<Rightarrow> protocol_error + 'a \<times> wire_reader"
  assumes dec_moves: "dec r = Inr (x, r') \<Longrightarrow> moves_forward r r'"
begin

lemma read_many_moves:
  "read_many dec n r = Inr (xs, r') \<Longrightarrow> moves_forward r r'"
  by (induction n arbitrary: r xs)
    (auto simp: result_simps intro: moves_forward_trans dest!: dec_moves)

lemma read_many_cong:
  assumes "\<And>r. rbuf r = buf \<Longrightarrow> dec' r = dec r" "rbuf r = buf"
  shows "read_many dec' n r = read_many dec n r"
  using assms(2)
proof (induction n arbitrary: r)
  case (Suc n)
  have "rbind (dec r) (\<lambda>(x, r). rbind (read_many dec' n r) (\<lambda>(xs, r). Inr (x # xs, r))) =
    rbind (dec r) (\<lambda>(x, r). rbind (read_many dec n r) (\<lambda>(xs, r). Inr (x # xs, r)))"
    by (rule rbind_cong [OF refl])
      (use Suc in \<open>auto dest!: dec_moves simp: moves_forward_def\<close>)
  with Suc.prems assms(1) show ?case by simp
qed simp

lemma read_many_all:
  assumes "\<And>r x r'. dec r = Inr (x, r') \<Longrightarrow> P x" "read_many dec n r = Inr (xs, r')"
  shows "list_all P xs"
  using assms(2) by (induction n arbitrary: r xs) (auto simp: result_simps dest: assms(1))

lemma read_many_length:
  "read_many dec n r = Inr (xs, r') \<Longrightarrow> length xs = n"
  by (induction n arbitrary: r xs) (auto simp: result_simps)

end

locale wire_codec = wire_decoder dec
  for dec :: "wire_reader \<Rightarrow> protocol_error + 'a \<times> wire_reader" +
  fixes enc :: "'a \<Rightarrow> u8 list"
    and ok :: "'a \<Rightarrow> bool"
  assumes roundtrip:
    "ok x \<Longrightarrow> reader_ok r \<Longrightarrow> rest r = enc x @ ys \<Longrightarrow> dec r = Inr (x, adv (length (enc x)) r)"
begin

lemma read_many_roundtrip:
  "list_all ok xs \<Longrightarrow> reader_ok r \<Longrightarrow> rest r = concat (map enc xs) @ ys \<Longrightarrow>
   read_many dec (length xs) r = Inr (xs, adv (length (concat (map enc xs))) r)"
proof (induction xs arbitrary: r)
  case Nil
  then show ?case by simp
next
  case (Cons x xs)
  let ?r = "adv (length (enc x)) r"
  from Cons.prems have "dec r = Inr (x, ?r)"
    using roundtrip [of x r "concat (map enc xs) @ ys"] by simp
  moreover have "read_many dec (length xs) ?r = Inr (xs, adv (length (concat (map enc xs))) ?r)"
    by (rule Cons.IH)
      (use Cons.prems in \<open>simp_all add: reader_ok_adv rest_adv\<close>)
  ultimately show ?case by simp
qed

end

lemma read_u8_moves: "read_u8 r = Inr (x, r') \<Longrightarrow> moves_forward r r'"
  by (auto simp: read_u8_def moves_forward_def reader_ok_def split: if_splits)

lemma read_u16_moves: "read_u16 r = Inr (x, r') \<Longrightarrow> moves_forward r r'"
  by (auto simp: read_u16_def moves_forward_def reader_ok_def remaining_def split: if_splits)

lemma read_u32_moves: "read_u32 r = Inr (x, r') \<Longrightarrow> moves_forward r r'"
  by (auto simp: read_u32_def moves_forward_def reader_ok_def remaining_def split: if_splits)

lemma read_bytes_moves: "read_bytes n r = Inr (xs, r') \<Longrightarrow> moves_forward r r'"
  by (auto simp: read_bytes_def moves_forward_def reader_ok_def remaining_def split: if_splits)

lemma read_bytes_length: "read_bytes n r = Inr (xs, r') \<Longrightarrow> length xs = n"
  by (auto simp: read_bytes_def remaining_def sub_slice_def split: if_splits)

lemma read_u16_enc:
  "rest r = u16_to_be_bytes v @ ys \<Longrightarrow> read_u16 r = Inr (v, adv 2 r)"
  by (auto simp: u16_to_be_bytes_def read_u16_rest)

lemma read_u32_enc:
  "rest r = u32_to_be_bytes v @ ys \<Longrightarrow> read_u32 r = Inr (v, adv 4 r)"
  by (auto simp: u32_to_be_bytes_def read_u32_rest)

interpretation u8_codec: wire_codec read_u8 "\<lambda>b. [b]" "\<lambda>_. True"
  by unfold_locales (simp_all add: read_u8_moves read_u8_rest)

interpretation u16_codec: wire_codec read_u16 u16_to_be_bytes "\<lambda>_. True"
  by unfold_locales (simp_all add: read_u16_moves read_u16_enc)

interpretation u32_codec: wire_codec read_u32 u32_to_be_bytes "\<lambda>_. True"
  by unfold_locales (simp_all add: read_u32_moves read_u32_enc)

text \<open>What the decoders of the next theories use to discharge their own \<open>dec_moves\<close>.\<close>

lemmas reads_move = read_u8_moves read_u16_moves read_u32_moves read_bytes_moves

end
