(* ===== verification/Name_Codec.thy ===== *)
theory Name_Codec
  imports Wire
begin

text \<open>
  Domain names and their wire codec, \<^verbatim>\<open>dns-protocol/src/name.rs\<close>. A name is stored as the
  source stores it: all label bytes in one buffer and, per label, the cumulative end offset as
  an 8-bit number. \<open>read_name_loop\<close> is the decoding loop with its recursion through
  compression pointers; it terminates because each label advances the reader and each pointer
  spends one of 63 levels.

  The theory relates this representation to the plain list of labels (\<open>of_labels\<close>), which is
  the specification: every operation of the source is shown to compute the corresponding list
  operation, the uncompressed encoding is decoded back exactly, the compressed encoding is
  decoded back whenever the compression map points at what was written, and decoding yields
  only well-formed names.
\<close>

section \<open>The type and its constructors\<close>

record domain_name =
  dn_buf :: "u8 list"
  dn_ends :: "u8 list"

definition root :: domain_name where
  "root = \<lparr>dn_buf = [], dn_ends = []\<rparr>"

text \<open>\<^verbatim>\<open>ends.push(u8::try_from(n).map_err(|_| TooManyLabels(ends.len()))?)\<close>\<close>

definition push_end :: "nat \<Rightarrow> u8 list \<Rightarrow> protocol_error + u8 list" where
  "push_end n ends =
     (if n \<le> 255 then Inr (ends @ [of_nat n]) else Inl (TooManyLabels (length ends)))"

text \<open>The loop body shared by \<^verbatim>\<open>from_labels\<close> and \<^verbatim>\<open>from_str\<close>.\<close>

fun push_labels :: "u8 list list \<Rightarrow> u8 list \<Rightarrow> u8 list \<Rightarrow> protocol_error + u8 list \<times> u8 list" where
  "push_labels [] buf ends = Inr (buf, ends)"
| "push_labels (bytes # ls) buf ends =
     (if length bytes > MAX_LABEL_LENGTH then Inl (LabelTooLong (length bytes))
      else if bytes = [] then push_labels ls buf ends
      else rbind (push_end (length (buf @ bytes)) ends)
             (\<lambda>ends. push_labels ls (buf @ bytes) ends))"

definition from_labels :: "u8 list list \<Rightarrow> protocol_error + domain_name" where
  "from_labels ls =
     rbind (push_labels ls [] []) (\<lambda>(buf, ends).
       if length ends > MAX_LABEL_COUNT then Inl (TooManyLabels (length ends))
       else Inr \<lparr>dn_buf = buf, dn_ends = ends\<rparr>)"

definition is_root :: "domain_name \<Rightarrow> bool" where
  "is_root n \<longleftrightarrow> dn_ends n = []"

definition label_count :: "domain_name \<Rightarrow> nat" where
  "label_count n = length (dn_ends n)"

definition label_start :: "domain_name \<Rightarrow> nat \<Rightarrow> nat" where
  "label_start n i = (if i = 0 then 0 else unat (dn_ends n ! (i - 1)))"

definition label :: "domain_name \<Rightarrow> nat \<Rightarrow> u8 list option" where
  "label n index =
     (if index \<ge> length (dn_ends n) then None
      else Some (sub_slice (label_start n index) (unat (dn_ends n ! index)) (dn_buf n)))"

definition label_len :: "domain_name \<Rightarrow> nat \<Rightarrow> nat" where
  "label_len n index = unat (dn_ends n ! index) - label_start n index"

definition name_labels :: "domain_name \<Rightarrow> u8 list list" where
  "name_labels n =
     map (\<lambda>i. sub_slice (label_start n i) (unat (dn_ends n ! i)) (dn_buf n))
       [0..<length (dn_ends n)]"

definition wire_len :: "domain_name \<Rightarrow> nat" where
  "wire_len n =
     (if dn_ends n = [] then 1 else length (dn_buf n) + length (dn_ends n) + 1)"

section \<open>Presentation format\<close>

definition as_bytes :: "string \<Rightarrow> u8 list" where
  "as_bytes s = map (\<lambda>c. of_nat (of_char c)) s"

definition byte_char :: "u8 \<Rightarrow> char" where
  "byte_char b = char_of (unat b)"

definition from_str :: "string \<Rightarrow> protocol_error + domain_name" where
  "from_str s =
     (if s = ''.'' then Inr root
      else let s = trim_end_matches CHR ''.'' s in
        if s = [] then Inr root
        else rbind (push_labels (map as_bytes (split_on CHR ''.'' s)) [] []) (\<lambda>(buf, ends).
          if length ends > MAX_LABEL_COUNT then Inl (TooManyLabels (length ends))
          else Inr \<lparr>dn_buf = buf, dn_ends = ends\<rparr>))"

definition is_ascii_graphic :: "u8 \<Rightarrow> bool" where
  "is_ascii_graphic b \<longleftrightarrow> 0x21 \<le> b \<and> b \<le> 0x7E"

text \<open>\<^verbatim>\<open>{:03}\<close> of a byte: three decimal digits.\<close>

definition escape_byte :: "u8 \<Rightarrow> string" where
  "escape_byte b =
     (let n = unat b
      in [CHR 0x5C, digit_char (n div 100), digit_char (n div 10), digit_char n])"

definition display_byte :: "u8 \<Rightarrow> string" where
  "display_byte b =
     (if is_ascii_graphic b \<and> b \<noteq> 0x2E \<and> b \<noteq> 0x5C then [byte_char b] else escape_byte b)"

definition name_to_string :: "domain_name \<Rightarrow> string" where
  "name_to_string n =
     (if dn_ends n = [] then ''.''
      else concat (map (\<lambda>l. concat (map display_byte l) @ ''.'') (name_labels n)))"

section \<open>Uncompressed wire format\<close>

fun write_labels_from :: "nat \<Rightarrow> u8 list \<Rightarrow> u8 list \<Rightarrow> wire_writer \<Rightarrow> wire_writer" where
  "write_labels_from prev_end [] buf w = w"
| "write_labels_from prev_end (e # es) buf w =
     write_labels_from (unat e) es buf
       (write_bytes (sub_slice prev_end (unat e) buf) (write_u8 (of_nat (unat e - prev_end)) w))"

definition write_wire_uncompressed :: "domain_name \<Rightarrow> wire_writer \<Rightarrow> wire_writer" where
  "write_wire_uncompressed n w = write_u8 0 (write_labels_from 0 (dn_ends n) (dn_buf n) w)"

definition name_to_wire :: "domain_name \<Rightarrow> u8 list" where
  "name_to_wire n = wbuf (write_wire_uncompressed n writer_new)"

section \<open>Name arithmetic\<close>

definition append_label :: "domain_name \<Rightarrow> u8 list \<Rightarrow> protocol_error + domain_name" where
  "append_label n lbl =
     (if length lbl > MAX_LABEL_LENGTH then Inl (LabelTooLong (length lbl))
      else let new_buf = dn_buf n @ lbl in
        rbind (push_end (length new_buf) (dn_ends n)) (\<lambda>new_ends.
          if length new_ends > MAX_LABEL_COUNT then Inl (TooManyLabels (length new_ends))
          else Inr \<lparr>dn_buf = new_buf, dn_ends = new_ends\<rparr>))"

definition parent :: "domain_name \<Rightarrow> domain_name" where
  "parent n =
     (case dn_ends n of
        [] \<Rightarrow> root
      | e # es \<Rightarrow> \<lparr>dn_buf = drop (unat e) (dn_buf n), dn_ends = map (\<lambda>x. x - e) es\<rparr>)"

definition is_suffix_of :: "domain_name \<Rightarrow> domain_name \<Rightarrow> bool" where
  "is_suffix_of n other \<longleftrightarrow>
     (if dn_ends n = [] then True
      else if length (dn_ends n) > length (dn_ends other) then False
      else if length (dn_buf n) > length (dn_buf other) then False
      else dn_buf n = drop (length (dn_buf other) - length (dn_buf n)) (dn_buf other))"

section \<open>Decoding\<close>

text \<open>\<^verbatim>\<open>(((byte & 0x3F) as usize) << 8) | (pointer_byte2 as usize)\<close>\<close>

definition pointer_offset :: "u8 \<Rightarrow> u8 \<Rightarrow> nat" where
  "pointer_offset b1 b2 = push_bit 8 (unat (b1 AND 0x3F)) OR unat b2"

text \<open>The loop that appends the end offsets of a pointed-to suffix.\<close>

fun append_ends :: "nat \<Rightarrow> u8 list \<Rightarrow> u8 list \<Rightarrow> protocol_error + u8 list" where
  "append_ends buf_start [] ends = Inr ends"
| "append_ends buf_start (e # es) ends =
     rbind (push_end (buf_start + unat e) ends) (\<lambda>ends. append_ends buf_start es ends)"

function read_name_loop ::
  "u8 list \<Rightarrow> nat \<Rightarrow> wire_reader \<Rightarrow> u8 list \<Rightarrow> u8 list \<Rightarrow> domain_name decode" where
  "read_name_loop message depth r buf ends =
     (if remaining r = 0 then Inl (BufferUnderflow 1 0)
      else rbind (peek_u8 r) (\<lambda>byte.
        if 0xC0 \<le> byte then
          rbind (read_u8 r) (\<lambda>(_, r). rbind (read_u8 r) (\<lambda>(pointer_byte2, r).
            let offset = pointer_offset byte pointer_byte2 in
            if offset \<ge> length message then Inl (PointerOutOfBounds offset (length message))
            else rbind (set_pos (reader_new message) offset) (\<lambda>ptr_reader.
              rbind (if depth + 1 > MAX_LABEL_LENGTH
                     then Inl (PointerLoop (rpos ptr_reader) (depth + 1))
                     else read_name_loop message (depth + 1) ptr_reader [] [])
                (\<lambda>(suffix, _). rbind (append_ends (length buf) (dn_ends suffix) ends)
                  (\<lambda>ends. Inr (\<lparr>dn_buf = buf @ dn_buf suffix, dn_ends = ends\<rparr>, r))))))
        else if byte = 0 then
          rbind (read_u8 r) (\<lambda>(_, r). Inr (\<lparr>dn_buf = buf, dn_ends = ends\<rparr>, r))
        else if byte \<le> 0x3F then
          rbind (read_u8 r) (\<lambda>(_, r). rbind (read_bytes (unat byte) r) (\<lambda>(label_data, r).
            rbind (push_end (length (buf @ label_data)) ends) (\<lambda>ends.
              read_name_loop message depth r (buf @ label_data) ends)))
        else Inl (InvalidPointerMarker (rpos r) byte)))"
  by pat_completeness auto
termination
  by (relation "measures [\<lambda>(m, d, r, b, e). 63 - d, \<lambda>(m, d, r, b, e). length (rbuf r) - rpos r]")
    (auto simp: MAX_LABEL_LENGTH_def read_u8_def read_bytes_def remaining_def split: if_splits)

declare read_name_loop.simps [simp del]

definition read_name_with_depth ::
  "wire_reader \<Rightarrow> u8 list \<Rightarrow> nat \<Rightarrow> domain_name decode" where
  "read_name_with_depth r message depth =
     (if depth > MAX_LABEL_LENGTH then Inl (PointerLoop (rpos r) depth)
      else read_name_loop message depth r [] [])"

definition read_name :: "wire_reader \<Rightarrow> u8 list \<Rightarrow> domain_name decode" where
  "read_name r message = read_name_with_depth r message 0"

definition read_name_at :: "u8 list \<Rightarrow> nat \<Rightarrow> protocol_error + domain_name \<times> nat" where
  "read_name_at message offset =
     rbind (set_pos (reader_new message) offset) (\<lambda>r.
       rbind (read_name r message) (\<lambda>(name, r). Inr (name, rpos r)))"

section \<open>Compressed encoding\<close>

definition fnv_step :: "u64 \<Rightarrow> u8 \<Rightarrow> u64" where
  "fnv_step h b = (h XOR ucast b) * 0x100000001b3"

fun suffix_hash_loop :: "nat \<Rightarrow> u8 list \<Rightarrow> u8 list \<Rightarrow> u64 \<Rightarrow> u64" where
  "suffix_hash_loop prev_end [] buf h = h"
| "suffix_hash_loop prev_end (e # es) buf h =
     suffix_hash_loop (unat e) es buf
       (foldl fnv_step (fnv_step h (of_nat (unat e - prev_end)))
          (sub_slice prev_end (unat e) buf))"

definition suffix_hash_from :: "domain_name \<Rightarrow> nat \<Rightarrow> u64" where
  "suffix_hash_from n start =
     fnv_step
       (suffix_hash_loop (label_start n start) (drop start (dn_ends n)) (dn_buf n)
          0xcbf29ce484222325) 0"

text \<open>The search for the longest suffix already in the map: the first label index, in
  order, whose suffix hash is a key.\<close>

fun find_suffix :: "domain_name \<Rightarrow> (u64 \<rightharpoonup> nat) \<Rightarrow> nat list \<Rightarrow> (nat \<times> nat) option" where
  "find_suffix n m [] = None"
| "find_suffix n m (i # ks) =
     (case m (suffix_hash_from n i) of
        Some offset \<Rightarrow> Some (i, offset)
      | None \<Rightarrow> find_suffix n m ks)"

fun write_label_list :: "u8 list list \<Rightarrow> wire_writer \<Rightarrow> wire_writer" where
  "write_label_list [] w = w"
| "write_label_list (l # ls) w =
     write_label_list ls (write_bytes l (write_u8 (of_nat (length l)) w))"

fun register_suffixes ::
  "domain_name \<Rightarrow> nat list \<Rightarrow> nat \<Rightarrow> (u64 \<rightharpoonup> nat) \<Rightarrow> (u64 \<rightharpoonup> nat)" where
  "register_suffixes n [] label_offset m = m"
| "register_suffixes n (i # ks) label_offset m =
     register_suffixes n ks (label_offset + (1 + label_len n i))
       (m(suffix_hash_from n i \<mapsto> label_offset))"

definition write_name_compressed ::
  "domain_name \<Rightarrow> wire_writer \<Rightarrow> (u64 \<rightharpoonup> nat) \<Rightarrow> wire_writer \<times> (u64 \<rightharpoonup> nat) \<times> nat" where
  "write_name_compressed n w m =
     (let base_offset = writer_pos w; num_labels = label_count n in
      case find_suffix n m [0..<num_labels] of
        Some (i, offset) \<Rightarrow>
          let w = write_label_list
                    (map (\<lambda>j. case label n j of Some l \<Rightarrow> l | None \<Rightarrow> []) [0..<i]) w;
              pointer_val = (of_nat offset :: u16);
              w = write_u8 (0xC0 OR ucast (drop_bit 8 pointer_val AND 0x3F)) w;
              w = write_u8 (ucast (pointer_val AND 0xFF)) w
          in (w, m, writer_pos w - base_offset)
      | None \<Rightarrow>
          let w = write_wire_uncompressed n w;
              m = register_suffixes n [0..<num_labels] base_offset m
          in (w, m, writer_pos w - base_offset))"

section \<open>Specification: lists of labels\<close>

fun cum :: "nat \<Rightarrow> 'a list list \<Rightarrow> nat list" where
  "cum n [] = []"
| "cum n (l # ls) = (n + length l) # cum (n + length l) ls"

definition of_labels :: "u8 list list \<Rightarrow> domain_name" where
  "of_labels ls = \<lparr>dn_buf = concat ls, dn_ends = map of_nat (cum 0 ls)\<rparr>"

definition labels_ok :: "u8 list list \<Rightarrow> bool" where
  "labels_ok ls \<longleftrightarrow>
     list_all (\<lambda>l. l \<noteq> [] \<and> length l \<le> MAX_LABEL_LENGTH) ls \<and> length (concat ls) \<le> 255"

definition wire_of :: "u8 list list \<Rightarrow> u8 list" where
  "wire_of ls = concat (map (\<lambda>l. of_nat (length l) # l) ls) @ [0]"

definition name_ok :: "domain_name \<Rightarrow> bool" where
  "name_ok n \<longleftrightarrow> labels_ok (name_labels n) \<and> of_labels (name_labels n) = n"

lemma length_cum [simp]: "length (cum n ls) = length ls"
  by (induction ls arbitrary: n) auto

lemma cum_append: "cum n (xs @ ys) = cum n xs @ cum (n + length (concat xs)) ys"
  by (induction xs arbitrary: n) (auto simp: add.assoc)

lemma cum_le: "x \<in> set (cum n ls) \<Longrightarrow> n \<le> x \<and> x \<le> n + length (concat ls)"
  by (induction ls arbitrary: n) fastforce+

lemma cum_shift: "cum (m + n) ls = map ((+) m) (cum n ls)"
  by (induction ls arbitrary: n) (auto simp: add.assoc)

text \<open>The labels of a name read from left to right.\<close>

fun labels_rec :: "nat \<Rightarrow> u8 list \<Rightarrow> u8 list \<Rightarrow> u8 list list" where
  "labels_rec p [] buf = []"
| "labels_rec p (e # es) buf = sub_slice p (unat e) buf # labels_rec (unat e) es buf"

lemma length_labels_rec [simp]: "length (labels_rec p es buf) = length es"
  by (induction es arbitrary: p) auto

lemma nth_labels_rec:
  "i < length es \<Longrightarrow>
   labels_rec p es buf ! i = sub_slice (if i = 0 then p else unat (es ! (i - 1))) (unat (es ! i)) buf"
  by (induction es arbitrary: p i) (auto simp: nth_Cons split: nat.splits)

lemma name_labels_rec: "name_labels n = labels_rec 0 (dn_ends n) (dn_buf n)"
  by (rule nth_equalityI) (auto simp: name_labels_def nth_labels_rec label_start_def)

lemma labels_rec_cum:
  "length pre + length (concat ls) \<le> 255 \<Longrightarrow>
   labels_rec (length pre) (map of_nat (cum (length pre) ls)) (pre @ concat ls @ post) = ls"
proof (induction ls arbitrary: pre)
  case Nil
  then show ?case by simp
next
  case (Cons l ls)
  from Cons.prems have u: "unat (of_nat (length pre + length l) :: u8) = length pre + length l"
    by (intro unat_of_nat_u8) simp
  from Cons.IH [of "pre @ l"] Cons.prems u show ?case
    by (simp add: sub_slice_def)
qed

lemma name_labels_of_labels [simp]:
  "length (concat ls) \<le> 255 \<Longrightarrow> name_labels (of_labels ls) = ls"
  using labels_rec_cum [of "[]" ls "[]"] by (simp add: name_labels_rec of_labels_def)

lemma name_ok_of_labels [simp]: "labels_ok ls \<Longrightarrow> name_ok (of_labels ls)"
  by (simp add: name_ok_def labels_ok_def)

lemma name_okE:
  assumes "name_ok n"
  obtains ls where "labels_ok ls" "n = of_labels ls" "name_labels n = ls"
  using assms by (metis name_ok_def)

lemma labels_ok_Nil [simp]: "labels_ok []"
  by (simp add: labels_ok_def)

lemma labels_ok_append:
  "labels_ok (xs @ ys) \<Longrightarrow> labels_ok xs \<and> labels_ok ys"
  by (auto simp: labels_ok_def)

lemma labels_ok_Cons:
  "labels_ok (l # ls) \<longleftrightarrow>
     l \<noteq> [] \<and> length l \<le> 63 \<and> length l + length (concat ls) \<le> 255 \<and> labels_ok ls"
  by (auto simp: labels_ok_def MAX_LABEL_LENGTH_def)

lemma labels_ok_drop: "labels_ok ls \<Longrightarrow> labels_ok (drop i ls)"
  by (metis append_take_drop_id labels_ok_append)

lemma root_of_labels: "root = of_labels []"
  by (simp add: root_def of_labels_def)

lemma label_count_of_labels [simp]: "label_count (of_labels ls) = length ls"
  by (simp add: label_count_def of_labels_def)

subsection \<open>Construction\<close>

lemma push_labels_spec:
  assumes "push_labels ls buf ends = Inr (b, e)" "length buf \<le> 255"
  shows "b = buf @ concat (filter (\<lambda>l. l \<noteq> []) ls) \<and>
    e = ends @ map of_nat (cum (length buf) (filter (\<lambda>l. l \<noteq> []) ls)) \<and>
    list_all (\<lambda>l. length l \<le> MAX_LABEL_LENGTH) ls \<and> length b \<le> 255"
  using assms
  by (induction ls buf ends rule: push_labels.induct)
    (auto simp: push_end_def result_simps split: if_splits)

lemma push_labels_ok:
  assumes "list_all (\<lambda>l. length l \<le> MAX_LABEL_LENGTH) ls"
    "length buf + length (concat ls) \<le> 255"
  shows "push_labels ls buf ends =
    Inr (buf @ concat (filter (\<lambda>l. l \<noteq> []) ls),
         ends @ map of_nat (cum (length buf) (filter (\<lambda>l. l \<noteq> []) ls)))"
  using assms
  by (induction ls buf ends rule: push_labels.induct) (auto simp: push_end_def)

lemma labels_ok_filter: "labels_ok ls \<Longrightarrow> filter (\<lambda>l. l \<noteq> []) ls = ls"
  by (auto simp: labels_ok_def list_all_iff intro: filter_True)

lemma from_labels_ok:
  assumes "labels_ok ls" "length ls \<le> MAX_LABEL_COUNT"
  shows "from_labels ls = Inr (of_labels ls)"
proof -
  have "push_labels ls [] [] = Inr (concat ls, map of_nat (cum 0 ls))"
    using push_labels_ok [of ls "[]" "[]"] assms(1)
    by (simp add: labels_ok_filter) (simp add: labels_ok_def list_all_iff)
  then show ?thesis
    using assms(2) by (simp add: from_labels_def of_labels_def)
qed

lemma from_labels_name_ok:
  assumes "from_labels ls = Inr n"
  shows "name_ok n \<and> name_labels n = filter (\<lambda>l. l \<noteq> []) ls \<and> label_count n \<le> MAX_LABEL_COUNT"
proof -
  let ?ls = "filter (\<lambda>l. l \<noteq> []) ls"
  from assms obtain b e where p: "push_labels ls [] [] = Inr (b, e)"
    and n: "n = \<lparr>dn_buf = b, dn_ends = e\<rparr>" and c: "length e \<le> MAX_LABEL_COUNT"
    by (auto simp: from_labels_def result_simps split: if_splits)
  from push_labels_spec [OF p] n have "n = of_labels ?ls" and "labels_ok ?ls"
    by (auto simp: of_labels_def labels_ok_def list_all_iff)
  moreover from c n have "label_count n \<le> MAX_LABEL_COUNT"
    by (simp add: label_count_def)
  ultimately show ?thesis
    using name_labels_of_labels [of ?ls] by (simp add: labels_ok_def)
qed

subsection \<open>Encoding\<close>

lemma wbuf_write_labels_from:
  "length pre + length (concat ls) \<le> 255 \<Longrightarrow>
   wbuf (write_labels_from (length pre) (map of_nat (cum (length pre) ls)) (pre @ concat ls) w) =
   wbuf w @ concat (map (\<lambda>l. of_nat (length l) # l) ls)"
proof (induction ls arbitrary: pre w)
  case Nil
  then show ?case by simp
next
  case (Cons l ls)
  from Cons.prems have u: "unat (of_nat (length pre + length l) :: u8) = length pre + length l"
    by (intro unat_of_nat_u8) simp
  from Cons.IH [of "pre @ l"] Cons.prems u show ?case
    by (simp add: sub_slice_def wire_simps)
qed

lemma wbuf_write_of_labels:
  "length (concat ls) \<le> 255 \<Longrightarrow>
   wbuf (write_wire_uncompressed (of_labels ls) w) = wbuf w @ wire_of ls"
  using wbuf_write_labels_from [of "[]" ls w]
  by (simp add: write_wire_uncompressed_def of_labels_def wire_of_def wire_simps)

lemma wbuf_write_name [wire_simps]:
  "name_ok n \<Longrightarrow> wbuf (write_wire_uncompressed n w) = wbuf w @ wire_of (name_labels n)"
  by (erule name_okE) (auto simp: wbuf_write_of_labels labels_ok_def)

lemma name_to_wire_eq: "name_ok n \<Longrightarrow> name_to_wire n = wire_of (name_labels n)"
  by (simp add: name_to_wire_def wire_simps)

lemma length_wire_of: "length (wire_of ls) = length (concat ls) + length ls + 1"
  by (induction ls) (auto simp: wire_of_def)

lemma wire_len_of_labels: "wire_len (of_labels ls) = length (wire_of ls)"
  by (cases ls) (auto simp: wire_len_def of_labels_def length_wire_of)

lemma wire_of_Nil: "wire_of [] = [0]"
  by (simp add: wire_of_def)

lemma wire_of_Cons: "wire_of (l # ls) = of_nat (length l) # l @ wire_of ls"
  by (simp add: wire_of_def)

subsection \<open>Decoding\<close>

lemma read_name_loop_zero:
  "rest r = 0 # ys \<Longrightarrow>
   read_name_loop msg d r buf ends = Inr (\<lparr>dn_buf = buf, dn_ends = ends\<rparr>, adv 1 r)"
  by (subst read_name_loop.simps) (simp add: remaining_rest peek_u8_rest read_u8_rest)

lemma read_name_loop_label:
  assumes "rest r = of_nat (length l) # l @ ys" "l \<noteq> []" "length l \<le> 63"
    "length buf + length l \<le> 255"
  shows "read_name_loop msg d r buf ends =
    read_name_loop msg d (adv (1 + length l) r) (buf @ l) (ends @ [of_nat (length buf + length l)])"
proof -
  have u: "unat (of_nat (length l) :: u8) = length l"
    using assms(3) by (intro unat_of_nat_u8) simp
  then have "\<not> 0xC0 \<le> (of_nat (length l) :: u8)" "(of_nat (length l) :: u8) \<le> 0x3F"
    "(of_nat (length l) :: u8) \<noteq> 0"
    using assms(2,3) by (auto simp: word_le_nat_alt simp flip: unat_eq_zero)
  moreover have "read_bytes (length l) (adv 1 r) = Inr (l, adv (1 + length l) r)"
    using read_bytes_rest [of "adv 1 r" l ys "length l"] assms(1) by (simp add: rest_adv)
  ultimately show ?thesis
    using assms u
    by (subst read_name_loop.simps)
      (simp add: remaining_rest peek_u8_rest read_u8_rest push_end_def)
qed

lemma read_name_loop_labels:
  assumes "labels_ok ls" "length buf + length (concat ls) \<le> 255"
    "rest r = concat (map (\<lambda>l. of_nat (length l) # l) ls) @ ys"
  shows "read_name_loop msg d r buf ends =
    read_name_loop msg d (adv (length (concat ls) + length ls) r) (buf @ concat ls)
      (ends @ map of_nat (cum (length buf) ls))"
  using assms
proof (induction ls arbitrary: r buf ends)
  case Nil
  then show ?case by simp
next
  case (Cons l ls)
  let ?r = "adv (1 + length l) r"
  have "read_name_loop msg d r buf ends =
    read_name_loop msg d ?r (buf @ l) (ends @ [of_nat (length buf + length l)])"
    using Cons.prems by (intro read_name_loop_label) (auto simp: labels_ok_Cons)
  moreover have "rest ?r = concat (map (\<lambda>l. of_nat (length l) # l) ls) @ ys"
    using Cons.prems(3) by (simp add: rest_adv)
  ultimately show ?case
    using Cons.IH [of "buf @ l" ?r] Cons.prems by (simp add: labels_ok_Cons add_ac)
qed

lemma read_name_loop_wire:
  assumes "labels_ok (acc @ ls)" "rest r = wire_of ls @ ys"
  shows "read_name_loop msg d r (concat acc) (map of_nat (cum 0 acc)) =
    Inr (of_labels (acc @ ls), adv (length (wire_of ls)) r)"
proof -
  from assms(1) have ok: "labels_ok ls" and len: "length (concat acc) + length (concat ls) \<le> 255"
    using labels_ok_append by (auto simp: labels_ok_def)
  let ?r = "adv (length (concat ls) + length ls) r"
  have rest: "rest r = concat (map (\<lambda>l. of_nat (length l) # l) ls) @ 0 # ys"
    using assms(2) by (simp add: wire_of_def)
  have "length (concat (map (\<lambda>l. of_nat (length l) # l) ls)) = length (concat ls) + length ls"
    by (induction ls) auto
  then have "rest ?r = 0 # ys"
    using rest by (simp add: rest_adv)
  with read_name_loop_labels [OF ok len rest] read_name_loop_zero show ?thesis
    by (simp add: of_labels_def cum_append length_wire_of)
qed

text \<open>Decoding what the uncompressed encoder wrote gives the name back.\<close>

lemma read_name_wire:
  assumes "labels_ok ls" "rest r = wire_of ls @ ys"
  shows "read_name r msg = Inr (of_labels ls, adv (length (wire_of ls)) r)"
  using read_name_loop_wire [of "[]" ls r ys msg 0] assms
  by (simp add: read_name_def read_name_with_depth_def)

lemma read_name_roundtrip:
  assumes "name_ok n" "rest r = name_to_wire n @ ys"
  shows "read_name r msg = Inr (n, adv (length (name_to_wire n)) r)"
  using assms(1)
proof (rule name_okE)
  fix ls assume "labels_ok ls" "n = of_labels ls" "name_labels n = ls"
  with assms read_name_wire [of ls r ys msg] show ?thesis
    by (simp add: name_to_wire_eq)
qed

subsection \<open>Every decoded name is well-formed\<close>

lemma append_ends_cum:
  assumes "n + length (concat ls) \<le> 255"
  shows "append_ends n (map of_nat (cum 0 ls)) ends = Inr (ends @ map of_nat (cum n ls))"
proof -
  have "append_ends n (map of_nat (cum k ls)) ends = Inr (ends @ map of_nat (cum (n + k) ls))"
    if "n + k + length (concat ls) \<le> 255" for k
    using that
  proof (induction ls arbitrary: k ends)
    case (Cons l ls)
    then have "unat (of_nat (k + length l) :: u8) = k + length l"
      by (intro unat_of_nat_u8) simp
    with Cons.IH [of "k + length l"] Cons.prems show ?case
      by (simp add: push_end_def add_ac)
  qed simp
  from this [of 0] assms show ?thesis by simp
qed

lemma append_ends_bound:
  assumes "append_ends n (map of_nat (cum k ls)) ends = Inr es"
    "k + length (concat ls) \<le> 255" "n + k \<le> 255" "list_all (\<lambda>l. l \<noteq> []) ls"
  shows "n + k + length (concat ls) \<le> 255"
  using assms
proof (induction ls arbitrary: k ends)
  case (Cons l ls)
  then have "unat (of_nat (k + length l) :: u8) = k + length l"
    by (intro unat_of_nat_u8) simp
  with Cons.prems have "n + k + length l \<le> 255"
    "append_ends n (map of_nat (cum (k + length l) ls)) (ends @ [of_nat (n + k + length l)]) = Inr es"
    by (auto simp: push_end_def result_simps add_ac split: if_splits)
  with Cons.IH [of "k + length l"] Cons.prems show ?case
    by (simp add: add_ac)
qed simp

lemma read_u8_D: "read_u8 r = Inr (b, r') \<Longrightarrow> (\<exists>ys. rest r = b # ys) \<and> r' = adv 1 r"
  using rest_Cons_conv [of r] by (auto simp: read_u8_def adv_def split: if_splits)

lemma peek_u8_D: "peek_u8 r = Inr b \<Longrightarrow> \<exists>ys. rest r = b # ys"
  using rest_Cons_conv [of r] by (auto simp: peek_u8_def split: if_splits)

lemma read_bytes_D:
  assumes "read_bytes n r = Inr (xs, r')"
  shows "(\<exists>ys. rest r = xs @ ys) \<and> length xs = n \<and> r' = adv n r"
proof -
  from assms have "xs = take n (rest r)" "r' = adv n r"
    by (auto simp: read_bytes_def sub_slice_def rest_def adv_def split: if_splits)
  with read_bytes_length [OF assms] show ?thesis
    by (metis append_take_drop_id)
qed

lemma read_name_success_induct [consumes 1, case_names zero label pointer]:
  assumes "read_name_loop msg d r buf ends = Inr (n, r')"
    and zero: "\<And>d r buf ends ys. rest r = 0 # ys \<Longrightarrow>
      P d r buf ends \<lparr>dn_buf = buf, dn_ends = ends\<rparr> (adv 1 r)"
    and label: "\<And>d r buf ends l ys n r'. rest r = of_nat (length l) # l @ ys \<Longrightarrow>
      l \<noteq> [] \<Longrightarrow> length l \<le> 63 \<Longrightarrow> length buf + length l \<le> 255 \<Longrightarrow>
      P d (adv (1 + length l) r) (buf @ l) (ends @ [of_nat (length buf + length l)]) n r' \<Longrightarrow>
      P d r buf ends n r'"
    and pointer: "\<And>d r buf ends b1 b2 ys suffix rs es. rest r = b1 # b2 # ys \<Longrightarrow>
      0xC0 \<le> b1 \<Longrightarrow> pointer_offset b1 b2 < length msg \<Longrightarrow> d < 63 \<Longrightarrow>
      P (d + 1) ((reader_new msg)\<lparr>rpos := pointer_offset b1 b2\<rparr>) [] [] suffix rs \<Longrightarrow>
      append_ends (length buf) (dn_ends suffix) ends = Inr es \<Longrightarrow>
      P d r buf ends \<lparr>dn_buf = buf @ dn_buf suffix, dn_ends = es\<rparr> (adv 2 r)"
  shows "P d r buf ends n r'"
  using assms(1)
proof (induction msg\<equiv>msg d r buf ends arbitrary: n r' rule: read_name_loop.induct)
  case (1 d r buf ends)
  from "1.prems" obtain b where rem: "remaining r \<noteq> 0" and pk: "peek_u8 r = Inr b"
    by (subst (asm) read_name_loop.simps) (auto simp: result_simps split: if_splits)
  from peek_u8_D [OF pk] obtain ys where rest: "rest r = b # ys" by blast
  note rd = read_u8_rest [OF rest]
  consider "0xC0 \<le> b" | "b = 0" | "\<not> 0xC0 \<le> b" "b \<noteq> 0" "b \<le> 0x3F"
    using "1.prems" rem pk
    by (subst (asm) read_name_loop.simps) (auto split: if_splits)
  then show ?case
  proof cases
    case 1
    from "1.prems" rem pk \<open>0xC0 \<le> b\<close> rd obtain b2 r2 suffix rs es where
      r2: "read_u8 (adv 1 r) = Inr (b2, r2)"
      and off: "pointer_offset b b2 < length msg" and d: "\<not> MAX_LABEL_LENGTH < d + 1"
      and rec: "read_name_loop msg (d + 1) ((reader_new msg)\<lparr>rpos := pointer_offset b b2\<rparr>) [] []
        = Inr (suffix, rs)"
      and es: "append_ends (length buf) (dn_ends suffix) ends = Inr es"
      and n: "n = \<lparr>dn_buf = buf @ dn_buf suffix, dn_ends = es\<rparr>" "r' = r2"
      by (subst (asm) read_name_loop.simps)
        (auto simp: result_simps Let_def set_pos_def reader_new_def split: if_splits)
    have "set_pos (reader_new msg) (pointer_offset b b2) =
      Inr ((reader_new msg)\<lparr>rpos := pointer_offset b b2\<rparr>)"
      using off by (simp add: set_pos_def reader_new_def)
    from "1.hyps"(1) [OF rem pk \<open>0xC0 \<le> b\<close> rd refl r2 refl refl _ this _ rec] off d
    have IH: "P (d + 1) ((reader_new msg)\<lparr>rpos := pointer_offset b b2\<rparr>) [] [] suffix rs"
      by simp
    from read_u8_D [OF r2] rest obtain zs where "rest r = b # b2 # zs" and r2': "r2 = adv 2 r"
      by (auto simp: rest_adv numeral_2_eq_2)
    from pointer [OF this(1) \<open>0xC0 \<le> b\<close> off _ IH es] d n r2' show ?thesis
      by (simp add: MAX_LABEL_LENGTH_def)
  next
    case 2
    with "1.prems" rest zero [of r ys d buf ends] show ?thesis
      by (simp add: read_name_loop_zero)
  next
    case 3
    from "1.prems" rem pk 3 rd obtain l r1 where
      rb: "read_bytes (unat b) (adv 1 r) = Inr (l, r1)"
      and le: "length (buf @ l) \<le> 255"
      and rec: "read_name_loop msg d r1 (buf @ l) (ends @ [of_nat (length (buf @ l))]) = Inr (n, r')"
      by (subst (asm) read_name_loop.simps)
        (auto simp: result_simps push_end_def split: if_splits)
    from read_bytes_D [OF rb] rest obtain zs where
      zs: "ys = l @ zs" "length l = unat b" "r1 = adv (1 + length l) r"
      by (auto simp: rest_adv)
    have l: "l \<noteq> []" "length l \<le> 63" "b = of_nat (length l)"
      using 3 zs(2) by (auto simp: word_le_nat_alt unat_eq_zero)
    have "push_end (length (buf @ l)) ends = Inr (ends @ [of_nat (length (buf @ l))])"
      using le by (simp add: push_end_def)
    from "1.hyps"(2) [OF rem pk 3 rd refl rb refl this rec] zs le
    have "P d (adv (1 + length l) r) (buf @ l) (ends @ [of_nat (length buf + length l)]) n r'"
      by simp
    from label [OF _ l(1,2) _ this] le l(3) rest zs(1) show ?thesis
      by simp
  qed
qed

lemma read_name_loop_moves:
  assumes "read_name_loop msg d r buf ends = Inr (n, r')"
  shows "moves_forward r r' \<and> rpos r < rpos r'"
  using assms
proof (induction rule: read_name_success_induct)
  case (zero d r buf ends ys)
  then show ?case
    using reader_ok_adv [of r 1] by (auto simp: moves_forward_def adv_def)
next
  case (label d r buf ends l ys n r')
  then show ?case
    using reader_ok_adv [of r "1 + length l"] by (auto simp: moves_forward_def adv_def)
next
  case (pointer d r buf ends b1 b2 ys suffix rs es)
  then show ?case
    using reader_ok_adv [of r 2] by (auto simp: moves_forward_def adv_def)
qed

lemma read_name_loop_ok:
  assumes "read_name_loop msg d r buf ends = Inr (n, r')"
    and "labels_ok acc" "buf = concat acc" "ends = map of_nat (cum 0 acc)"
  shows "\<exists>ls. labels_ok (acc @ ls) \<and> n = of_labels (acc @ ls)"
  using assms
proof (induction arbitrary: acc rule: read_name_success_induct)
  case (zero d r buf ends ys)
  then show ?case
    by (intro exI [of _ "[]"]) (simp add: of_labels_def)
next
  case (label d r buf ends l ys n r')
  then have "labels_ok (acc @ [l])"
    by (auto simp: labels_ok_def MAX_LABEL_LENGTH_def)
  with label.IH [of "acc @ [l]"] label.prems show ?case
    by (auto simp: cum_append)
next
  case (pointer d r buf ends b1 b2 ys suffix rs es)
  from pointer.IH [of "[]"] obtain ls where ls: "labels_ok ls" "suffix = of_labels ls"
    by auto
  have b: "length (concat acc) + length (concat ls) \<le> 255"
    using append_ends_bound [of "length buf" 0 ls ends es] pointer.hyps ls pointer.prems
    by (simp add: of_labels_def labels_ok_def list_all_iff)
  then have "es = ends @ map of_nat (cum (length buf) ls)"
    using append_ends_cum [of "length buf" ls ends] pointer.hyps ls pointer.prems
    by (simp add: of_labels_def)
  with b ls pointer.prems show ?case
    by (intro exI [of _ ls]) (auto simp: of_labels_def labels_ok_def cum_append)
qed

lemma read_name_ok:
  assumes "read_name r msg = Inr (n, r')"
  shows "name_ok n"
proof -
  from assms have "read_name_loop msg 0 r [] [] = Inr (n, r')"
    by (simp add: read_name_def read_name_with_depth_def)
  from read_name_loop_ok [OF this, of "[]"] show ?thesis
    by auto
qed

lemma read_name_moves:
  assumes "read_name r msg = Inr (n, r')"
  shows "moves_forward r r' \<and> rpos r < rpos r'"
  using assms by (simp add: read_name_def read_name_with_depth_def read_name_loop_moves)

interpretation name_codec: wire_codec "\<lambda>r. read_name r msg" name_to_wire name_ok for msg
  by unfold_locales (simp_all add: read_name_moves read_name_roundtrip)

subsection \<open>Compression pointers\<close>

lemma read_name_loop_pointer:
  assumes "rest r = b1 # b2 # ys" "0xC0 \<le> b1" "pointer_offset b1 b2 < length msg" "d < 63"
    and "read_name_loop msg (d + 1) ((reader_new msg)\<lparr>rpos := pointer_offset b1 b2\<rparr>) [] [] = Inr (of_labels ls, rs)"
    and "length (concat acc) + length (concat ls) \<le> 255"
  shows "read_name_loop msg d r (concat acc) (map of_nat (cum 0 acc)) = Inr (of_labels (acc @ ls), adv 2 r)"
proof -
  have "read_u8 (adv 1 r) = Inr (b2, adv 2 r)"
    using assms(1) read_u8_rest [of "adv 1 r" b2 ys] by (simp add: rest_adv numeral_2_eq_2)
  moreover have "set_pos (reader_new msg) (pointer_offset b1 b2) =
      Inr ((reader_new msg)\<lparr>rpos := pointer_offset b1 b2\<rparr>)"
    using assms(3) by (simp add: set_pos_def reader_new_def)
  moreover have "append_ends (length (concat acc)) (dn_ends (of_labels ls)) (map of_nat (cum 0 acc)) =
      Inr (map of_nat (cum 0 (acc @ ls)))"
    using append_ends_cum [OF assms(6)] by (simp add: of_labels_def cum_append)
  ultimately show ?thesis
    using assms
    by (subst read_name_loop.simps)
      (simp add: remaining_rest peek_u8_rest read_u8_rest MAX_LABEL_LENGTH_def of_labels_def)
qed

text \<open>A pointer that leads back to itself is followed to the depth limit and then rejected.\<close>

lemma read_name_loop_self_pointer:
  assumes "drop off msg = b1 # b2 # ys" "0xC0 \<le> b1" "pointer_offset b1 b2 = off" "d \<le> 63"
    and "rest r = b1 # b2 # zs"
  shows "read_name_loop msg d r buf ends = Inl (PointerLoop off 64)"
  using assms(4,5)
proof (induction "63 - d" arbitrary: d r zs buf ends)
  have off: "off < length msg"
    using assms(1) by (metis drop_all list.distinct(1) not_le)
  let ?p = "(reader_new msg)\<lparr>rpos := off\<rparr>"
  have sp: "set_pos (reader_new msg) off = Inr ?p"
    using off by (simp add: set_pos_def reader_new_def)
  have unfold: "read_name_loop msg d r buf ends =
      rbind (if d + 1 > 63 then Inl (PointerLoop off (d + 1)) else read_name_loop msg (d + 1) ?p [] [])
        (\<lambda>(suffix, _). rbind (append_ends (length buf) (dn_ends suffix) ends)
          (\<lambda>ends. Inr (\<lparr>dn_buf = buf @ dn_buf suffix, dn_ends = ends\<rparr>, adv 2 r)))"
    if "rest r = b1 # b2 # zs" for d r zs buf ends
  proof -
    have "read_u8 (adv 1 r) = Inr (b2, adv 2 r)"
      using that read_u8_rest [of "adv 1 r" b2 zs] by (simp add: rest_adv numeral_2_eq_2)
    with that assms(2,3) off sp show ?thesis
      by (subst read_name_loop.simps)
        (simp add: remaining_rest peek_u8_rest read_u8_rest MAX_LABEL_LENGTH_def reader_new_def)
  qed
  {
    case 0
    then have "d = 63" by simp
    with unfold [OF 0(3)] show ?case by simp
  next
    case (Suc k)
    have "rest ?p = b1 # b2 # ys"
      using assms(1) by (simp add: rest_def reader_new_def)
    then have "read_name_loop msg (d + 1) ?p [] [] = Inl (PointerLoop off 64)"
      using Suc by (intro Suc.hyps) auto
    with unfold [OF Suc(4)] Suc show ?case by simp
  }
qed

lemma pointer_offset_eq: "pointer_offset b1 b2 = 256 * (unat b1 mod 64) + unat b2"
  using push_bit_or_eq [of "unat b2" 8 "unat b1 mod 64"] by (simp add: pointer_offset_def)

lemma pointer_offset_bound: "pointer_offset b1 b2 < 16384"
proof -
  have "unat b1 mod 64 < 64" "unat b2 < 256" by simp_all
  then show ?thesis unfolding pointer_offset_eq by linarith
qed

lemma unat_marker_or: "k < 64 \<Longrightarrow> unat (0xC0 OR of_nat k :: u8) = 192 + k"
  using push_bit_or_eq [of k 6 3] by (simp add: unsigned_or_eq unat_of_nat_u8)

lemma pointer_bytes:
  assumes "off < 16384"
  defines "hi \<equiv> 0xC0 OR ucast (drop_bit 8 (of_nat off :: u16) AND 0x3F) :: u8"
    and "lo \<equiv> ucast ((of_nat off :: u16) AND 0xFF) :: u8"
  shows "pointer_offset hi lo = off \<and> 0xC0 \<le> hi"
proof -
  have lo: "unat lo = off mod 256"
    using assms(1) by (simp add: lo_def unsigned_ucast_eq take_bit_eq_mod unat_of_nat_u16)
  have "unat (ucast (drop_bit 8 (of_nat off :: u16) AND 0x3F) :: u8) = off div 256"
    using assms(1)
    by (simp add: unsigned_ucast_eq take_bit_eq_mod drop_bit_eq_div unat_div unat_of_nat_u16)
  then have "ucast (drop_bit 8 (of_nat off :: u16) AND 0x3F) = (of_nat (off div 256) :: u8)"
    by (metis of_nat_unat ucast_id)
  then have hi: "unat hi = 192 + off div 256"
    using assms(1) by (simp add: hi_def unat_marker_or)
  have "(64 * 3 + k) mod 64 = k" if "k < 64" for k :: nat
    unfolding mod_mult_self4 using that by simp
  from this [of "off div 256"] hi assms(1) have "unat hi mod 64 = off div 256"
    by simp
  with lo hi show ?thesis
    by (simp add: pointer_offset_eq word_le_nat_alt)
qed

lemma label_name_labels: "j < label_count n \<Longrightarrow> label n j = Some (name_labels n ! j)"
  by (simp add: label_def name_labels_def label_count_def)

lemma label_of_labels:
  "length (concat ls) \<le> 255 \<Longrightarrow> j < length ls \<Longrightarrow> label (of_labels ls) j = Some (ls ! j)"
  using label_name_labels [of j "of_labels ls"] by simp

lemma labels_before_of_labels:
  "length (concat ls) \<le> 255 \<Longrightarrow> i \<le> length ls \<Longrightarrow>
   map (\<lambda>j. case label (of_labels ls) j of Some l \<Rightarrow> l | None \<Rightarrow> []) [0..<i] = take i ls"
  by (rule nth_equalityI) (auto simp: label_of_labels)

lemma wbuf_write_label_list [wire_simps]:
  "wbuf (write_label_list ls w) = wbuf w @ concat (map (\<lambda>l. of_nat (length l) # l) ls)"
  by (induction ls arbitrary: w) (auto simp: wire_simps)

lemma find_suffix_Some:
  "find_suffix n m ks = Some (i, off) \<Longrightarrow> i \<in> set ks \<and> m (suffix_hash_from n i) = Some off"
  by (induction ks) (auto split: option.splits)

text \<open>What the compression map promises for one name: every hit points, within reach of a
  14-bit pointer, at an uncompressed copy of the suffix.\<close>

definition map_ok_for :: "u8 list \<Rightarrow> (u64 \<rightharpoonup> nat) \<Rightarrow> domain_name \<Rightarrow> bool" where
  "map_ok_for written m n \<longleftrightarrow>
     list_all (\<lambda>i. case m (suffix_hash_from n i) of
         None \<Rightarrow> True
       | Some off \<Rightarrow> off < 0x4000 \<and> prefix (wire_of (drop i (name_labels n))) (drop off written))
       [0..<label_count n]"

lemma map_ok_forD:
  "map_ok_for written m n \<Longrightarrow> i < label_count n \<Longrightarrow> m (suffix_hash_from n i) = Some off \<Longrightarrow>
   off < 0x4000 \<and> prefix (wire_of (drop i (name_labels n))) (drop off written)"
  by (auto simp: map_ok_for_def list_all_iff split: option.splits)

lemma read_name_labels_pointer:
  assumes ok: "labels_ok ls" and i: "i \<le> length ls" and off: "off < 16384" 
    and msg: "prefix (wire_of (drop i ls)) (drop off msg)"
    and rest: "rest r = concat (map (\<lambda>l. of_nat (length l) # l) (take i ls)) @ hi # lo # post"
    and hilo: "pointer_offset hi lo = off \<and> 0xC0 \<le> hi"
  shows "read_name r msg = Inr (of_labels ls, adv (length (concat (take i ls)) + i + 2) r)"
proof -
  let ?p = "(reader_new msg)\<lparr>rpos := off\<rparr>"
  let ?r = "adv (length (concat (take i ls)) + length (take i ls)) r"
  from ok have oks: "labels_ok (take i ls)" "labels_ok (drop i ls)"
    by (metis append_take_drop_id labels_ok_append)+
  from msg obtain zs where zs: "drop off msg = wire_of (drop i ls) @ zs"
    by (auto simp: prefix_def)
  then have lt: "off < length msg"
    by (metis append_is_Nil_conv drop_all length_wire_of list.size(3) not_le add_is_0 one_neq_zero)
  have "rest ?p = wire_of (drop i ls) @ zs"
    using zs by (simp add: rest_def reader_new_def)
  from read_name_loop_wire [of "[]" _ ?p _ msg 1] oks(2) this
  have rec: "read_name_loop msg (0 + 1) ?p [] [] =
      Inr (of_labels (drop i ls), adv (length (wire_of (drop i ls))) ?p)" by simp
  have len: "length (concat (take i ls)) + length (concat (drop i ls)) \<le> 255"
    using ok by (metis append_take_drop_id concat_append labels_ok_def length_append)
  have "length (concat (map (\<lambda>l. of_nat (length l) # l) (take i ls))) =
      length (concat (take i ls)) + length (take i ls)"
    for i by (induction ls arbitrary: i) (auto simp: take_Cons split: nat.splits)
  then have rest': "rest ?r = hi # lo # post"
    using rest by (simp add: rest_adv del: length_take)
  have "read_name_loop msg 0 r [] [] =
      read_name_loop msg 0 ?r (concat (take i ls)) (map of_nat (cum 0 (take i ls)))"
    using read_name_loop_labels [OF oks(1) _ rest, of "[]" msg 0 "[]"] len by simp
  also have "\<dots> = Inr (of_labels (take i ls @ drop i ls), adv 2 ?r)"
    by (rule read_name_loop_pointer [OF rest']) (use hilo lt rec len in auto)
  finally show ?thesis
    using i by (simp add: read_name_def read_name_with_depth_def min_absorb2)
qed

lemma compressed_roundtrip:
  assumes "name_ok n" "map_ok_for (wbuf w) m n"
    and "write_name_compressed n w m = (w', m', len)"
  shows "read_name ((reader_new (wbuf w' @ post))\<lparr>rpos := length (wbuf w)\<rparr>) (wbuf w' @ post) =
    Inr (n, (reader_new (wbuf w' @ post))\<lparr>rpos := length (wbuf w')\<rparr>) \<and>
    len = length (wbuf w') - length (wbuf w) \<and> prefix (wbuf w) (wbuf w')"
  using assms(1)
proof (rule name_okE)
  fix ls assume ls: "labels_ok ls" "n = of_labels ls" "name_labels n = ls"
  let ?r = "(reader_new (wbuf w' @ post))\<lparr>rpos := length (wbuf w)\<rparr>"
  show ?thesis
  proof (cases "find_suffix n m [0..<label_count n]")
    case None
    then have w': "wbuf w' = wbuf w @ wire_of ls" "len = length (wbuf w') - length (wbuf w)"
      using assms(1,3) ls by (auto simp: write_name_compressed_def Let_def wire_simps writer_pos_def)
    then have "rest ?r = wire_of ls @ post" by (simp add: rest_def reader_new_def)
    from read_name_wire [OF ls(1) this] w' ls show ?thesis
      by (simp add: adv_def reader_new_def)
  next
    case (Some io)
    obtain i off where io: "io = (i, off)" by (cases io)
    define pv :: u16 where "pv = of_nat off"
    let ?hi = "0xC0 OR ucast (drop_bit 8 pv AND 0x3F) :: u8"
    let ?lo = "ucast (pv AND 0xFF) :: u8"
    let ?pre = "concat (map (\<lambda>l. of_nat (length l) # l) (take i ls)) :: u8 list"
    from find_suffix_Some [OF Some [unfolded io]] ls(2)
    have i: "i < length ls" and hit: "m (suffix_hash_from n i) = Some off" by auto
    from map_ok_forD [OF assms(2) _ hit] i ls(2,3) have off: "off < 16384"
      and pfx: "prefix (wire_of (drop i ls)) (drop off (wbuf w))"
      by auto
    have w': "wbuf w' = wbuf w @ ?pre @ [?hi, ?lo]" "len = length (wbuf w') - length (wbuf w)"
      using assms(3) Some io ls(1,2) i
      by (auto simp: write_name_compressed_def Let_def writer_pos_def pv_def
          labels_before_of_labels labels_ok_def) (simp_all add: wire_simps)
    have l: "length ?pre = length (concat (take i ls)) + i"
      using i by (induction ls arbitrary: i) (auto simp: take_Cons split: nat.splits)
    have rest: "rest ?r = ?pre @ ?hi # ?lo # post"
      using w' by (simp add: rest_def reader_new_def)
    have le: "off \<le> length (wbuf w)"
      using pfx by (metis drop_all length_wire_of linorder_le_cases list.size(3) prefix_length_le
        add_is_0 le_zero_eq one_neq_zero)
    have "prefix (wire_of (drop i ls)) (drop off (wbuf w' @ post))"
      using pfx w'(1) le by (simp add: prefix_prefix)
    from read_name_labels_pointer [OF ls(1) _ off this rest] i pointer_bytes [OF off] w' l ls
    show ?thesis
      by (simp add: adv_def reader_new_def pv_def)
  qed
qed

subsection \<open>The compression map across names\<close>

definition labels_hash :: "u8 list list \<Rightarrow> u64" where
  "labels_hash ls =
     fnv_step (foldl (\<lambda>h l. foldl fnv_step (fnv_step h (of_nat (length l))) l) 0xcbf29ce484222325 ls) 0"

lemma suffix_hash_loop_cum:
  "length pre + length (concat ls) \<le> 255 \<Longrightarrow>
   suffix_hash_loop (length pre) (map of_nat (cum (length pre) ls)) (pre @ concat ls) h =
   foldl (\<lambda>h l. foldl fnv_step (fnv_step h (of_nat (length l))) l) h ls"
proof (induction ls arbitrary: pre h)
  case Nil
  then show ?case by simp
next
  case (Cons l ls)
  from Cons.prems have u: "unat (of_nat (length pre + length l) :: u8) = length pre + length l"
    by (intro unat_of_nat_u8) simp
  from Cons.IH [of "pre @ l"] Cons.prems u show ?case
    by (simp add: sub_slice_def)
qed

lemma cum_nth_last: "i < length ls \<Longrightarrow> cum n ls ! i = n + length (concat (take (Suc i) ls))"
  by (induction ls arbitrary: n i) (auto simp: nth_Cons split: nat.splits)

lemma drop_cum: "drop i (cum n ls) = cum (n + length (concat (take i ls))) (drop i ls)"
  by (induction ls arbitrary: n i) (auto simp: drop_Cons take_Cons add.assoc split: nat.splits)

lemma length_concat_take: "length (concat (take i ls)) \<le> length (concat ls)"
  by (metis append_take_drop_id concat_append le_add1 length_append)

lemma unat_end_of_labels:
  assumes "length (concat ls) \<le> 255" "i < length ls"
  shows "unat (dn_ends (of_labels ls) ! i) = length (concat (take (Suc i) ls))"
proof -
  have "unat (of_nat (length (concat (take (Suc i) ls))) :: u8) = length (concat (take (Suc i) ls))"
    using assms(1) length_concat_take [of "Suc i" ls] by (intro unat_of_nat_u8) simp
  with assms(2) show ?thesis by (simp add: of_labels_def cum_nth_last)
qed

lemma label_start_of_labels:
  assumes "length (concat ls) \<le> 255" "i \<le> length ls"
  shows "label_start (of_labels ls) i = length (concat (take i ls))"
proof (cases i)
  case (Suc j)
  with assms show ?thesis
    using unat_end_of_labels [of ls j] by (simp add: label_start_def)
qed (simp add: label_start_def)

lemma suffix_hash_of_labels:
  assumes "length (concat ls) \<le> 255" "i \<le> length ls"
  shows "suffix_hash_from (of_labels ls) i = labels_hash (drop i ls)"
proof -
  have c: "concat ls = concat (take i ls) @ concat (drop i ls)"
    by (metis append_take_drop_id concat_append)
  then have "length (concat (take i ls)) + length (concat (drop i ls)) \<le> 255"
    using assms(1) by (metis length_append)
  from suffix_hash_loop_cum [OF this, folded c] show ?thesis
    unfolding suffix_hash_from_def label_start_of_labels [OF assms]
    by (simp add: labels_hash_def of_labels_def drop_map drop_cum)
qed

lemma label_len_of_labels:
  assumes "length (concat ls) \<le> 255" "i < length ls"
  shows "label_len (of_labels ls) i = length (ls ! i)"
  using assms
  by (simp add: label_len_def label_start_of_labels unat_end_of_labels take_Suc_conv_app_nth)

definition map_sound :: "u8 list \<Rightarrow> (u64 \<rightharpoonup> nat) \<Rightarrow> bool" where
  "map_sound written m \<longleftrightarrow>
     (\<forall>h off. m h = Some off \<longrightarrow>
        (\<exists>ls. labels_ok ls \<and> h = labels_hash ls \<and> prefix (wire_of ls) (drop off written)))"

lemma map_sound_empty: "map_sound written Map.empty"
  by (simp add: map_sound_def)

lemma prefix_wire_of_bound: "prefix (wire_of ls) (drop off xs) \<Longrightarrow> off \<le> length xs"
  by (metis drop_all length_wire_of linorder_le_cases list.size(3) prefix_length_le
      add_is_0 le_zero_eq one_neq_zero)

lemma prefix_wire_of_extend:
  assumes "prefix (wire_of ls) (drop off xs)" "prefix xs ys"
  shows "prefix (wire_of ls) (drop off ys)"
  using assms prefix_wire_of_bound [OF assms(1)] by (auto simp: prefix_def)

lemma map_sound_extend:
  "map_sound written m \<Longrightarrow> prefix written written' \<Longrightarrow> map_sound written' m"
  unfolding map_sound_def by (meson prefix_wire_of_extend)

lemma wire_of_suffix:
  "i \<le> length ls \<Longrightarrow> drop (length (concat (take i ls)) + i) (wire_of ls) = wire_of (drop i ls)"
  by (induction ls arbitrary: i) (auto simp: wire_of_Cons take_Cons drop_Cons split: nat.splits)

lemma register_suffixes_sound:
  assumes "labels_ok ls" "k + j \<le> length ls" "prefix (w @ wire_of ls) written" "map_sound written m"
  shows "map_sound written (register_suffixes (of_labels ls) [j..<j + k]
      (length w + length (concat (take j ls)) + j) m)"
  using assms(2,4)
proof (induction k arbitrary: j m)
  case 0
  then show ?case by simp
next
  case (Suc k)
  have j: "j < length ls" and c: "length (concat ls) \<le> 255"
    using Suc.prems assms(1) by (auto simp: labels_ok_def)
  let ?off = "length w + length (concat (take j ls)) + j"
  have "prefix (wire_of (drop j ls)) (drop ?off written)"
    using assms(3) wire_of_suffix [of j ls] j by (auto simp: prefix_def add.assoc)
  then have "map_sound written (m(suffix_hash_from (of_labels ls) j \<mapsto> ?off))"
    using Suc.prems(2) assms(1) j c
    by (auto simp: map_sound_def suffix_hash_of_labels intro: labels_ok_drop)
  from Suc.IH [of "Suc j", OF _ this] Suc.prems j c
  have "map_sound written (register_suffixes (of_labels ls) (j # [Suc j..<Suc j + k]) ?off m)"
    by (simp add: label_len_of_labels take_Suc_conv_app_nth add_ac fun_upd_def del: upt_Suc)
  then show ?case
    by (simp add: upt_conv_Cons del: upt_Suc)
qed

lemma write_name_compressed_sound:
  assumes "name_ok n" "map_sound (wbuf w) m" "write_name_compressed n w m = (w', m', len)"
  shows "map_sound (wbuf w') m'"
  using assms(1)
proof (rule name_okE)
  fix ls assume ls: "labels_ok ls" "n = of_labels ls" "name_labels n = ls"
  show ?thesis
  proof (cases "find_suffix n m [0..<label_count n]")
    case None
    then have w': "wbuf w' = wbuf w @ wire_of ls"
      and m': "m' = register_suffixes n [0..<label_count n] (length (wbuf w)) m"
      using assms(1,3) ls by (auto simp: write_name_compressed_def Let_def wire_simps writer_pos_def)
    have "map_sound (wbuf w') m"
      using map_sound_extend [OF assms(2)] w' by simp
    from register_suffixes_sound [OF ls(1) _ _ this, of "length ls" 0 "wbuf w"] ls(2) w' m'
    show ?thesis by simp
  next
    case (Some io)
    then have "m' = m" "prefix (wbuf w) (wbuf w')"
      using assms(3)
      by (auto simp: write_name_compressed_def Let_def wire_simps split: prod.splits)
    with map_sound_extend [OF assms(2)] show ?thesis by blast
  qed
qed

text \<open>Without hash collisions and below offset 0x4000, a sound map serves every name.\<close>

lemma map_sound_ok_for:
  assumes "map_sound written m" "name_ok n" "\<forall>h off. m h = Some off \<longrightarrow> off < 0x4000"
    and "\<forall>ls. labels_ok ls \<longrightarrow> (\<forall>i < label_count n.
      labels_hash ls = labels_hash (drop i (name_labels n)) \<longrightarrow> ls = drop i (name_labels n))"
  shows "map_ok_for written m n"
  using assms(2)
proof (rule name_okE)
  fix ls assume ls: "labels_ok ls" "n = of_labels ls" "name_labels n = ls"
  then have c: "length (concat ls) \<le> 255" by (simp add: labels_ok_def)
  have "off < 0x4000 \<and> prefix (wire_of (drop i (name_labels n))) (drop off written)"
    if i: "i < label_count n" and m: "m (suffix_hash_from n i) = Some off" for i off
  proof -
    from m assms(1) obtain ks where ks: "labels_ok ks" "suffix_hash_from n i = labels_hash ks"
      "prefix (wire_of ks) (drop off written)" by (auto simp: map_sound_def)
    with assms(4) i ls c have "ks = drop i (name_labels n)"
      by (simp add: suffix_hash_of_labels)
    with ks m assms(3) show ?thesis by auto
  qed
  then show ?thesis
    by (auto simp: map_ok_for_def list_all_iff split: option.splits)
qed

subsection \<open>Name arithmetic\<close>

lemma cum_eq_Nil [simp]: "cum n ls = [] \<longleftrightarrow> ls = []"
  by (cases ls) auto

lemma parent_of_labels:
  assumes "length (concat ls) \<le> 255"
  shows "parent (of_labels ls) = of_labels (tl ls)"
proof (cases ls)
  case (Cons l ls')
  have "unat (of_nat (length l) :: u8) = length l"
    using assms Cons by (intro unat_of_nat_u8) simp
  moreover have "map ((\<lambda>x. x - of_nat (length l)) \<circ> of_nat) (cum (length l) ls') =
      (map of_nat (cum 0 ls') :: u8 list)"
    using cum_shift [of "length l" 0 ls'] by simp
  ultimately show ?thesis
    using Cons by (simp add: parent_def of_labels_def)
qed (simp add: parent_def of_labels_def root_def)

lemma parent_name_ok: "name_ok n \<Longrightarrow> name_ok (parent n) \<and> name_labels (parent n) = tl (name_labels n)"
proof (erule name_okE)
  fix ls assume ls: "labels_ok ls" "n = of_labels ls" "name_labels n = ls"
  then have "labels_ok (tl ls)"
    using labels_ok_drop [of ls 1] by (simp add: drop_Suc)
  with ls show ?thesis
    by (simp add: parent_of_labels labels_ok_def)
qed

lemma is_suffix_of_labels:
  assumes "name_ok n" "name_ok k" "suffix (name_labels n) (name_labels k)"
  shows "is_suffix_of n k"
proof -
  from assms obtain ls ks where ls: "labels_ok ls" "n = of_labels ls" "name_labels n = ls"
    and ks: "labels_ok ks" "k = of_labels ks" "name_labels k = ks" by (meson name_okE)
  with assms(3) obtain zs where "ks = zs @ ls" by (auto simp: suffix_def)
  with ls ks show ?thesis
    by (auto simp: is_suffix_of_def of_labels_def)
qed

lemma suffix_iff_drop:
  "suffix xs ys \<longleftrightarrow> length xs \<le> length ys \<and> xs = drop (length ys - length xs) ys"
  by (metis suffix_length_le suffix_drop suffix_take append_eq_conv_conj length_take
      min_absorb2 diff_le_self)

lemma is_suffix_of_iff:
  assumes "name_ok n" "name_ok k"
  shows "is_suffix_of n k \<longleftrightarrow>
    label_count n \<le> label_count k \<and> suffix (concat (name_labels n)) (concat (name_labels k))"
proof -
  from assms obtain ls ks where "n = of_labels ls" "name_labels n = ls"
    and "k = of_labels ks" "name_labels k = ks" by (meson name_okE)
  then show ?thesis
    by (auto simp: is_suffix_of_def label_count_def of_labels_def suffix_iff_drop)
qed

lemma append_label_of_labels:
  assumes "labels_ok ls" "length ls < MAX_LABEL_COUNT" "l \<noteq> []" "length l \<le> 63"
    "length (concat ls) + length l \<le> 255"
  shows "append_label (of_labels ls) l = Inr (of_labels (ls @ [l]))"
  using assms by (simp add: append_label_def of_labels_def push_end_def cum_append MAX_LABEL_LENGTH_def)

lemma append_label_name_ok:
  assumes "name_ok n" "append_label n l = Inr n'" "l \<noteq> []"
  shows "name_ok n' \<and> name_labels n' = name_labels n @ [l] \<and> label_count n' \<le> MAX_LABEL_COUNT"
  using assms(1)
proof (rule name_okE)
  fix ls assume ls: "labels_ok ls" "n = of_labels ls" "name_labels n = ls"
  with assms(2,3) have "n' = of_labels (ls @ [l])" "labels_ok (ls @ [l])" "length (ls @ [l]) \<le> MAX_LABEL_COUNT"
    by (auto simp: append_label_def of_labels_def push_end_def result_simps cum_append labels_ok_def
        Let_def split: if_splits)
  with ls show ?thesis by (simp add: labels_ok_def)
qed

subsection \<open>Presentation format\<close>

lemma as_bytes_byte_char [simp]: "as_bytes (map byte_char l) = l"
  by (induction l) (auto simp: as_bytes_def byte_char_def)

text \<open>Bytes the \<^verbatim>\<open>Display\<close> implementation prints as they are.\<close>

definition plain_byte :: "u8 \<Rightarrow> bool" where
  "plain_byte b \<longleftrightarrow> is_ascii_graphic b \<and> b \<noteq> 0x2E \<and> b \<noteq> 0x5C"

lemma display_plain: "list_all plain_byte l \<Longrightarrow> concat (map display_byte l) = map byte_char l"
  by (induction l) (auto simp: display_byte_def plain_byte_def)

lemma byte_char_dot: "byte_char b = CHR ''.'' \<longleftrightarrow> b = 0x2E"
proof -
  have "of_char (byte_char b) = unat b"
    by (simp add: byte_char_def)
  moreover have "of_char CHR ''.'' = (46 :: nat)"
    by (simp add: of_char_def)
  ultimately have "byte_char b = CHR ''.'' \<longleftrightarrow> unat b = 46"
    by (metis of_char_eq_iff)
  also have "\<dots> \<longleftrightarrow> b = 0x2E"
    by (auto simp: word_unat_eq_iff)
  finally show ?thesis .
qed

lemma no_dot_plain: "list_all plain_byte l \<Longrightarrow> CHR ''.'' \<notin> set (map byte_char l)"
  by (induction l) (auto simp: byte_char_dot plain_byte_def eq_commute [of "CHR ''.''"])

lemma split_on_joined:
  "ls \<noteq> [] \<Longrightarrow> \<forall>l \<in> set ls. c \<notin> set l \<Longrightarrow>
   split_on c (butlast (concat (map (\<lambda>l. l @ [c]) ls))) = ls"
proof (induction ls)
  case (Cons l ls)
  then show ?case
    by (cases ls) (auto simp: split_on_no_sep butlast_append split_on_append_sep)
qed simp

lemma from_str_to_string:
  assumes "labels_ok ls" "length ls \<le> MAX_LABEL_COUNT" "list_all (list_all plain_byte) ls"
  shows "from_str (name_to_string (of_labels ls)) = Inr (of_labels ls)"
proof (cases "ls = []")
  case True
  then show ?thesis
    by (simp add: from_str_def name_to_string_def of_labels_def root_def)
next
  case False
  let ?cs = "map (map byte_char) ls"
  let ?s = "concat (map (\<lambda>l. l @ ''.'') ?cs)"
  have "concat (map (\<lambda>l. concat (map display_byte l) @ ''.'') ls) = ?s"
    using assms(3) by (induction ls) (auto simp: display_plain)
  then have s: "name_to_string (of_labels ls) = ?s"
    using False assms(1) name_labels_of_labels [of ls]
    by (simp add: name_to_string_def labels_ok_def) (simp add: of_labels_def)
  obtain l ks where ks: "ls = ks @ [l]"
    using False by (cases ls rule: rev_cases) auto
  have l: "l \<noteq> []" "list_all plain_byte l"
    using assms ks by (auto simp: labels_ok_def)
  let ?b = "concat (map (\<lambda>l. l @ ''.'') (map (map byte_char) ks)) @ map byte_char l"
  have b: "butlast ?s = ?b" "?s = ?b @ ''.''"
    using ks by (simp_all add: butlast_append)
  have "last (map byte_char l) \<noteq> CHR ''.''"
    using no_dot_plain [OF l(2)] l(1) by (metis last_in_set map_is_Nil_conv)
  then have t: "trim_end_matches CHR ''.'' ?s = ?b"
    unfolding b(2) trim_end_matches_snoc
    using l(1) by (intro trim_end_matches_last) simp_all
  have "split_on CHR ''.'' ?b = ?cs"
    using split_on_joined [of ?cs "CHR ''.''"] False assms(3) no_dot_plain b(1)
    by (auto simp: list_all_iff)
  then have "map as_bytes (split_on CHR ''.'' ?b) = ls"
    by (simp add: comp_def)
  moreover have "?s \<noteq> ''.''" "?b \<noteq> []"
    using b(2) l(1) by auto
  ultimately show ?thesis
    using from_labels_ok [OF assms(1,2)] s t l(1) by (simp add: from_str_def from_labels_def Let_def)
qed

section \<open>Properties\<close>

text \<open>C23: whatever bytes a name is decoded from, compression pointers included, a successful
  decode yields a well-formed name (labels of 1 to 63 bytes, at most 255 label bytes, offsets
  that fit their 8 bits) and leaves the reader on the same buffer, strictly further on and not
  beyond its end.\<close>

theorem decoded_name_well_formed:
  assumes "read_name r msg = Inr (n, r')" "reader_ok r"
  shows "name_ok n \<and> rbuf r' = rbuf r \<and> rpos r < rpos r' \<and> rpos r' \<le> length (rbuf r)"
  using read_name_ok [OF assms(1)] read_name_moves [OF assms(1)] assms(2)
  by (auto simp: moves_forward_def reader_ok_def)

definition sample_name :: domain_name where
  "sample_name = of_labels [[0x77, 0x77, 0x77], [0x61]]"

theorem decoded_name_well_formed_witness:
  "read_name ((reader_new [1, 0x61, 0, 1, 0x62, 0xC0, 0])\<lparr>rpos := 3\<rparr>) [1, 0x61, 0, 1, 0x62, 0xC0, 0] =
     Inr (of_labels [[0x62], [0x61]], (reader_new [1, 0x61, 0, 1, 0x62, 0xC0, 0])\<lparr>rpos := 7\<rparr>) \<and>
   name_ok (of_labels [[0x62], [0x61]])"
proof -
  have "read_name ((reader_new [1, 0x61, 0, 1, 0x62, 0xC0, 0])\<lparr>rpos := 3\<rparr>) [1, 0x61, 0, 1, 0x62, 0xC0, 0] =
     Inr (of_labels [[0x62], [0x61]], (reader_new [1, 0x61, 0, 1, 0x62, 0xC0, 0])\<lparr>rpos := 7\<rparr>)"
    by code_simp
  with decoded_name_well_formed [OF this] show ?thesis
    by (simp add: reader_ok_def reader_new_def)
qed

text \<open>C22: compressed encoding round trip. When every hit of the compression map for the suffixes
  of the name points, below offset 0x4000, at an uncompressed copy of that suffix, the name
  written by the compressing writer is decoded back exactly from the completed message, the
  decoder stops right behind it, the reported length is the number of bytes written, and
  nothing written before changes.\<close>

theorem compressed_name_roundtrip:
  assumes "name_ok n" "map_ok_for (wbuf w) m n"
    and "write_name_compressed n w m = (w', m', len)"
  shows "read_name ((reader_new (wbuf w' @ post))\<lparr>rpos := length (wbuf w)\<rparr>) (wbuf w' @ post) =
    Inr (n, (reader_new (wbuf w' @ post))\<lparr>rpos := length (wbuf w')\<rparr>) \<and>
    len = length (wbuf w') - length (wbuf w) \<and> prefix (wbuf w) (wbuf w')"
  by (rule compressed_roundtrip [OF assms])

theorem compressed_name_roundtrip_witness:
  "let w = \<lparr>wbuf = name_to_wire sample_name\<rparr>;
       m = [suffix_hash_from sample_name 0 \<mapsto> 0, suffix_hash_from sample_name 1 \<mapsto> 4] in
   map_ok_for (wbuf w) m (of_labels [[0x62], [0x61]]) \<and>
   (\<exists>w' m' len. write_name_compressed (of_labels [[0x62], [0x61]]) w m = (w', m', len) \<and>
      wbuf w' = name_to_wire sample_name @ [1, 0x62, 0xC0, 4] \<and>
      read_name ((reader_new (wbuf w' @ []))\<lparr>rpos := length (wbuf w)\<rparr>) (wbuf w' @ []) =
        Inr (of_labels [[0x62], [0x61]],
             (reader_new (wbuf w' @ []))\<lparr>rpos := length (wbuf w')\<rparr>))"
proof -
  let ?w = "\<lparr>wbuf = name_to_wire sample_name\<rparr>"
  let ?m = "[suffix_hash_from sample_name 0 \<mapsto> 0, suffix_hash_from sample_name 1 \<mapsto> 4]"
  let ?n = "of_labels [[0x62], [0x61]]"
  have n: "name_ok ?n" by code_simp
  have m: "map_ok_for (wbuf ?w) ?m ?n" by code_simp
  have e: "wbuf (fst (write_name_compressed ?n ?w ?m)) = name_to_wire sample_name @ [1, 0x62, 0xC0, 4]"
    by code_simp
  obtain w' m' len where w: "write_name_compressed ?n ?w ?m = (w', m', len)"
    by (metis prod_cases3)
  from compressed_name_roundtrip [OF n m w, of "[]"] e m w show ?thesis
    unfolding Let_def by (metis fst_conv)
qed

definition write_names_compressed ::
  "domain_name list \<Rightarrow> wire_writer \<times> (u64 \<rightharpoonup> nat) \<Rightarrow> wire_writer \<times> (u64 \<rightharpoonup> nat)" where
  "write_names_compressed ns st =
     fold (\<lambda>n (w, m). case write_name_compressed n w m of (w', m', len) \<Rightarrow> (w', m')) ns st"

text \<open>The compression map stays sound. Starting from a sound map (the empty one, for a new
  message), after writing any sequence of well-formed names with compression, every entry of
  the map still points at an uncompressed copy of the labels whose hash is its key.\<close>

theorem compression_map_sound:
  assumes "list_all name_ok ns" "map_sound (wbuf w) m"
    and "write_names_compressed ns (w, m) = (w', m')"
  shows "map_sound (wbuf w') m'"
  using assms
proof (induction ns arbitrary: w m)
  case Nil
  then show ?case by (simp add: write_names_compressed_def)
next
  case (Cons n ns)
  obtain w1 m1 len where w1: "write_name_compressed n w m = (w1, m1, len)"
    by (metis prod_cases3)
  with Cons.prems have "map_sound (wbuf w1) m1"
    using write_name_compressed_sound by auto
  with Cons w1 show ?case by (simp add: write_names_compressed_def)
qed

theorem compression_map_sound_witness:
  "\<exists>w' m'. write_names_compressed [sample_name, of_labels [[0x62], [0x61]]]
       (writer_new, Map.empty) = (w', m') \<and> map_sound (wbuf w') m'"
proof -
  obtain w' m' where "write_names_compressed [sample_name, of_labels [[0x62], [0x61]]]
       (writer_new, Map.empty) = (w', m')" by fastforce
  moreover have "list_all name_ok [sample_name, of_labels [[0x62], [0x61]]]" by code_simp
  ultimately show ?thesis
    using compression_map_sound map_sound_empty by blast
qed

text \<open>Decoding always returns (the model is a total function), and a compression pointer
  that leads to itself is not followed forever: it is rejected with \<^verbatim>\<open>PointerLoop\<close> at the
  depth limit.\<close>

theorem self_pointer_rejected:
  assumes "drop off msg = b1 # b2 # ys" "0xC0 \<le> b1" "pointer_offset b1 b2 = off"
  shows "read_name_at msg off = Inl (PointerLoop off 64)"
proof -
  have "off < length msg"
    using assms(1) by (metis drop_all list.distinct(1) not_le)
  then have "set_pos (reader_new msg) off = Inr ((reader_new msg)\<lparr>rpos := off\<rparr>)"
    by (simp add: set_pos_def reader_new_def)
  moreover have "read_name_loop msg 0 ((reader_new msg)\<lparr>rpos := off\<rparr>) [] [] = Inl (PointerLoop off 64)"
    using assms by (intro read_name_loop_self_pointer) (auto simp: rest_def reader_new_def)
  ultimately show ?thesis
    by (simp add: read_name_at_def read_name_def read_name_with_depth_def)
qed

theorem self_pointer_rejected_witness:
  "read_name_at [0, 0xC0, 1] 1 = Inl (PointerLoop 1 64)"
  by (rule self_pointer_rejected [of 1 "[0, 0xC0, 1]" "0xC0" 1 "[]"]) code_simp+

text \<open>Presentation format round trip. A name of at most 128 labels whose bytes print as
  themselves is parsed back exactly from what \<^verbatim>\<open>Display\<close> prints.\<close>

theorem presentation_roundtrip:
  assumes "name_ok n" "label_count n \<le> MAX_LABEL_COUNT" "list_all (list_all plain_byte) (name_labels n)"
  shows "from_str (name_to_string n) = Inr n"
  using assms(1) by (rule name_okE) (use assms(2,3) in \<open>simp add: from_str_to_string\<close>)

theorem presentation_roundtrip_witness:
  "name_to_string sample_name = ''www.a.'' \<and> from_str (name_to_string sample_name) = Inr sample_name"
proof -
  have "name_to_string sample_name = ''www.a.''" by code_simp
  moreover have "from_str (name_to_string sample_name) = Inr sample_name"
    by (rule presentation_roundtrip) code_simp+
  ultimately show ?thesis ..
qed

text \<open>\<^verbatim>\<open>from_labels\<close> builds exactly the name with the non-empty labels it was given: the
  result is well-formed, has at most 128 labels, and its announced uncompressed length is the
  length of its encoding.\<close>

theorem from_labels_correct:
  assumes "from_labels ls = Inr n"
  shows "name_ok n \<and> name_labels n = filter (\<lambda>l. l \<noteq> []) ls \<and> label_count n \<le> MAX_LABEL_COUNT \<and>
    wire_len n = length (name_to_wire n)"
  using from_labels_name_ok [OF assms]
  by (metis name_okE name_to_wire_eq wire_len_of_labels)

theorem from_labels_correct_witness:
  "from_labels [[0x77, 0x77, 0x77], [], [0x61]] = Inr sample_name \<and>
   wire_len sample_name = length (name_to_wire sample_name)"
proof -
  have "from_labels [[0x77, 0x77, 0x77], [], [0x61]] = Inr sample_name" by code_simp
  from from_labels_correct [OF this] this show ?thesis by blast
qed

text \<open>\<^verbatim>\<open>is_suffix_of\<close> is exactly a suffix test on the concatenated label bytes together with
  a comparison of the label counts. Every label-wise suffix satisfies it.\<close>

theorem is_suffix_of_exact:
  assumes "name_ok n" "name_ok k"
  shows "(is_suffix_of n k \<longleftrightarrow>
      label_count n \<le> label_count k \<and> suffix (concat (name_labels n)) (concat (name_labels k))) \<and>
    (suffix (name_labels n) (name_labels k) \<longrightarrow> is_suffix_of n k)"
  using is_suffix_of_iff [OF assms] is_suffix_of_labels [OF assms] by blast

theorem is_suffix_of_exact_witness:
  "is_suffix_of (of_labels [[0x61]]) sample_name"
proof -
  have "suffix (name_labels (of_labels [[0x61]])) (name_labels sample_name)" by code_simp
  moreover have "name_ok (of_labels [[0x61]])" "name_ok sample_name" by code_simp+
  ultimately show ?thesis using is_suffix_of_exact by blast
qed

text \<open>The test does not look at label boundaries: \<open>le.com\<close> counts as a suffix of
  \<open>example.com\<close>, which it is not as a domain name.\<close>

lemma is_suffix_of_ignores_boundaries:
  "is_suffix_of (of_labels [as_bytes ''le'', as_bytes ''com''])
     (of_labels [as_bytes ''example'', as_bytes ''com'']) \<and>
   \<not> suffix [as_bytes ''le'', as_bytes ''com''] [as_bytes ''example'', as_bytes ''com'']"
  by code_simp

text \<open>The limit of 255 bytes on the encoded name is not enforced: 128 one-byte labels are
  accepted and take 257 bytes.\<close>

lemma name_wire_limit_not_enforced:
  "\<exists>n. from_labels (replicate 128 [0x61]) = Inr n \<and> wire_len n = 257 \<and>
     MAX_NAME_WIRE_LENGTH < wire_len n"
proof -
  have ok: "labels_ok (replicate 128 [0x61])" by code_simp
  have "from_labels (replicate 128 [0x61]) = Inr (of_labels (replicate 128 [0x61]))"
    by (rule from_labels_ok [OF ok]) (simp add: MAX_LABEL_COUNT_def)
  moreover have "wire_len (of_labels (replicate 128 [0x61])) = 257"
    by code_simp
  ultimately show ?thesis by (auto simp: MAX_NAME_WIRE_LENGTH_def)
qed

end
