(* ===== verification/Header.thy ===== *)
theory Header
  imports Name_Codec
begin

text \<open>
  The twelve byte message header, \<^verbatim>\<open>dns-protocol/src/header.rs\<close>, and the question entry,
  \<^verbatim>\<open>dns-protocol/src/question.rs\<close>. Both are interpreted as \<open>wire_codec\<close>: a header whose
  sub-fields fit their bit widths (\<open>header_ok\<close>), and a question with a well-formed name and
  canonical codes (\<open>question_ok\<close>), are decoded back exactly from what is written. Decoding
  yields only headers and questions that satisfy these conditions.
\<close>

section \<open>Operation and response codes\<close>

datatype op_code =
  Op_Query | Op_IQuery | Op_Status | Op_Notify | Op_Update | Op_Unknown u8

definition op_code_from_u8 :: "u8 \<Rightarrow> op_code" where
  "op_code_from_u8 value =
     (if value = 0 then Op_Query
      else if value = 1 then Op_IQuery
      else if value = 2 then Op_Status
      else if value = 4 then Op_Notify
      else if value = 5 then Op_Update
      else Op_Unknown (value AND 0x0F))"

fun op_code_as_u8 :: "op_code \<Rightarrow> u8" where
  "op_code_as_u8 Op_Query = 0"
| "op_code_as_u8 Op_IQuery = 1"
| "op_code_as_u8 Op_Status = 2"
| "op_code_as_u8 Op_Notify = 4"
| "op_code_as_u8 Op_Update = 5"
| "op_code_as_u8 (Op_Unknown v) = v AND 0x0F"

datatype response_code =
  Rc_NoError | Rc_FormErr | Rc_ServFail | Rc_NXDomain | Rc_NotImp | Rc_Refused | Rc_Unknown u8

definition response_code_from_u8 :: "u8 \<Rightarrow> response_code" where
  "response_code_from_u8 value =
     (if value = 0 then Rc_NoError
      else if value = 1 then Rc_FormErr
      else if value = 2 then Rc_ServFail
      else if value = 3 then Rc_NXDomain
      else if value = 4 then Rc_NotImp
      else if value = 5 then Rc_Refused
      else Rc_Unknown value)"

fun response_code_as_u8 :: "response_code \<Rightarrow> u8" where
  "response_code_as_u8 Rc_NoError = 0"
| "response_code_as_u8 Rc_FormErr = 1"
| "response_code_as_u8 Rc_ServFail = 2"
| "response_code_as_u8 Rc_NXDomain = 3"
| "response_code_as_u8 Rc_NotImp = 4"
| "response_code_as_u8 Rc_Refused = 5"
| "response_code_as_u8 (Rc_Unknown v) = v"

section \<open>Header\<close>

record dns_header =
  h_id :: u16
  h_qr :: bool
  h_opcode :: op_code
  h_aa :: bool
  h_tc :: bool
  h_rd :: bool
  h_ra :: bool
  h_z :: u8
  h_rcode :: response_code
  h_qdcount :: u16
  h_ancount :: u16
  h_nscount :: u16
  h_arcount :: u16

definition HEADER_WIRE_SIZE :: nat where "HEADER_WIRE_SIZE = 12"

definition header_query :: "u16 \<Rightarrow> dns_header" where
  "header_query ident =
     \<lparr>h_id = ident, h_qr = False, h_opcode = Op_Query, h_aa = False, h_tc = False, h_rd = True,
      h_ra = False, h_z = 0, h_rcode = Rc_NoError,
      h_qdcount = 0, h_ancount = 0, h_nscount = 0, h_arcount = 0\<rparr>"

definition header_response :: "u16 \<Rightarrow> bool \<Rightarrow> dns_header" where
  "header_response ident rd =
     \<lparr>h_id = ident, h_qr = True, h_opcode = Op_Query, h_aa = False, h_tc = False, h_rd = rd,
      h_ra = True, h_z = 0, h_rcode = Rc_NoError,
      h_qdcount = 0, h_ancount = 0, h_nscount = 0, h_arcount = 0\<rparr>"

definition header_read :: "wire_reader \<Rightarrow> dns_header decode" where
  "header_read r =
     rbind (read_u16 r) (\<lambda>(ident, r).
     rbind (read_u16 r) (\<lambda>(flags, r).
     let qr = (flags AND 0x8000 \<noteq> 0);
         opcode = op_code_from_u8 (ucast (drop_bit 11 flags AND 0x0F));
         aa = (flags AND 0x0400 \<noteq> 0);
         tc = (flags AND 0x0200 \<noteq> 0);
         rd = (flags AND 0x0100 \<noteq> 0);
         ra = (flags AND 0x0080 \<noteq> 0);
         z = ucast (drop_bit 4 flags AND 0x07);
         rcode = response_code_from_u8 (ucast (flags AND 0x000F)) in
     rbind (read_u16 r) (\<lambda>(qdcount, r).
     rbind (read_u16 r) (\<lambda>(ancount, r).
     rbind (read_u16 r) (\<lambda>(nscount, r).
     rbind (read_u16 r) (\<lambda>(arcount, r).
     Inr (\<lparr>h_id = ident, h_qr = qr, h_opcode = opcode, h_aa = aa, h_tc = tc, h_rd = rd,
           h_ra = ra, h_z = z, h_rcode = rcode, h_qdcount = qdcount, h_ancount = ancount,
           h_nscount = nscount, h_arcount = arcount\<rparr>, r)))))))"

text \<open>The flag word the source assembles in \<^verbatim>\<open>write\<close>, one assignment per line.\<close>

definition header_flags :: "dns_header \<Rightarrow> u16" where
  "header_flags h =
     (let flags = 0;
          flags = (if h_qr h then flags OR 0x8000 else flags);
          flags = flags OR push_bit 11 (ucast (op_code_as_u8 (h_opcode h)));
          flags = (if h_aa h then flags OR 0x0400 else flags);
          flags = (if h_tc h then flags OR 0x0200 else flags);
          flags = (if h_rd h then flags OR 0x0100 else flags);
          flags = (if h_ra h then flags OR 0x0080 else flags);
          flags = flags OR push_bit 4 (ucast (h_z h))
      in flags OR ucast (response_code_as_u8 (h_rcode h)))"

definition header_write :: "dns_header \<Rightarrow> wire_writer \<Rightarrow> wire_writer" where
  "header_write h w =
     (let w = write_u16 (h_id h) w;
          w = write_u16 (header_flags h) w;
          w = write_u16 (h_qdcount h) w;
          w = write_u16 (h_ancount h) w;
          w = write_u16 (h_nscount h) w
      in write_u16 (h_arcount h) w)"

section \<open>Question\<close>

record dns_question =
  q_name :: domain_name
  q_type :: qtype
  q_class :: qclass

definition question_new :: "domain_name \<Rightarrow> qtype \<Rightarrow> qclass \<Rightarrow> dns_question" where
  "question_new n t c = \<lparr>q_name = n, q_type = t, q_class = c\<rparr>"

definition question_read :: "u8 list \<Rightarrow> wire_reader \<Rightarrow> dns_question decode" where
  "question_read message r =
     rbind (read_name r message) (\<lambda>(qname, r).
     rbind (read_u16 r) (\<lambda>(qtype_raw, r).
     rbind (read_u16 r) (\<lambda>(qclass_raw, r).
     Inr (\<lparr>q_name = qname, q_type = qtype_from_u16 qtype_raw,
           q_class = qclass_from_u16 qclass_raw\<rparr>, r))))"

definition question_write :: "dns_question \<Rightarrow> wire_writer \<Rightarrow> wire_writer" where
  "question_write q w =
     write_u16 (qclass_as_u16 (q_class q))
       (write_u16 (qtype_as_u16 (q_type q)) (write_wire_uncompressed (q_name q) w))"

definition question_wire_len :: "dns_question \<Rightarrow> nat" where
  "question_wire_len q = wire_len (q_name q) + 4"

section \<open>Codes\<close>

definition op_code_ok :: "op_code \<Rightarrow> bool" where
  "op_code_ok c \<longleftrightarrow> op_code_from_u8 (op_code_as_u8 c) = c"

definition response_code_ok :: "response_code \<Rightarrow> bool" where
  "response_code_ok c \<longleftrightarrow>
     response_code_from_u8 (response_code_as_u8 c) = c \<and> response_code_as_u8 c < 16"

definition header_ok :: "dns_header \<Rightarrow> bool" where
  "header_ok h \<longleftrightarrow> op_code_ok (h_opcode h) \<and> h_z h < 8 \<and> response_code_ok (h_rcode h)"

lemma and_15_u8: "(v :: u8) AND 0x0F < 16"
  using word_and_le1 [of v "0x0F"] by (simp add: word_less_nat_alt word_le_nat_alt)

lemma and_7_u8: "(v :: u8) AND 0x07 < 8"
  using word_and_le1 [of v "0x07"] by (simp add: word_less_nat_alt word_le_nat_alt)

lemma less_16_and [simp]: "(v :: u8) < 16 \<Longrightarrow> v AND 0x0F = v"
  using take_bit_small [of v 4] take_bit_eq_mask [of 4 v]
  by (simp add: mask_eq_exp_minus_1 word_less_nat_alt)

lemma less_8_and [simp]: "(v :: u8) < 8 \<Longrightarrow> v AND 0x07 = v"
  using take_bit_small [of v 3] take_bit_eq_mask [of 3 v]
  by (simp add: mask_eq_exp_minus_1 word_less_nat_alt)

lemma op_code_as_u8_less: "op_code_as_u8 c < 16"
  by (cases c) (auto simp: and_15_u8)

lemma op_code_ok_from_u8: "v < 16 \<Longrightarrow> op_code_ok (op_code_from_u8 v)"
  by (auto simp: op_code_ok_def op_code_from_u8_def)

lemma response_code_ok_from_u8: "v < 16 \<Longrightarrow> response_code_ok (response_code_from_u8 v)"
  by (auto simp: response_code_ok_def response_code_from_u8_def)

lemma header_ok_query [simp]: "header_ok (header_query i)"
  by (simp add: header_ok_def header_query_def op_code_ok_def response_code_ok_def
      op_code_from_u8_def response_code_from_u8_def)

lemma header_ok_response [simp]: "header_ok (header_response i rd)"
  by (simp add: header_ok_def header_response_def op_code_ok_def response_code_ok_def
      op_code_from_u8_def response_code_from_u8_def)

section \<open>The flag word\<close>

lemma bit_less_16: "(v :: u8) < 16 \<Longrightarrow> bit v n \<Longrightarrow> n < 4"
  using bit_small [of v 4 n] by (simp add: word_less_nat_alt)

lemma bit_less_8: "(v :: u8) < 8 \<Longrightarrow> bit v n \<Longrightarrow> n < 3"
  using bit_small [of v 3 n] by (simp add: word_less_nat_alt)

lemma flag_bits:
  "bit (0x8000 :: u16) n \<longleftrightarrow> n = 15" "bit (0x0400 :: u16) n \<longleftrightarrow> n = 10"
  "bit (0x0200 :: u16) n \<longleftrightarrow> n = 9" "bit (0x0100 :: u16) n \<longleftrightarrow> n = 8"
  "bit (0x0080 :: u16) n \<longleftrightarrow> n = 7"
  by (rule bit_single; simp)+

lemma flag_tests:
  "w AND (0x8000 :: u16) \<noteq> 0 \<longleftrightarrow> bit w 15" "w AND (0x0400 :: u16) \<noteq> 0 \<longleftrightarrow> bit w 10"
  "w AND (0x0200 :: u16) \<noteq> 0 \<longleftrightarrow> bit w 9" "w AND (0x0100 :: u16) \<noteq> 0 \<longleftrightarrow> bit w 8"
  "w AND (0x0080 :: u16) \<noteq> 0 \<longleftrightarrow> bit w 7"
  by (rule and_single; simp)+

lemma bit_push_ucast:
  "bit (push_bit k (ucast (v :: u8)) :: u16) n \<longleftrightarrow> k \<le> n \<and> n < 16 \<and> bit v (n - k)"
  by (auto simp: bit_simps)

lemma bit_ucast_u8: "bit (ucast (v :: u8) :: u16) n \<longleftrightarrow> bit v n"
  by (auto simp: bit_simps dest: bit_imp_le_length)

lemma bit_header_flags:
  "bit (header_flags h) n \<longleftrightarrow>
     h_qr h \<and> n = 15 \<or> 11 \<le> n \<and> n < 16 \<and> bit (op_code_as_u8 (h_opcode h)) (n - 11) \<or>
     h_aa h \<and> n = 10 \<or> h_tc h \<and> n = 9 \<or> h_rd h \<and> n = 8 \<or> h_ra h \<and> n = 7 \<or>
     4 \<le> n \<and> n < 16 \<and> bit (h_z h) (n - 4) \<or> bit (response_code_as_u8 (h_rcode h)) n"
  unfolding header_flags_def Let_def bit_or_iff bit_or_flag flag_bits bit_push_ucast bit_ucast_u8
  by simp

lemma header_flags_opcode:
  assumes "header_ok h"
  shows "op_code_from_u8 (ucast (drop_bit 11 (header_flags h) AND 0x0F)) = h_opcode h"
proof -
  let ?op = "op_code_as_u8 (h_opcode h)"
  have z: "\<not> bit (h_z h) (n + 7)" and r: "\<not> bit (response_code_as_u8 (h_rcode h)) (n + 11)" for n
    using assms bit_less_8 [of "h_z h" "n + 7"] bit_less_16 [of _ "n + 11"]
    by (auto simp: header_ok_def response_code_ok_def)
  have mask: "(0x0F :: u16) = mask 4" by (simp add: mask_eq_exp_minus_1)
  have "ucast (drop_bit 11 (header_flags h) AND 0x0F) = ?op"
    unfolding mask
    by (rule bit_word_eqI)
      (use z r in \<open>auto simp: bit_simps bit_header_flags add.commute
        dest: bit_less_16 [OF op_code_as_u8_less]\<close>)
  with assms show ?thesis by (simp add: header_ok_def op_code_ok_def)
qed

lemma header_flags_z:
  assumes "header_ok h"
  shows "ucast (drop_bit 4 (header_flags h) AND 0x07) = h_z h"
proof -
  have r: "\<not> bit (response_code_as_u8 (h_rcode h)) (n + 4)" for n
    using assms bit_less_16 [of _ "n + 4"] by (auto simp: header_ok_def response_code_ok_def)
  have mask: "(0x07 :: u16) = mask 3" by (simp add: mask_eq_exp_minus_1)
  from assms have z: "h_z h < 8" by (simp add: header_ok_def)
  show ?thesis
    unfolding mask
    by (rule bit_word_eqI)
      (use r bit_less_8 [OF z] in \<open>auto simp: bit_simps bit_header_flags add.commute\<close>)
qed

lemma header_flags_rcode:
  assumes "header_ok h"
  shows "response_code_from_u8 (ucast (header_flags h AND 0x000F)) = h_rcode h"
proof -
  let ?rc = "response_code_as_u8 (h_rcode h)"
  have mask: "(0x0F :: u16) = mask 4" by (simp add: mask_eq_exp_minus_1)
  from assms have rc: "?rc < 16" by (simp add: header_ok_def response_code_ok_def)
  have "ucast (header_flags h AND 0x000F) = ?rc"
    unfolding mask
    by (rule bit_word_eqI)
      (use bit_less_16 [OF rc] in \<open>auto simp: bit_simps bit_header_flags\<close>)
  with assms show ?thesis by (simp add: header_ok_def response_code_ok_def)
qed

lemma header_flags_bits:
  assumes "header_ok h"
  shows "bit (header_flags h) 15 = h_qr h" "bit (header_flags h) 10 = h_aa h"
    "bit (header_flags h) 9 = h_tc h" "bit (header_flags h) 8 = h_rd h"
    "bit (header_flags h) 7 = h_ra h"
proof -
  have z: "\<not> bit (h_z h) 11" "\<not> bit (h_z h) 6" "\<not> bit (h_z h) 5" "\<not> bit (h_z h) 4"
    "\<not> bit (h_z h) 3"
    using assms by (auto simp: header_ok_def dest: bit_less_8)
  have op: "\<not> bit (op_code_as_u8 (h_opcode h)) 4"
    using bit_less_16 [OF op_code_as_u8_less] by auto
  have r: "\<not> bit (response_code_as_u8 (h_rcode h)) n" if "4 \<le> n" for n
    using assms bit_less_16 [of _ n] that by (auto simp: header_ok_def response_code_ok_def)
  show "bit (header_flags h) 15 = h_qr h" "bit (header_flags h) 10 = h_aa h"
    "bit (header_flags h) 9 = h_tc h" "bit (header_flags h) 8 = h_rd h"
    "bit (header_flags h) 7 = h_ra h"
    using z op r by (auto simp: bit_header_flags)
qed

section \<open>The header codec\<close>

definition header_wire :: "dns_header \<Rightarrow> u8 list" where
  "header_wire h =
     concat (map u16_to_be_bytes
       [h_id h, header_flags h, h_qdcount h, h_ancount h, h_nscount h, h_arcount h])"

lemma wbuf_header_write [wire_simps]: "wbuf (header_write h w) = wbuf w @ header_wire h"
  by (simp add: header_write_def header_wire_def Let_def wire_simps)

lemma length_header_wire [simp]: "length (header_wire h) = HEADER_WIRE_SIZE"
  by (simp add: header_wire_def HEADER_WIRE_SIZE_def)

lemma header_read_moves: "header_read r = Inr (h, r') \<Longrightarrow> moves_forward r r'"
  by (auto simp: header_read_def result_simps Let_def dest!: reads_move)
    (simp add: moves_forward_def)

lemma header_read_ok:
  assumes "header_read r = Inr (h, r')"
  shows "header_ok h"
proof -
  have m: "ucast ((w :: u16) AND 0x0F) < (16 :: u8)" "ucast ((w :: u16) AND 0x07) < (8 :: u8)" for w
    using word_and_le1 [of w "0x0F"] word_and_le1 [of w "0x07"]
    by (simp_all add: word_less_nat_alt word_le_nat_alt unsigned_ucast_eq take_bit_eq_mod)
  from assms show ?thesis
    by (auto simp: header_read_def result_simps Let_def header_ok_def
        intro!: m op_code_ok_from_u8 response_code_ok_from_u8)
qed

lemma header_roundtrip:
  assumes "header_ok h" "rest r = header_wire h @ ys"
  shows "header_read r = Inr (h, adv (length (header_wire h)) r)"
proof -
  note rest = assms(2) [unfolded header_wire_def, simplified]
  have "read_u16 r = Inr (h_id h, adv 2 r)"
    "read_u16 (adv 2 r) = Inr (header_flags h, adv 4 r)"
    "read_u16 (adv 4 r) = Inr (h_qdcount h, adv 6 r)"
    "read_u16 (adv 6 r) = Inr (h_ancount h, adv 8 r)"
    "read_u16 (adv 8 r) = Inr (h_nscount h, adv 10 r)"
    "read_u16 (adv 10 r) = Inr (h_arcount h, adv 12 r)"
    using rest
    by (subst read_u16_enc; simp add: rest_adv)+
  then show ?thesis
    using assms(1)
    by (simp add: header_read_def Let_def flag_tests header_flags_bits header_flags_opcode
        header_flags_z header_flags_rcode HEADER_WIRE_SIZE_def)
qed

interpretation header_codec: wire_codec header_read header_wire header_ok
  by unfold_locales (simp_all add: header_read_moves header_roundtrip)

section \<open>The question codec\<close>

definition question_ok :: "dns_question \<Rightarrow> bool" where
  "question_ok q \<longleftrightarrow> name_ok (q_name q) \<and> qtype_ok (q_type q) \<and> qclass_ok (q_class q)"

definition question_wire :: "dns_question \<Rightarrow> u8 list" where
  "question_wire q =
     name_to_wire (q_name q) @ u16_to_be_bytes (qtype_as_u16 (q_type q)) @
     u16_to_be_bytes (qclass_as_u16 (q_class q))"

lemma wbuf_question_write [wire_simps]:
  "name_ok (q_name q) \<Longrightarrow> wbuf (question_write q w) = wbuf w @ question_wire q"
  by (simp add: question_write_def question_wire_def wire_simps name_to_wire_eq)

lemma question_read_moves: "question_read msg r = Inr (q, r') \<Longrightarrow> moves_forward r r'"
  by (auto simp: question_read_def result_simps dest!: reads_move read_name_moves
      intro: moves_forward_trans)

lemma question_read_ok: "question_read msg r = Inr (q, r') \<Longrightarrow> question_ok q"
  by (auto simp: question_read_def result_simps question_ok_def dest!: read_name_ok)

lemma question_roundtrip:
  assumes "question_ok q" "rest r = question_wire q @ ys"
  shows "question_read msg r = Inr (q, adv (length (question_wire q)) r)"
proof -
  let ?n = "length (name_to_wire (q_name q))"
  note rest = assms(2) [unfolded question_wire_def, simplified]
  have "read_name r msg = Inr (q_name q, adv ?n r)"
    using rest assms(1) by (intro read_name_roundtrip) (auto simp: question_ok_def)
  moreover have "read_u16 (adv ?n r) = Inr (qtype_as_u16 (q_type q), adv (?n + 2) r)"
    using rest by (subst read_u16_enc; simp add: rest_adv)
  moreover have "read_u16 (adv (?n + 2) r) = Inr (qclass_as_u16 (q_class q), adv (?n + 4) r)"
    using rest by (subst read_u16_enc; simp add: rest_adv eval_nat_numeral)
  ultimately show ?thesis
    using assms(1)
    by (simp add: question_read_def question_wire_def question_ok_def qtype_ok_def qclass_ok_def)
qed

interpretation question_codec: wire_codec "question_read msg" question_wire question_ok for msg
  by unfold_locales (simp_all add: question_read_moves question_roundtrip)

lemma question_wire_len: "name_ok (q_name q) \<Longrightarrow> question_wire_len q = length (question_wire q)"
  by (elim name_okE)
    (auto simp: question_wire_len_def question_wire_def wire_len_of_labels name_to_wire_eq)

end
