(* ===== verification/Rr.thy ===== *)
theory Rr
  imports Header
begin

text \<open>
  Resource records, \<^verbatim>\<open>dns-protocol/src/rr.rs\<close>: the typed record data with its codec per
  record type, the EDNS(0) OPT pseudo record, and the record itself, whose RDLENGTH field is
  written as a placeholder and patched afterwards. The record codec is a \<open>wire_codec\<close> for the
  records that satisfy \<open>rr_ok\<close>, and every decoded record has record data of its own type.

  An \<^verbatim>\<open>Ipv4Addr\<close> and an \<^verbatim>\<open>Ipv6Addr\<close> are their octets, lists of length 4 and 16; the decoder
  produces no other length.
\<close>

section \<open>Record data\<close>

record soa_record =
  soa_mname :: domain_name
  soa_rname :: domain_name
  soa_serial :: u32
  soa_refresh :: u32
  soa_retry :: u32
  soa_expire :: u32
  soa_minimum :: u32

record mx_record =
  mx_preference :: u16
  mx_exchange :: domain_name

record srv_record =
  srv_priority :: u16
  srv_weight :: u16
  srv_port :: u16
  srv_target :: domain_name

record svcb_record =
  svcb_priority :: u16
  svcb_target :: domain_name
  svcb_params :: "u8 list"

record opt_record =
  opt_udp_payload_size :: u16
  opt_extended_rcode :: u8
  opt_version :: u8
  opt_do_flag :: bool
  opt_options :: "u8 list"

type_synonym ipv4_addr = "u8 list"
type_synonym ipv6_addr = "u8 list"

datatype rdata =
    RD_A ipv4_addr
  | RD_AAAA ipv6_addr
  | RD_CNAME domain_name
  | RD_NS domain_name
  | RD_PTR domain_name
  | RD_MX mx_record
  | RD_TXT "u8 list list"
  | RD_SOA soa_record
  | RD_SRV srv_record
  | RD_SVCB svcb_record
  | RD_HTTPS svcb_record
  | RD_OPT opt_record
  | RD_Unknown u16 "u8 list"

subsection \<open>SOA, MX, SRV, SVCB\<close>

definition soa_read :: "u8 list \<Rightarrow> wire_reader \<Rightarrow> soa_record decode" where
  "soa_read message r =
     rbind (read_name r message) (\<lambda>(mname, r).
     rbind (read_name r message) (\<lambda>(rname, r).
     rbind (read_u32 r) (\<lambda>(serial, r).
     rbind (read_u32 r) (\<lambda>(refresh, r).
     rbind (read_u32 r) (\<lambda>(retry, r).
     rbind (read_u32 r) (\<lambda>(expire, r).
     rbind (read_u32 r) (\<lambda>(minimum, r).
     Inr (\<lparr>soa_mname = mname, soa_rname = rname, soa_serial = serial, soa_refresh = refresh,
           soa_retry = retry, soa_expire = expire, soa_minimum = minimum\<rparr>, r))))))))"

definition soa_write :: "soa_record \<Rightarrow> wire_writer \<Rightarrow> wire_writer" where
  "soa_write s w =
     (let w = write_wire_uncompressed (soa_mname s) w;
          w = write_wire_uncompressed (soa_rname s) w;
          w = write_u32 (soa_serial s) w;
          w = write_u32 (soa_refresh s) w;
          w = write_u32 (soa_retry s) w;
          w = write_u32 (soa_expire s) w
      in write_u32 (soa_minimum s) w)"

definition soa_rdata_wire_len :: "soa_record \<Rightarrow> nat" where
  "soa_rdata_wire_len s = 20 + wire_len (soa_mname s) + wire_len (soa_rname s)"

definition mx_read :: "u8 list \<Rightarrow> wire_reader \<Rightarrow> mx_record decode" where
  "mx_read message r =
     rbind (read_u16 r) (\<lambda>(preference, r).
     rbind (read_name r message) (\<lambda>(exchange, r).
     Inr (\<lparr>mx_preference = preference, mx_exchange = exchange\<rparr>, r)))"

definition mx_write :: "mx_record \<Rightarrow> wire_writer \<Rightarrow> wire_writer" where
  "mx_write m w = write_wire_uncompressed (mx_exchange m) (write_u16 (mx_preference m) w)"

definition srv_read :: "u8 list \<Rightarrow> wire_reader \<Rightarrow> srv_record decode" where
  "srv_read message r =
     rbind (read_u16 r) (\<lambda>(priority, r).
     rbind (read_u16 r) (\<lambda>(weight, r).
     rbind (read_u16 r) (\<lambda>(port, r).
     rbind (read_name r message) (\<lambda>(target, r).
     Inr (\<lparr>srv_priority = priority, srv_weight = weight, srv_port = port,
           srv_target = target\<rparr>, r)))))"

definition srv_write :: "srv_record \<Rightarrow> wire_writer \<Rightarrow> wire_writer" where
  "srv_write s w =
     write_wire_uncompressed (srv_target s)
       (write_u16 (srv_port s) (write_u16 (srv_weight s) (write_u16 (srv_priority s) w)))"

definition read_svcb :: "u8 list \<Rightarrow> nat \<Rightarrow> wire_reader \<Rightarrow> svcb_record decode" where
  "read_svcb message rdata_end r =
     rbind (read_u16 r) (\<lambda>(priority, r).
     rbind (read_name r message) (\<lambda>(target, r).
     rbind (read_bytes (rdata_end - rpos r) r) (\<lambda>(svc_params, r).
     Inr (\<lparr>svcb_priority = priority, svcb_target = target, svcb_params = svc_params\<rparr>, r))))"

definition svcb_write :: "svcb_record \<Rightarrow> wire_writer \<Rightarrow> wire_writer" where
  "svcb_write s w =
     write_bytes (svcb_params s)
       (write_wire_uncompressed (svcb_target s) (write_u16 (svcb_priority s) w))"

subsection \<open>All types\<close>

text \<open>\<^verbatim>\<open>while reader.pos() < rdata_end\<close>: the character strings of a TXT record.\<close>

function read_txt :: "nat \<Rightarrow> wire_reader \<Rightarrow> u8 list list \<Rightarrow> u8 list list decode" where
  "read_txt rdata_end r strings =
     (if rpos r < rdata_end then
        rbind (read_u8 r) (\<lambda>(len, r).
        rbind (read_bytes (unat len) r) (\<lambda>(data, r).
        read_txt rdata_end r (strings @ [data])))
      else Inr (strings, r))"
  by pat_completeness auto
termination
  by (relation "measure (\<lambda>(e, r, s). e - rpos r)")
    (auto simp: read_u8_def read_bytes_def split: if_splits)

declare read_txt.simps [simp del]

fun rdata_dispatch ::
  "record_type \<Rightarrow> u16 \<Rightarrow> nat \<Rightarrow> u8 list \<Rightarrow> wire_reader \<Rightarrow> rdata decode" where
  "rdata_dispatch RT_A rdlength rdata_end message r =
     (if rdlength \<noteq> 4 then
        Inl (MalformedRData 1 (''A record RDLENGTH must be 4, got '' @ show_nat (unat rdlength)))
      else rbind (read_bytes 4 r) (\<lambda>(octets, r). Inr (RD_A octets, r)))"
| "rdata_dispatch RT_AAAA rdlength rdata_end message r =
     (if rdlength \<noteq> 16 then
        Inl (MalformedRData 28
               (''AAAA record RDLENGTH must be 16, got '' @ show_nat (unat rdlength)))
      else rbind (read_bytes 16 r) (\<lambda>(octets, r). Inr (RD_AAAA octets, r)))"
| "rdata_dispatch RT_CNAME rdlength rdata_end message r =
     rbind (read_name r message) (\<lambda>(n, r). Inr (RD_CNAME n, r))"
| "rdata_dispatch RT_NS rdlength rdata_end message r =
     rbind (read_name r message) (\<lambda>(n, r). Inr (RD_NS n, r))"
| "rdata_dispatch RT_PTR rdlength rdata_end message r =
     rbind (read_name r message) (\<lambda>(n, r). Inr (RD_PTR n, r))"
| "rdata_dispatch RT_MX rdlength rdata_end message r =
     rbind (mx_read message r) (\<lambda>(mx, r). Inr (RD_MX mx, r))"
| "rdata_dispatch RT_SOA rdlength rdata_end message r =
     rbind (soa_read message r) (\<lambda>(soa, r). Inr (RD_SOA soa, r))"
| "rdata_dispatch RT_TXT rdlength rdata_end message r =
     rbind (read_txt rdata_end r []) (\<lambda>(strings, r). Inr (RD_TXT strings, r))"
| "rdata_dispatch RT_SRV rdlength rdata_end message r =
     rbind (srv_read message r) (\<lambda>(srv, r). Inr (RD_SRV srv, r))"
| "rdata_dispatch RT_SVCB rdlength rdata_end message r =
     rbind (read_svcb message rdata_end r) (\<lambda>(svcb, r). Inr (RD_SVCB svcb, r))"
| "rdata_dispatch RT_HTTPS rdlength rdata_end message r =
     rbind (read_svcb message rdata_end r) (\<lambda>(svcb, r). Inr (RD_HTTPS svcb, r))"
| "rdata_dispatch RT_OPT rdlength rdata_end message r =
     rbind (read_bytes (unat rdlength) r) (\<lambda>(opt_data, r).
       Inr (RD_OPT \<lparr>opt_udp_payload_size = 0, opt_extended_rcode = 0, opt_version = 0,
                    opt_do_flag = False, opt_options = opt_data\<rparr>, r))"
| "rdata_dispatch (RT_Unknown type_val) rdlength rdata_end message r =
     rbind (read_bytes (unat rdlength) r) (\<lambda>(data, r). Inr (RD_Unknown type_val data, r))"

definition rdata_read ::
  "record_type \<Rightarrow> u16 \<Rightarrow> u8 list \<Rightarrow> wire_reader \<Rightarrow> rdata decode" where
  "rdata_read rr_type rdlength message r =
     (let start_pos = rpos r; rdata_end = start_pos + unat rdlength in
      if rdata_end > length message then Inl (RdLengthExceedsBuffer rdlength (remaining r))
      else rbind (rdata_dispatch rr_type rdlength rdata_end message r) (\<lambda>(rdata, r).
        let consumed = rpos r - start_pos in
        if consumed \<noteq> unat rdlength then
          let skip = unat rdlength - consumed in
          if skip > 0 then rbind (read_bytes skip r) (\<lambda>(_, r). Inr (rdata, r))
          else Inr (rdata, r)
        else Inr (rdata, r)))"

fun write_txt :: "u8 list list \<Rightarrow> wire_writer \<Rightarrow> wire_writer" where
  "write_txt [] w = w"
| "write_txt (s # ss) w = write_txt ss (write_bytes s (write_u8 (of_nat (length s)) w))"

fun rdata_write_body :: "rdata \<Rightarrow> wire_writer \<Rightarrow> wire_writer" where
  "rdata_write_body (RD_A ip) w = write_bytes ip w"
| "rdata_write_body (RD_AAAA ip) w = write_bytes ip w"
| "rdata_write_body (RD_CNAME n) w = write_wire_uncompressed n w"
| "rdata_write_body (RD_NS n) w = write_wire_uncompressed n w"
| "rdata_write_body (RD_PTR n) w = write_wire_uncompressed n w"
| "rdata_write_body (RD_MX mx) w = mx_write mx w"
| "rdata_write_body (RD_SOA soa) w = soa_write soa w"
| "rdata_write_body (RD_TXT strings) w = write_txt strings w"
| "rdata_write_body (RD_SRV srv) w = srv_write srv w"
| "rdata_write_body (RD_SVCB svcb) w = svcb_write svcb w"
| "rdata_write_body (RD_HTTPS svcb) w = svcb_write svcb w"
| "rdata_write_body (RD_OPT opt) w = write_bytes (opt_options opt) w"
| "rdata_write_body (RD_Unknown t data) w = write_bytes data w"

definition rdata_write :: "rdata \<Rightarrow> wire_writer \<Rightarrow> wire_writer \<times> nat" where
  "rdata_write rd w =
     (let start = writer_pos w; w = rdata_write_body rd w in (w, writer_pos w - start))"

section \<open>Resource records\<close>

record resource_record =
  rr_name :: domain_name
  rr_type :: record_type
  rr_class :: record_class
  rr_ttl :: u32
  rr_rdata :: rdata

definition rr_read :: "u8 list \<Rightarrow> wire_reader \<Rightarrow> resource_record decode" where
  "rr_read message r =
     rbind (read_name r message) (\<lambda>(nm, r).
     rbind (read_u16 r) (\<lambda>(rr_type_raw, r).
     let ty = record_type_from_u16 rr_type_raw in
     rbind (read_u16 r) (\<lambda>(class_raw, r).
     let cl = record_class_from_u16 class_raw in
     rbind (read_u32 r) (\<lambda>(ttl, r).
     rbind (read_u16 r) (\<lambda>(rdlength, r).
     rbind (if ty = RT_OPT then
              rbind (read_bytes (unat rdlength) r) (\<lambda>(opt_data, r).
                Inr (RD_OPT \<lparr>opt_udp_payload_size = class_raw,
                             opt_extended_rcode = ucast (drop_bit 24 ttl AND 0xFF),
                             opt_version = ucast (drop_bit 16 ttl AND 0xFF),
                             opt_do_flag = (ttl AND 0x8000 \<noteq> 0),
                             opt_options = opt_data\<rparr>, r))
            else rdata_read ty rdlength message r) (\<lambda>(rd, r).
     Inr (\<lparr>rr_name = nm, rr_type = ty, rr_class = cl, rr_ttl = ttl, rr_rdata = rd\<rparr>, r)))))))"

definition opt_ttl_field :: "opt_record \<Rightarrow> u32" where
  "opt_ttl_field opt =
     (let ttl_field = push_bit 24 (ucast (opt_extended_rcode opt));
          ttl_field = ttl_field OR push_bit 16 (ucast (opt_version opt))
      in if opt_do_flag opt then ttl_field OR 0x8000 else ttl_field)"

definition rr_write_to :: "resource_record \<Rightarrow> wire_writer \<Rightarrow> wire_writer" where
  "rr_write_to rr w =
     (let w = write_wire_uncompressed (rr_name rr) w in
      case rr_rdata rr of
        RD_OPT opt \<Rightarrow>
          let w = write_u16 (record_type_as_u16 (rr_type rr)) w;
              w = write_u16 (opt_udp_payload_size opt) w;
              w = write_u32 (opt_ttl_field opt) w;
              w = write_u16 (of_nat (length (opt_options opt))) w
          in write_bytes (opt_options opt) w
      | _ \<Rightarrow>
          let w = write_u16 (record_type_as_u16 (rr_type rr)) w;
              w = write_u16 (record_class_as_u16 (rr_class rr)) w;
              w = write_u32 (rr_ttl rr) w;
              rdlen_pos = writer_pos w;
              w = write_u16 0 w;
              rdata_start = writer_pos w;
              w = fst (rdata_write (rr_rdata rr) w);
              rdata_len = (of_nat (writer_pos w - rdata_start) :: u16);
              w = patch_u8 rdlen_pos (ucast (drop_bit 8 rdata_len)) w
          in patch_u8 (rdlen_pos + 1) (ucast (rdata_len AND 0xFF)) w)"

section \<open>Well-formed record data\<close>

fun rdata_wire :: "rdata \<Rightarrow> u8 list" where
  "rdata_wire (RD_A ip) = ip"
| "rdata_wire (RD_AAAA ip) = ip"
| "rdata_wire (RD_CNAME n) = name_to_wire n"
| "rdata_wire (RD_NS n) = name_to_wire n"
| "rdata_wire (RD_PTR n) = name_to_wire n"
| "rdata_wire (RD_MX mx) = u16_to_be_bytes (mx_preference mx) @ name_to_wire (mx_exchange mx)"
| "rdata_wire (RD_SOA s) =
     name_to_wire (soa_mname s) @ name_to_wire (soa_rname s) @
     concat (map u32_to_be_bytes
       [soa_serial s, soa_refresh s, soa_retry s, soa_expire s, soa_minimum s])"
| "rdata_wire (RD_TXT ss) = concat (map (\<lambda>s. of_nat (length s) # s) ss)"
| "rdata_wire (RD_SRV s) =
     concat (map u16_to_be_bytes [srv_priority s, srv_weight s, srv_port s]) @
     name_to_wire (srv_target s)"
| "rdata_wire (RD_SVCB s) =
     u16_to_be_bytes (svcb_priority s) @ name_to_wire (svcb_target s) @ svcb_params s"
| "rdata_wire (RD_HTTPS s) =
     u16_to_be_bytes (svcb_priority s) @ name_to_wire (svcb_target s) @ svcb_params s"
| "rdata_wire (RD_OPT opt) = opt_options opt"
| "rdata_wire (RD_Unknown t data) = data"

fun rdata_ok :: "rdata \<Rightarrow> bool" where
  "rdata_ok (RD_A ip) \<longleftrightarrow> length ip = 4"
| "rdata_ok (RD_AAAA ip) \<longleftrightarrow> length ip = 16"
| "rdata_ok (RD_CNAME n) \<longleftrightarrow> name_ok n"
| "rdata_ok (RD_NS n) \<longleftrightarrow> name_ok n"
| "rdata_ok (RD_PTR n) \<longleftrightarrow> name_ok n"
| "rdata_ok (RD_MX mx) \<longleftrightarrow> name_ok (mx_exchange mx)"
| "rdata_ok (RD_SOA s) \<longleftrightarrow> name_ok (soa_mname s) \<and> name_ok (soa_rname s)"
| "rdata_ok (RD_TXT ss) \<longleftrightarrow> list_all (\<lambda>s. length s \<le> 255) ss"
| "rdata_ok (RD_SRV s) \<longleftrightarrow> name_ok (srv_target s)"
| "rdata_ok (RD_SVCB s) \<longleftrightarrow> name_ok (svcb_target s)"
| "rdata_ok (RD_HTTPS s) \<longleftrightarrow> name_ok (svcb_target s)"
| "rdata_ok (RD_OPT opt) \<longleftrightarrow> True"
| "rdata_ok (RD_Unknown t data) \<longleftrightarrow> True"

text \<open>The record type a value of the record data belongs to.\<close>

fun rdata_type :: "rdata \<Rightarrow> record_type" where
  "rdata_type (RD_A _) = RT_A"
| "rdata_type (RD_AAAA _) = RT_AAAA"
| "rdata_type (RD_CNAME _) = RT_CNAME"
| "rdata_type (RD_NS _) = RT_NS"
| "rdata_type (RD_PTR _) = RT_PTR"
| "rdata_type (RD_MX _) = RT_MX"
| "rdata_type (RD_SOA _) = RT_SOA"
| "rdata_type (RD_TXT _) = RT_TXT"
| "rdata_type (RD_SRV _) = RT_SRV"
| "rdata_type (RD_SVCB _) = RT_SVCB"
| "rdata_type (RD_HTTPS _) = RT_HTTPS"
| "rdata_type (RD_OPT _) = RT_OPT"
| "rdata_type (RD_Unknown t _) = RT_Unknown t"

lemma wbuf_write_txt [wire_simps]:
  "wbuf (write_txt ss w) = wbuf w @ concat (map (\<lambda>s. of_nat (length s) # s) ss)"
  by (induction ss arbitrary: w) (auto simp: wire_simps)

lemma wbuf_rdata_write_body [wire_simps]:
  "rdata_ok rd \<Longrightarrow> wbuf (rdata_write_body rd w) = wbuf w @ rdata_wire rd"
  by (cases rd)
    (auto simp: wire_simps name_to_wire_eq mx_write_def soa_write_def srv_write_def svcb_write_def)

subsection \<open>Decoding moves forward and yields the announced type\<close>

lemma read_txt_D:
  "read_txt e r ss = Inr (ss', r') \<Longrightarrow>
   moves_forward r r' \<and> e \<le> rpos r' \<and> (list_all (\<lambda>s. length s \<le> 255) ss \<longrightarrow> list_all (\<lambda>s. length s \<le> 255) ss')"
proof (induction e r ss rule: read_txt.induct)
  case (1 e r ss)
  show ?case
  proof (cases "rpos r < e")
    case True
    with "1.prems" obtain len r1 data r2 where
      st: "read_u8 r = Inr (len, r1)" "read_bytes (unat len) r1 = Inr (data, r2)"
      "read_txt e r2 (ss @ [data]) = Inr (ss', r')"
      by (subst (asm) read_txt.simps) (auto simp: result_simps)
    have "length data \<le> 255"
      using read_bytes_length [OF st(2)] u8_unat_less [of len] by linarith
    with "1.IH" [OF True st(1) refl st(2) refl st(3)] read_u8_moves [OF st(1)] read_bytes_moves [OF st(2)]
    show ?thesis
      by (auto intro: moves_forward_trans)
  next
    case False
    with "1.prems" show ?thesis
      by (subst (asm) read_txt.simps) auto
  qed
qed

lemma soa_read_D:
  "soa_read msg r = Inr (s, r') \<Longrightarrow> moves_forward r r' \<and> rdata_ok (RD_SOA s)"
  by (auto simp: soa_read_def result_simps dest: read_name_ok dest!: reads_move)
    (auto simp: moves_forward_def dest!: read_name_moves)

lemma mx_read_D: "mx_read msg r = Inr (m, r') \<Longrightarrow> moves_forward r r' \<and> rdata_ok (RD_MX m)"
  by (auto simp: mx_read_def result_simps dest: read_name_ok dest!: reads_move)
    (auto simp: moves_forward_def dest!: read_name_moves)

lemma srv_read_D: "srv_read msg r = Inr (s, r') \<Longrightarrow> moves_forward r r' \<and> rdata_ok (RD_SRV s)"
  by (auto simp: srv_read_def result_simps dest: read_name_ok dest!: reads_move)
    (auto simp: moves_forward_def dest!: read_name_moves)

lemma read_svcb_D:
  "read_svcb msg e r = Inr (s, r') \<Longrightarrow>
   moves_forward r r' \<and> rdata_ok (RD_SVCB s) \<and> rdata_ok (RD_HTTPS s)"
  by (auto simp: read_svcb_def result_simps dest: read_name_ok dest!: reads_move)
    (auto simp: moves_forward_def dest!: read_name_moves)

lemmas field_reads = read_bytes_moves read_name_moves read_name_ok read_bytes_length
  soa_read_D mx_read_D srv_read_D read_svcb_D read_txt_D

lemma rdata_dispatch_D:
  assumes "rdata_dispatch ty rdlen e msg r = Inr (rd, r')"
  shows "moves_forward r r' \<and> rdata_ok rd \<and> rdata_type rd = ty"
  using assms by (cases ty) (auto simp: result_simps split: if_splits dest: field_reads)

lemma rdata_read_D:
  assumes "rdata_read ty rdlen msg r = Inr (rd, r')"
  shows "moves_forward r r' \<and> rdata_ok rd \<and> rdata_type rd = ty \<and> rpos r + unat rdlen \<le> rpos r'"
proof -
  from assms obtain r1 where d: "rdata_dispatch ty rdlen (rpos r + unat rdlen) msg r = Inr (rd, r1)"
    and k: "r' = r1 \<and> unat rdlen \<le> rpos r1 - rpos r \<or>
      (\<exists>xs. read_bytes (unat rdlen - (rpos r1 - rpos r)) r1 = Inr (xs, r'))"
    by (auto simp: rdata_read_def Let_def result_simps split: if_splits)
  note D = rdata_dispatch_D [OF d]
  from k show ?thesis
  proof
    assume "r' = r1 \<and> unat rdlen \<le> rpos r1 - rpos r"
    with D show ?thesis by (auto simp: moves_forward_def)
  next
    assume "\<exists>xs. read_bytes (unat rdlen - (rpos r1 - rpos r)) r1 = Inr (xs, r')"
    then obtain xs where "read_bytes (unat rdlen - (rpos r1 - rpos r)) r1 = Inr (xs, r')" ..
    from read_bytes_moves [OF this] read_bytes_D [OF this] D show ?thesis
      by (auto simp: moves_forward_def)
  qed
qed

subsection \<open>Round trip\<close>

lemma read_txt_roundtrip:
  assumes "list_all (\<lambda>s. length s \<le> 255) ss"
    "rest r = concat (map (\<lambda>s. of_nat (length s) # s) ss) @ ys"
    "e = rpos r + length (concat (map (\<lambda>s. of_nat (length s) # s) ss) :: u8 list)"
  shows "read_txt e r acc = Inr (acc @ ss, r\<lparr>rpos := e\<rparr>)"
  using assms
proof (induction ss arbitrary: r acc)
  case Nil
  then show ?case by (subst read_txt.simps) simp
next
  case (Cons s ss)
  have u: "unat (of_nat (length s) :: u8) = length s"
    using Cons.prems(1) by (intro unat_of_nat_u8) simp
  have "read_u8 r = Inr (of_nat (length s), adv 1 r)"
    using Cons.prems(2) by (intro read_u8_rest) simp
  moreover have "read_bytes (length s) (adv 1 r) = Inr (s, adv (1 + length s) r)"
    using Cons.prems(2) by (subst read_bytes_rest; simp add: rest_adv)
  moreover have "read_txt e (adv (1 + length s) r) (acc @ [s]) =
      Inr ((acc @ [s]) @ ss, (adv (1 + length s) r)\<lparr>rpos := e\<rparr>)"
    using Cons.prems by (intro Cons.IH) (auto simp: rest_adv)
  ultimately show ?case
    using Cons.prems(3) u by (subst read_txt.simps) (simp add: adv_def)
qed

lemma soa_roundtrip:
  assumes "rdata_ok (RD_SOA s)" "rest r = rdata_wire (RD_SOA s) @ ys"
  shows "soa_read msg r = Inr (s, adv (length (rdata_wire (RD_SOA s))) r)"
proof -
  let ?a = "length (name_to_wire (soa_mname s))" and ?b = "length (name_to_wire (soa_rname s))"
  note rest = assms(2) [simplified]
  have n: "read_name r msg = Inr (soa_mname s, adv ?a r)"
    "read_name (adv ?a r) msg = Inr (soa_rname s, adv (?a + ?b) r)"
    using rest assms(1) by (subst read_name_roundtrip; simp add: rest_adv)+
  define p where "p = adv (?a + ?b) r"
  have "rest p = concat (map u32_to_be_bytes
      [soa_serial s, soa_refresh s, soa_retry s, soa_expire s, soa_minimum s]) @ ys"
    using rest by (simp add: p_def rest_adv)
  then have "read_u32 p = Inr (soa_serial s, adv 4 p)"
    "read_u32 (adv 4 p) = Inr (soa_refresh s, adv 8 p)"
    "read_u32 (adv 8 p) = Inr (soa_retry s, adv 12 p)"
    "read_u32 (adv 12 p) = Inr (soa_expire s, adv 16 p)"
    "read_u32 (adv 16 p) = Inr (soa_minimum s, adv 20 p)"
    by (subst read_u32_enc; simp add: rest_adv)+
  then have "soa_read msg r = Inr (s, adv 20 p)"
    using n by (simp add: soa_read_def flip: p_def)
  then show ?thesis by (simp add: p_def add_ac)
qed

lemma mx_roundtrip:
  assumes "rdata_ok (RD_MX m)" "rest r = rdata_wire (RD_MX m) @ ys"
  shows "mx_read msg r = Inr (m, adv (length (rdata_wire (RD_MX m))) r)"
proof -
  have "read_u16 r = Inr (mx_preference m, adv 2 r)"
    using assms by (intro read_u16_enc) simp
  moreover have "read_name (adv 2 r) msg = Inr (mx_exchange m, adv (2 + length (name_to_wire (mx_exchange m))) r)"
    using assms by (subst read_name_roundtrip; simp add: rest_adv)
  ultimately show ?thesis by (simp add: mx_read_def)
qed

lemma srv_roundtrip:
  assumes "rdata_ok (RD_SRV s)" "rest r = rdata_wire (RD_SRV s) @ ys"
  shows "srv_read msg r = Inr (s, adv (length (rdata_wire (RD_SRV s))) r)"
proof -
  note rest = assms(2) [simplified]
  have "read_u16 r = Inr (srv_priority s, adv 2 r)"
    "read_u16 (adv 2 r) = Inr (srv_weight s, adv 4 r)"
    "read_u16 (adv 4 r) = Inr (srv_port s, adv 6 r)"
    using rest by (subst read_u16_enc; simp add: rest_adv)+
  moreover have "read_name (adv 6 r) msg = Inr (srv_target s, adv (6 + length (name_to_wire (srv_target s))) r)"
    using rest assms(1) by (subst read_name_roundtrip; simp add: rest_adv)
  ultimately show ?thesis by (simp add: srv_read_def eval_nat_numeral)
qed

lemma svcb_roundtrip:
  assumes "rdata_ok (RD_SVCB s)" "rest r = rdata_wire (RD_SVCB s) @ ys"
    "e = rpos r + length (rdata_wire (RD_SVCB s))"
  shows "read_svcb msg e r = Inr (s, adv (length (rdata_wire (RD_SVCB s))) r)"
proof -
  let ?a = "length (name_to_wire (svcb_target s))"
  note rest = assms(2) [simplified]
  have "read_u16 r = Inr (svcb_priority s, adv 2 r)"
    using rest by (intro read_u16_enc)
  moreover have "read_name (adv 2 r) msg = Inr (svcb_target s, adv (2 + ?a) r)"
    using rest assms(1) by (subst read_name_roundtrip; simp add: rest_adv)
  moreover have "read_bytes (length (svcb_params s)) (adv (2 + ?a) r) =
      Inr (svcb_params s, adv (2 + ?a + length (svcb_params s)) r)"
    using rest by (subst read_bytes_rest; simp add: rest_adv)
  ultimately show ?thesis
    using assms(3) by (simp add: read_svcb_def)
qed

lemma rdata_dispatch_roundtrip:
  assumes "rdata_ok rd" "rest r = rdata_wire rd @ ys" "unat rdlen = length (rdata_wire rd)"
    "\<forall>opt. rd \<noteq> RD_OPT opt"
  shows "rdata_dispatch (rdata_type rd) rdlen (rpos r + unat rdlen) msg r =
    Inr (rd, adv (unat rdlen) r)"
proof -
  have len4: "rdlen = 4" if "unat rdlen = 4" using that by (simp add: word_unat_eq_iff)
  have len16: "rdlen = 16" if "unat rdlen = 16" using that by (simp add: word_unat_eq_iff)
  show ?thesis
  proof (cases rd)
    case (RD_A ip)
    with assms len4 show ?thesis by (simp add: read_bytes_rest)
  next
    case (RD_AAAA ip)
    with assms len16 show ?thesis by (simp add: read_bytes_rest)
  next
    case (RD_TXT ss)
    with assms read_txt_roundtrip [of ss r ys _ "[]"] show ?thesis by (simp add: adv_def)
  next
    case (RD_HTTPS s)
    with assms svcb_roundtrip [of s r ys "rpos r + unat rdlen" msg] show ?thesis by simp
  next
    case (RD_SVCB s)
    with assms svcb_roundtrip [of s r ys "rpos r + unat rdlen" msg] show ?thesis by simp
  next
    case (RD_SOA s)
    with assms soa_roundtrip [of s r ys msg] show ?thesis by simp
  next
    case (RD_MX s)
    with assms mx_roundtrip [of s r ys msg] show ?thesis by simp
  next
    case (RD_SRV s)
    with assms srv_roundtrip [of s r ys msg] show ?thesis by simp
  qed (use assms in \<open>simp_all add: read_name_roundtrip read_bytes_rest\<close>)
qed

lemma rdata_read_roundtrip:
  assumes "rdata_ok rd" "rest r = rdata_wire rd @ ys" "unat rdlen = length (rdata_wire rd)"
    "\<forall>opt. rd \<noteq> RD_OPT opt" "length msg = length (rbuf r)" "reader_ok r"
  shows "rdata_read (rdata_type rd) rdlen msg r = Inr (rd, adv (unat rdlen) r)"
  using rdata_dispatch_roundtrip [OF assms(1-4)] assms rest_length [OF assms(6)]
  by (simp add: rdata_read_def)

section \<open>The record codec\<close>

text \<open>
  The record data belongs to the record type; the length fits RDLENGTH; an OPT record carries
  in CLASS and TTL what its parsed fields say, since the writer encodes only the latter.
\<close>

definition rr_ok :: "resource_record \<Rightarrow> bool" where
  "rr_ok rr \<longleftrightarrow>
     name_ok (rr_name rr) \<and> record_type_ok (rr_type rr) \<and> record_class_ok (rr_class rr) \<and>
     rdata_ok (rr_rdata rr) \<and> rdata_type (rr_rdata rr) = rr_type rr \<and>
     length (rdata_wire (rr_rdata rr)) \<le> 65535 \<and>
     (case rr_rdata rr of
        RD_OPT opt \<Rightarrow>
          rr_class rr = record_class_from_u16 (opt_udp_payload_size opt) \<and>
          rr_ttl rr = opt_ttl_field opt
      | _ \<Rightarrow> True)"

text \<open>For an OPT record CLASS and TTL are the ones of the parsed fields.\<close>

definition rr_wire :: "resource_record \<Rightarrow> u8 list" where
  "rr_wire rr =
     name_to_wire (rr_name rr) @ u16_to_be_bytes (record_type_as_u16 (rr_type rr)) @
     u16_to_be_bytes (record_class_as_u16 (rr_class rr)) @ u32_to_be_bytes (rr_ttl rr) @
     u16_to_be_bytes (of_nat (length (rdata_wire (rr_rdata rr)))) @ rdata_wire (rr_rdata rr)"

lemma ucast_and_255: "ucast (w AND 0xFF :: u16) = (ucast w :: u8)"
proof -
  have mask: "(0xFF :: u16) = mask 8" by (simp add: mask_eq_exp_minus_1)
  show ?thesis unfolding mask by (rule bit_word_eqI) (simp add: bit_simps)
qed

lemma patch_rdlength:
  "((xs @ u16_to_be_bytes 0 @ ys) [length xs := a]) [length xs + 1 := b] = xs @ [a, b] @ ys"
  by (simp add: u16_to_be_bytes_def list_update_append)

definition rr_write_prefix :: "resource_record \<Rightarrow> wire_writer \<Rightarrow> wire_writer" where
  "rr_write_prefix rr w =
     write_u32 (rr_ttl rr) (write_u16 (record_class_as_u16 (rr_class rr))
       (write_u16 (record_type_as_u16 (rr_type rr)) (write_wire_uncompressed (rr_name rr) w)))"

lemma rr_write_to_plain:
  fixes rr w
  assumes "\<forall>opt. rr_rdata rr \<noteq> RD_OPT opt"
  defines "w1 \<equiv> rr_write_prefix rr w"
  defines "w2 \<equiv> rdata_write_body (rr_rdata rr) (write_u16 0 w1)"
  defines "len \<equiv> of_nat (length (wbuf w2) - length (wbuf (write_u16 0 w1))) :: u16"
  shows "wbuf (rr_write_to rr w) =
    ((wbuf w2) [length (wbuf w1) := ucast (drop_bit 8 len)]) [length (wbuf w1) + 1 := ucast (len AND 0xFF)]"
proof (cases "rr_rdata rr")
  case (RD_OPT x)
  with assms(1) show ?thesis by simp
qed (simp_all add: rr_write_to_def rdata_write_def Let_def writer_pos_def rr_write_prefix_def assms
  wbuf_patch_u8 del: rdata_write_body.simps)

lemma wbuf_rr_write_to [wire_simps]:
  assumes "rr_ok rr"
  shows "wbuf (rr_write_to rr w) = wbuf w @ rr_wire rr"
proof (cases "\<exists>opt. rr_rdata rr = RD_OPT opt")
  case True
  with assms show ?thesis
    by (auto simp: rr_write_to_def rr_ok_def rr_wire_def wire_simps name_to_wire_eq)
next
  case False
  let ?w = "rr_write_prefix rr w"
  let ?len = "of_nat (length (rdata_wire (rr_rdata rr))) :: u16"
  have ok: "rdata_ok (rr_rdata rr)" "name_ok (rr_name rr)" using assms by (auto simp: rr_ok_def)
  have "wbuf (rr_write_to rr w) = ((wbuf ?w @ u16_to_be_bytes 0 @ rdata_wire (rr_rdata rr))
      [length (wbuf ?w) := ucast (drop_bit 8 ?len)]) [length (wbuf ?w) + 1 := ucast (?len AND 0xFF)]"
    using rr_write_to_plain [of rr w] False ok by (simp add: wire_simps)
  also have "\<dots> = wbuf w @ rr_wire rr"
    unfolding patch_rdlength
    using ok by (simp add: wire_simps rr_write_prefix_def rr_wire_def name_to_wire_eq
        u16_to_be_bytes_def ucast_and_255)
  finally show ?thesis .
qed

lemma opt_ttl_fields:
  "ucast (drop_bit 24 (opt_ttl_field opt) AND 0xFF) = opt_extended_rcode opt"
  "ucast (drop_bit 16 (opt_ttl_field opt) AND 0xFF) = opt_version opt"
  "opt_ttl_field opt AND 0x8000 \<noteq> 0 \<longleftrightarrow> opt_do_flag opt"
proof -
  have mask: "(0xFF :: u32) = mask 8" by (simp add: mask_eq_exp_minus_1)
  have f: "bit (opt_ttl_field opt) n \<longleftrightarrow> 24 \<le> n \<and> n < 32 \<and> bit (opt_extended_rcode opt) (n - 24) \<or>
      16 \<le> n \<and> n < 24 \<and> bit (opt_version opt) (n - 16) \<or> opt_do_flag opt \<and> n = 15" for n
  proof -
    have e: "bit (0x8000 :: u32) n \<longleftrightarrow> n = 15" by (rule bit_single) simp_all
    show ?thesis
      unfolding opt_ttl_field_def Let_def bit_or_flag e
      by (auto simp: bit_or_iff bit_push_bit_iff bit_unsigned_iff dest: bit_imp_le_length)
  qed
  show "ucast (drop_bit 24 (opt_ttl_field opt) AND 0xFF) = opt_extended_rcode opt"
    unfolding mask by (rule bit_word_eqI) (auto simp: bit_simps f)
  show "ucast (drop_bit 16 (opt_ttl_field opt) AND 0xFF) = opt_version opt"
    unfolding mask by (rule bit_word_eqI) (auto simp: bit_simps f)
  have "opt_ttl_field opt AND 0x8000 \<noteq> 0 \<longleftrightarrow> bit (opt_ttl_field opt) 15"
    by (rule and_single) simp
  then show "opt_ttl_field opt AND 0x8000 \<noteq> 0 \<longleftrightarrow> opt_do_flag opt" by (simp add: f)
qed

lemma rr_read_moves: "rr_read msg r = Inr (rr, r') \<Longrightarrow> moves_forward r r'"
  by (auto simp: rr_read_def result_simps Let_def split: if_splits
      dest!: reads_move rdata_read_D read_name_moves) (simp_all add: moves_forward_def)

lemma rr_read_type:
  "rr_read msg r = Inr (rr, r') \<Longrightarrow>
   name_ok (rr_name rr) \<and> record_type_ok (rr_type rr) \<and> record_class_ok (rr_class rr) \<and>
   rdata_ok (rr_rdata rr) \<and> rdata_type (rr_rdata rr) = rr_type rr"
  by (auto simp: rr_read_def result_simps Let_def record_type_ok_iff [of RT_OPT] split: if_splits
      dest: rdata_read_D read_name_ok)

lemma rr_roundtrip:
  assumes "rr_ok rr" "reader_ok r" "rest r = rr_wire rr @ ys"
  shows "rr_read (rbuf r) r = Inr (rr, adv (length (rr_wire rr)) r)"
proof -
  let ?n = "length (name_to_wire (rr_name rr))" and ?m = "length (rdata_wire (rr_rdata rr))"
  note ok = assms(1) [unfolded rr_ok_def]
  define p where "p = adv ?n r"
  have n: "read_name r (rbuf r) = Inr (rr_name rr, p)"
    using assms ok by (simp add: read_name_roundtrip rr_wire_def p_def)
  have rest: "rest p = u16_to_be_bytes (record_type_as_u16 (rr_type rr)) @
     u16_to_be_bytes (record_class_as_u16 (rr_class rr)) @ u32_to_be_bytes (rr_ttl rr) @
     u16_to_be_bytes (of_nat ?m) @ rdata_wire (rr_rdata rr) @ ys"
    using assms(3) by (simp add: p_def rest_adv rr_wire_def)
  then have f: "read_u16 p = Inr (record_type_as_u16 (rr_type rr), adv 2 p)"
    "read_u16 (adv 2 p) = Inr (record_class_as_u16 (rr_class rr), adv 4 p)"
    "read_u32 (adv 4 p) = Inr (rr_ttl rr, adv 8 p)"
    "read_u16 (adv 8 p) = Inr (of_nat ?m, adv 10 p)"
    by (simp_all add: read_u16_enc read_u32_enc rest_adv)
  have u: "unat (of_nat ?m :: u16) = ?m" using ok by (intro unat_of_nat_u16) simp
  have rd: "rest (adv 10 p) = rdata_wire (rr_rdata rr) @ ys" using rest by (simp add: rest_adv)
  have okp: "reader_ok (adv 10 p)"
    using assms by (auto simp: p_def rr_wire_def intro!: reader_ok_adv)
  have "rr_read (rbuf r) r = Inr (rr, adv ?m (adv 10 p))"
  proof (cases "\<exists>opt. rr_rdata rr = RD_OPT opt")
    case True
    then obtain opt where opt: "rr_rdata rr = RD_OPT opt" by blast
    with ok have ty: "rr_type rr = RT_OPT" and cl: "rr_class rr = record_class_from_u16 (opt_udp_payload_size opt)"
      and ttl: "rr_ttl rr = opt_ttl_field opt" by auto
    have "read_bytes ?m (adv 10 p) = Inr (opt_options opt, adv ?m (adv 10 p))"
      using rd opt by (intro read_bytes_rest) auto
    with n f u ty cl ttl opt show ?thesis
      by (simp add: rr_read_def record_type_from_u16_def opt_ttl_fields)
  next
    case False
    then have ty: "rr_type rr \<noteq> RT_OPT" using ok by (cases "rr_rdata rr") auto
    have "rdata_read (rr_type rr) (of_nat ?m) (rbuf r) (adv 10 p) = Inr (rr_rdata rr, adv ?m (adv 10 p))"
      using rdata_read_roundtrip [of "rr_rdata rr" "adv 10 p" ys "of_nat ?m" "rbuf r"] ok False u rd okp
      by (simp add: p_def)
    with n f u ok ty show ?thesis
      by (simp add: rr_read_def record_type_ok_def record_class_ok_def)
  qed
  then show ?thesis by (simp add: p_def rr_wire_def add_ac)
qed

interpretation rr_codec: wire_codec "\<lambda>r. rr_read (rbuf r) r" rr_wire rr_ok
  by unfold_locales (simp_all add: rr_read_moves rr_roundtrip)

end
