(* ===== verification/Message.thy ===== *)
theory Message
  imports Rr
begin

text \<open>
  Complete DNS messages, \<^verbatim>\<open>dns-protocol/src/message.rs\<close>: the constructors, the decoder with
  its four counted sections, the encoder, and the operations that keep the header counts in
  step with the sections. The codec of the whole message is assembled from the interpretations
  of \<open>wire_codec\<close> for headers, questions and records.
\<close>

section \<open>The type and its constructors\<close>

record dns_message =
  m_header :: dns_header
  m_questions :: "dns_question list"
  m_answers :: "resource_record list"
  m_authorities :: "resource_record list"
  m_additionals :: "resource_record list"

definition MAX_MESSAGE_SIZE :: nat where "MAX_MESSAGE_SIZE = 512"
definition MAX_EDNS_MESSAGE_SIZE :: nat where "MAX_EDNS_MESSAGE_SIZE = 4096"

definition message_query :: "u16 \<Rightarrow> dns_question \<Rightarrow> dns_message" where
  "message_query ident question =
     \<lparr>m_header = (header_query ident)\<lparr>h_qdcount := 1\<rparr>, m_questions = [question],
      m_answers = [], m_authorities = [], m_additionals = []\<rparr>"

definition message_response :: "dns_message \<Rightarrow> dns_message" where
  "message_response query =
     \<lparr>m_header = (header_response (h_id (m_header query)) (h_rd (m_header query)))
        \<lparr>h_qdcount := of_nat (length (m_questions query))\<rparr>,
      m_questions = m_questions query, m_answers = [], m_authorities = [], m_additionals = []\<rparr>"

section \<open>Decoding\<close>

definition from_wire :: "u8 list \<Rightarrow> protocol_error + dns_message" where
  "from_wire data =
     (if length data < HEADER_WIRE_SIZE then Inl (BufferUnderflow HEADER_WIRE_SIZE (length data))
      else rbind (header_read (reader_new data)) (\<lambda>(header, r).
        rbind (read_many (question_read data) (unat (h_qdcount header)) r) (\<lambda>(questions, r).
        rbind (read_many (rr_read data) (unat (h_ancount header)) r) (\<lambda>(answers, r).
        rbind (read_many (rr_read data) (unat (h_nscount header)) r) (\<lambda>(authorities, r).
        rbind (read_many (rr_read data) (unat (h_arcount header)) r) (\<lambda>(additionals, r).
        Inr \<lparr>m_header = header, m_questions = questions, m_answers = answers,
             m_authorities = authorities, m_additionals = additionals\<rparr>))))))"

section \<open>Encoding\<close>

definition rr_size_estimate :: "resource_record \<Rightarrow> nat" where
  "rr_size_estimate rr = wire_len (rr_name rr) + 10 + 64"

definition wire_size_estimate :: "dns_message \<Rightarrow> nat" where
  "wire_size_estimate m =
     max (12 + sum_list (map question_wire_len (m_questions m))
          + sum_list (map rr_size_estimate (m_answers m))
          + sum_list (map rr_size_estimate (m_authorities m))
          + sum_list (map rr_size_estimate (m_additionals m))) 512"

definition message_write_to :: "dns_message \<Rightarrow> wire_writer \<Rightarrow> wire_writer" where
  "message_write_to m w =
     (let w = header_write (m_header m) w;
          w = fold question_write (m_questions m) w;
          w = fold rr_write_to (m_answers m) w;
          w = fold rr_write_to (m_authorities m) w
      in fold rr_write_to (m_additionals m) w)"

definition to_wire :: "dns_message \<Rightarrow> u8 list" where
  "to_wire m = wbuf (message_write_to m writer_new)"

section \<open>Section counts\<close>

definition update_counts :: "dns_message \<Rightarrow> dns_message" where
  "update_counts m =
     m\<lparr>m_header := (m_header m)
        \<lparr>h_qdcount := of_nat (length (m_questions m)),
         h_ancount := of_nat (length (m_answers m)),
         h_nscount := of_nat (length (m_authorities m)),
         h_arcount := of_nat (length (m_additionals m))\<rparr>\<rparr>"

definition is_response :: "dns_message \<Rightarrow> bool" where
  "is_response m = h_qr (m_header m)"

definition is_truncated :: "dns_message \<Rightarrow> bool" where
  "is_truncated m = h_tc (m_header m)"

definition first_question :: "dns_message \<Rightarrow> dns_question option" where
  "first_question m = (case m_questions m of [] \<Rightarrow> None | q # _ \<Rightarrow> Some q)"

definition add_answer :: "resource_record \<Rightarrow> dns_message \<Rightarrow> dns_message" where
  "add_answer rr m =
     (let answers = m_answers m @ [rr] in
      m\<lparr>m_answers := answers, m_header := (m_header m)\<lparr>h_ancount := of_nat (length answers)\<rparr>\<rparr>)"

definition add_authority :: "resource_record \<Rightarrow> dns_message \<Rightarrow> dns_message" where
  "add_authority rr m =
     (let authorities = m_authorities m @ [rr] in
      m\<lparr>m_authorities := authorities,
        m_header := (m_header m)\<lparr>h_nscount := of_nat (length authorities)\<rparr>\<rparr>)"

definition add_additional :: "resource_record \<Rightarrow> dns_message \<Rightarrow> dns_message" where
  "add_additional rr m =
     (let additionals = m_additionals m @ [rr] in
      m\<lparr>m_additionals := additionals,
        m_header := (m_header m)\<lparr>h_arcount := of_nat (length additionals)\<rparr>\<rparr>)"

section \<open>Well-formed messages\<close>

text \<open>Each count field is the length of its section.\<close>

definition counts_ok :: "dns_message \<Rightarrow> bool" where
  "counts_ok m \<longleftrightarrow>
     unat (h_qdcount (m_header m)) = length (m_questions m) \<and>
     unat (h_ancount (m_header m)) = length (m_answers m) \<and>
     unat (h_nscount (m_header m)) = length (m_authorities m) \<and>
     unat (h_arcount (m_header m)) = length (m_additionals m)"

definition message_ok :: "dns_message \<Rightarrow> bool" where
  "message_ok m \<longleftrightarrow>
     header_ok (m_header m) \<and> counts_ok m \<and> list_all question_ok (m_questions m) \<and>
     list_all rr_ok (m_answers m) \<and> list_all rr_ok (m_authorities m) \<and>
     list_all rr_ok (m_additionals m)"

definition message_wire :: "dns_message \<Rightarrow> u8 list" where
  "message_wire m =
     header_wire (m_header m) @ concat (map question_wire (m_questions m)) @
     concat (map rr_wire (m_answers m)) @ concat (map rr_wire (m_authorities m)) @
     concat (map rr_wire (m_additionals m))"

lemma wbuf_fold_question_write [wire_simps]:
  "list_all question_ok qs \<Longrightarrow>
   wbuf (fold question_write qs w) = wbuf w @ concat (map question_wire qs)"
  by (induction qs arbitrary: w) (auto simp: wire_simps question_ok_def)

lemma wbuf_fold_rr_write [wire_simps]:
  "list_all rr_ok rrs \<Longrightarrow> wbuf (fold rr_write_to rrs w) = wbuf w @ concat (map rr_wire rrs)"
  by (induction rrs arbitrary: w) (auto simp: wire_simps)

lemma to_wire_eq: "message_ok m \<Longrightarrow> to_wire m = message_wire m"
  by (simp add: to_wire_def message_write_to_def message_wire_def message_ok_def Let_def wire_simps)

lemma read_many_rr:
  "rbuf r = data \<Longrightarrow> read_many (rr_read data) n r = read_many (\<lambda>r. rr_read (rbuf r) r) n r"
  by (rule rr_codec.read_many_cong) auto

lemma read_many_rr_roundtrip:
  assumes "list_all rr_ok xs" "reader_ok r" "rbuf r = data" "rest r = concat (map rr_wire xs) @ ys"
  shows "read_many (rr_read data) (length xs) r = Inr (xs, adv (length (concat (map rr_wire xs))) r)"
  using rr_codec.read_many_roundtrip [OF assms(1,2,4)] read_many_rr [OF assms(3)] by simp

lemma from_wire_message_wire:
  assumes ok: "message_ok m" and data: "data = message_wire m @ ys"
  shows "from_wire data = Inr m"
proof -
  note mok = ok [unfolded message_ok_def counts_ok_def]
  let ?q = "length (concat (map question_wire (m_questions m)))"
  let ?a = "length (concat (map rr_wire (m_answers m)))"
  let ?u = "length (concat (map rr_wire (m_authorities m)))"
  let ?d = "length (concat (map rr_wire (m_additionals m)))"
  let ?r = "reader_new data"
  note wire = data [unfolded message_wire_def]
  have rb: "rbuf ?r = data" by (simp add: reader_new_def)
  have rest0: "rest ?r = header_wire (m_header m) @ concat (map question_wire (m_questions m)) @
     concat (map rr_wire (m_answers m)) @ concat (map rr_wire (m_authorities m)) @
     concat (map rr_wire (m_additionals m)) @ ys"
    using wire by simp
  define r1 where "r1 = adv HEADER_WIRE_SIZE ?r"
  define r2 where "r2 = adv ?q r1"
  define r3 where "r3 = adv ?a r2"
  define r4 where "r4 = adv ?u r3"
  have rests: "rest r1 = concat (map question_wire (m_questions m)) @
     concat (map rr_wire (m_answers m)) @ concat (map rr_wire (m_authorities m)) @
     concat (map rr_wire (m_additionals m)) @ ys"
    "rest r2 = concat (map rr_wire (m_answers m)) @ concat (map rr_wire (m_authorities m)) @
     concat (map rr_wire (m_additionals m)) @ ys"
    "rest r3 = concat (map rr_wire (m_authorities m)) @ concat (map rr_wire (m_additionals m)) @ ys"
    "rest r4 = concat (map rr_wire (m_additionals m)) @ ys"
    using rest0 by (simp_all add: r1_def r2_def r3_def r4_def rest_adv)
  have oks: "reader_ok r1" "reader_ok r2" "reader_ok r3" "reader_ok r4"
    using rest0 rests by (auto simp: r1_def r2_def r3_def r4_def intro!: reader_ok_adv)
  have rbs: "rbuf r1 = data" "rbuf r2 = data" "rbuf r3 = data" "rbuf r4 = data"
    using rb by (simp_all add: r1_def r2_def r3_def r4_def)
  have "header_read ?r = Inr (m_header m, r1)"
    using header_codec.roundtrip [OF _ _ rest0] mok by (simp add: r1_def)
  moreover have "read_many (question_read data) (length (m_questions m)) r1 = Inr (m_questions m, r2)"
    using question_codec.read_many_roundtrip [OF _ oks(1) rests(1)] mok by (simp add: r2_def)
  moreover have "read_many (rr_read data) (length (m_answers m)) r2 = Inr (m_answers m, r3)"
    using read_many_rr_roundtrip [OF _ oks(2) rbs(2) rests(2)] mok by (simp add: r3_def)
  moreover have "read_many (rr_read data) (length (m_authorities m)) r3 = Inr (m_authorities m, r4)"
    using read_many_rr_roundtrip [OF _ oks(3) rbs(3) rests(3)] mok by (simp add: r4_def)
  moreover have "read_many (rr_read data) (length (m_additionals m)) r4 =
      Inr (m_additionals m, adv ?d r4)"
    using read_many_rr_roundtrip [OF _ oks(4) rbs(4) rests(4)] mok by simp
  moreover have "\<not> length data < HEADER_WIRE_SIZE"
    using wire by simp
  ultimately show ?thesis
    using mok by (simp add: from_wire_def)
qed

text \<open>What decoding guarantees of a record.\<close>

definition rr_typed :: "resource_record \<Rightarrow> bool" where
  "rr_typed rr \<longleftrightarrow>
     name_ok (rr_name rr) \<and> record_type_ok (rr_type rr) \<and> record_class_ok (rr_class rr) \<and>
     rdata_ok (rr_rdata rr) \<and> rdata_type (rr_rdata rr) = rr_type rr"

lemma from_wire_D:
  assumes "from_wire data = Inr m"
  shows "header_ok (m_header m) \<and> counts_ok m \<and> list_all question_ok (m_questions m) \<and>
    list_all rr_typed (m_answers m @ m_authorities m @ m_additionals m) \<and>
    HEADER_WIRE_SIZE \<le> length data"
proof -
  from assms obtain r1 r2 r3 r4 r5 where
    h: "header_read (reader_new data) = Inr (m_header m, r1)"
    and q: "read_many (question_read data) (unat (h_qdcount (m_header m))) r1 = Inr (m_questions m, r2)"
    and a: "read_many (rr_read data) (unat (h_ancount (m_header m))) r2 = Inr (m_answers m, r3)"
    and u: "read_many (rr_read data) (unat (h_nscount (m_header m))) r3 = Inr (m_authorities m, r4)"
    and d: "read_many (rr_read data) (unat (h_arcount (m_header m))) r4 = Inr (m_additionals m, r5)"
    and l: "HEADER_WIRE_SIZE \<le> length data"
    by (auto simp: from_wire_def result_simps split: if_splits)
  have rr: "wire_decoder (rr_read data)" by unfold_locales (rule rr_read_moves)
  note len = question_codec.read_many_length [OF q] wire_decoder.read_many_length [OF rr a]
    wire_decoder.read_many_length [OF rr u] wire_decoder.read_many_length [OF rr d]
  have "list_all question_ok (m_questions m)"
    by (rule question_codec.read_many_all [OF _ q]) (rule question_read_ok)
  moreover have "list_all rr_typed (m_answers m)" "list_all rr_typed (m_authorities m)"
    "list_all rr_typed (m_additionals m)"
    by (rule wire_decoder.read_many_all [OF rr _ a] wire_decoder.read_many_all [OF rr _ u]
        wire_decoder.read_many_all [OF rr _ d], simp add: rr_typed_def rr_read_type)+
  ultimately show ?thesis
    using len l header_read_ok [OF h] by (simp add: counts_ok_def)
qed

lemma from_wire_short:
  "length data < HEADER_WIRE_SIZE \<Longrightarrow>
   from_wire data = Inl (BufferUnderflow HEADER_WIRE_SIZE (length data))"
  by (simp add: from_wire_def)

section \<open>The counts stay in step\<close>

lemma update_counts_ok:
  assumes "length (m_questions m) < 65536" "length (m_answers m) < 65536"
    "length (m_authorities m) < 65536" "length (m_additionals m) < 65536"
  shows "counts_ok (update_counts m)"
  using assms by (simp add: counts_ok_def update_counts_def unat_of_nat_u16)

lemma add_answer_ok:
  assumes "message_ok m" "rr_ok rr" "length (m_answers m) < 65535"
  shows "message_ok (add_answer rr m)"
  using assms unat_of_nat_u16 [of "length (m_answers m) + 1"]
  by (simp add: message_ok_def counts_ok_def add_answer_def header_ok_def)

lemma add_authority_ok:
  assumes "message_ok m" "rr_ok rr" "length (m_authorities m) < 65535"
  shows "message_ok (add_authority rr m)"
  using assms unat_of_nat_u16 [of "length (m_authorities m) + 1"]
  by (simp add: message_ok_def counts_ok_def add_authority_def header_ok_def)

lemma add_additional_ok:
  assumes "message_ok m" "rr_ok rr" "length (m_additionals m) < 65535"
  shows "message_ok (add_additional rr m)"
  using assms unat_of_nat_u16 [of "length (m_additionals m) + 1"]
  by (simp add: message_ok_def counts_ok_def add_additional_def header_ok_def)

lemma message_query_ok: "question_ok q \<Longrightarrow> message_ok (message_query i q)"
  using header_ok_query [of i]
  by (simp add: message_ok_def counts_ok_def message_query_def header_ok_def) (simp add: header_query_def)

lemma message_response_ok:
  assumes "message_ok m"
  shows "message_ok (message_response m)"
proof -
  have "length (m_questions m) < 65536"
    using assms u16_unat_less [of "h_qdcount (m_header m)"]
    by (simp add: message_ok_def counts_ok_def)
  then show ?thesis
    using assms header_ok_response [of "h_id (m_header m)" "h_rd (m_header m)"]
    by (simp add: message_ok_def counts_ok_def message_response_def header_ok_def unat_of_nat_u16)
      (simp add: header_response_def)
qed

section \<open>Properties\<close>

definition sample_record :: resource_record where
  "sample_record = \<lparr>rr_name = sample_name, rr_type = RT_A, rr_class = RC_In, rr_ttl = 300,
     rr_rdata = RD_A [192, 0, 2, 1]\<rparr>"

definition sample_query :: dns_message where
  "sample_query = message_query 7 (question_new sample_name (QT_Type RT_A) (QC_Class RC_In))"

lemma sample_query_ok: "message_ok sample_query"
  by code_simp

lemma sample_record_ok: "rr_ok sample_record"
proof -
  have "name_ok sample_name" "record_type_ok RT_A" "record_class_ok RC_In" by code_simp+
  then show ?thesis by (simp add: rr_ok_def sample_record_def)
qed

text \<open>C20: decoding the encoding of a well-formed message (fields within their bit widths, counts
  equal to the section lengths, records whose data belongs to their type and fits RDLENGTH)
  gives exactly that message back, whatever follows it in the buffer.\<close>

theorem message_roundtrip:
  assumes "message_ok m"
  shows "from_wire (to_wire m @ trailing) = Inr m"
  by (rule from_wire_message_wire [OF assms]) (simp add: to_wire_eq [OF assms])

theorem message_roundtrip_witness:
  "from_wire (to_wire (add_answer sample_record sample_query) @ [1, 2]) =
     Inr (add_answer sample_record sample_query)"
proof (rule message_roundtrip)
  show "message_ok (add_answer sample_record sample_query)"
    by (intro add_answer_ok sample_query_ok sample_record_ok) (simp add: sample_query_def message_query_def)
qed

text \<open>C21: every message the decoder accepts is well-formed: the header fields are within their
  bit widths, each section has as many entries as its count field says, the question and owner
  names are well-formed, the type and class codes are canonical, and the data of each record is
  of the record's own type with addresses of 4 or 16 octets and strings of at most 255
  bytes. Input shorter than a header is rejected.\<close>

theorem from_wire_well_formed:
  assumes "from_wire data = Inr m"
  shows "header_ok (m_header m) \<and> counts_ok m \<and> list_all question_ok (m_questions m) \<and>
    list_all rr_typed (m_answers m @ m_authorities m @ m_additionals m) \<and>
    HEADER_WIRE_SIZE \<le> length data"
  by (rule from_wire_D [OF assms])

theorem from_wire_well_formed_witness:
  "from_wire [0, 7, 1, 0, 0, 1, 0, 0, 0, 0, 0, 0, 3, 0x77, 0x77, 0x77, 1, 0x61, 0, 0, 1, 0, 1] =
     Inr sample_query \<and> counts_ok sample_query"
proof -
  have "from_wire [0, 7, 1, 0, 0, 1, 0, 0, 0, 0, 0, 0, 3, 0x77, 0x77, 0x77, 1, 0x61, 0, 0, 1, 0, 1] =
     Inr sample_query"
    by code_simp
  from from_wire_well_formed [OF this] this show ?thesis by blast
qed

text \<open>Building a response. The response to a well-formed query is well-formed, echoes the
  query's identifier, RD bit and questions, has the QR and RA bits set and no records; adding
  answers to a message keeps it well-formed as long as the 16-bit count does not overflow.\<close>

theorem response_mirrors_query:
  assumes "message_ok q" "list_all rr_ok rrs" "length rrs \<le> 65535"
  shows "let m = fold add_answer rrs (message_response q) in
    message_ok m \<and> m_answers m = rrs \<and> m_questions m = m_questions q \<and> is_response m \<and>
    h_id (m_header m) = h_id (m_header q) \<and> h_rd (m_header m) = h_rd (m_header q) \<and>
    h_ra (m_header m) \<and> m_authorities m = [] \<and> m_additionals m = []"
  using assms(2,3)
proof (induction rrs rule: rev_induct)
  case Nil
  then show ?case
    using message_response_ok [OF assms(1)]
    by (simp add: message_response_def header_response_def is_response_def)
next
  case (snoc rr rrs)
  let ?m = "fold add_answer rrs (message_response q)"
  from snoc have IH: "message_ok ?m" "m_answers ?m = rrs" "m_questions ?m = m_questions q"
    "is_response ?m" "h_id (m_header ?m) = h_id (m_header q)"
    "h_rd (m_header ?m) = h_rd (m_header q)" "h_ra (m_header ?m)" "m_authorities ?m = []"
    "m_additionals ?m = []"
    by (simp_all add: Let_def)
  moreover have "message_ok (add_answer rr ?m)"
    using snoc.prems IH by (intro add_answer_ok) auto
  ultimately show ?case
    by (simp add: Let_def) (simp add: add_answer_def Let_def is_response_def)
qed

theorem response_mirrors_query_witness:
  "message_ok (fold add_answer [sample_record] (message_response sample_query)) \<and>
   m_answers (fold add_answer [sample_record] (message_response sample_query)) = [sample_record]"
  using response_mirrors_query [of sample_query "[sample_record]"] sample_query_ok sample_record_ok
  by (simp add: Let_def)

text \<open>After \<^verbatim>\<open>update_counts\<close> the four count fields equal the section lengths, provided no
  section has 65536 entries or more; the sections themselves are unchanged.\<close>

theorem update_counts_correct:
  assumes "length (m_questions m) < 65536" "length (m_answers m) < 65536"
    "length (m_authorities m) < 65536" "length (m_additionals m) < 65536"
  shows "counts_ok (update_counts m) \<and> m_questions (update_counts m) = m_questions m \<and>
    m_answers (update_counts m) = m_answers m \<and> m_authorities (update_counts m) = m_authorities m \<and>
    m_additionals (update_counts m) = m_additionals m"
  using update_counts_ok [OF assms] by (simp add: update_counts_def)

theorem update_counts_correct_witness:
  "counts_ok (update_counts (sample_query\<lparr>m_answers := [sample_record]\<rparr>)) \<and>
   \<not> counts_ok (sample_query\<lparr>m_answers := [sample_record]\<rparr>)"
proof
  show "counts_ok (update_counts (sample_query\<lparr>m_answers := [sample_record]\<rparr>))"
    using update_counts_correct [of "sample_query\<lparr>m_answers := [sample_record]\<rparr>"]
    by (simp add: sample_query_def message_query_def)
qed code_simp

end
