(* ===== verification/Ip_Addr.thy ===== *)
theory Ip_Addr
  imports Prelude
begin

text \<open>
  IP addresses and the parser behind \<^verbatim>\<open>str::parse::<IpAddr>\<close> (and \<^verbatim>\<open>Ipv4Addr\<close>, \<^verbatim>\<open>Ipv6Addr\<close>) of
  Rust's standard library, which hosts files, inline host entries and the blackhole addresses
  go through. An address is the list of its octets, four or sixteen. A parser takes the input
  that is left and returns a value with the input behind it; on failure nothing is consumed.
\<close>

datatype ip_addr = V4 "u8 list" | V6 "u8 list"

fun is_ipv4 :: "ip_addr \<Rightarrow> bool" where
  "is_ipv4 (V4 _) = True"
| "is_ipv4 (V6 _) = False"

fun is_ipv6 :: "ip_addr \<Rightarrow> bool" where
  "is_ipv6 (V6 _) = True"
| "is_ipv6 (V4 _) = False"

fun ip_ok :: "ip_addr \<Rightarrow> bool" where
  "ip_ok (V4 os) \<longleftrightarrow> length os = 4"
| "ip_ok (V6 os) \<longleftrightarrow> length os = 16"

type_synonym 'a ip_parser = "string \<Rightarrow> ('a \<times> string) option"

section \<open>Numbers\<close>

definition digit_value :: "int \<Rightarrow> char \<Rightarrow> int option" where
  "digit_value radix c =
     (let n = int (of_char c);
          v = (if 48 \<le> n \<and> n \<le> 57 then Some (n - 48)
               else if 97 \<le> n \<and> n \<le> 122 then Some (n - 87)
               else if 65 \<le> n \<and> n \<le> 90 then Some (n - 55)
               else None)
      in case v of Some d \<Rightarrow> if d < radix then Some d else None | None \<Rightarrow> None)"

text \<open>The digit loop: it fails when the number leaves the range below \<open>limit\<close> or has more than
  \<open>max_digits\<close> digits.\<close>

fun read_digits :: "int \<Rightarrow> int \<Rightarrow> nat \<Rightarrow> int \<Rightarrow> nat \<Rightarrow> string \<Rightarrow> (int \<times> nat \<times> string) option" where
  "read_digits radix limit max_digits result count [] = Some (result, count, [])"
| "read_digits radix limit max_digits result count (c # cs) =
     (case digit_value radix c of
        None \<Rightarrow> Some (result, count, c # cs)
      | Some d \<Rightarrow>
          if result * radix + d \<ge> limit \<or> count + 1 > max_digits then None
          else read_digits radix limit max_digits (result * radix + d) (count + 1) cs)"

definition read_number :: "int \<Rightarrow> int \<Rightarrow> nat \<Rightarrow> bool \<Rightarrow> int ip_parser" where
  "read_number radix limit max_digits allow_zero_prefix s =
     (case read_digits radix limit max_digits 0 0 s of
        None \<Rightarrow> None
      | Some (result, count, rest) \<Rightarrow>
          if count = 0 then None
          else if \<not> allow_zero_prefix \<and> s \<noteq> [] \<and> hd s = CHR ''0'' \<and> count > 1 then None
          else Some (result, rest))"

text \<open>A separator before every element but the first.\<close>

definition read_separator :: "char \<Rightarrow> nat \<Rightarrow> 'a ip_parser \<Rightarrow> 'a ip_parser" where
  "read_separator sep index inner s =
     (if index = 0 then inner s
      else case s of c # cs \<Rightarrow> if c = sep then inner cs else None | [] \<Rightarrow> None)"

section \<open>IPv4\<close>

fun read_octets :: "nat \<Rightarrow> nat \<Rightarrow> u8 list ip_parser" where
  "read_octets 0 i s = Some ([], s)"
| "read_octets (Suc n) i s =
     (case read_separator CHR ''.'' i (read_number 10 256 3 False) s of
        None \<Rightarrow> None
      | Some (v, s') \<Rightarrow>
          (case read_octets n (i + 1) s' of
             None \<Rightarrow> None
           | Some (os, s'') \<Rightarrow> Some (of_int v # os, s'')))"

definition read_ipv4_addr :: "u8 list ip_parser" where
  "read_ipv4_addr = read_octets 4 0"

section \<open>IPv6\<close>

text \<open>Groups of four hexadecimal digits, as two octets each; where room for two groups is left a
  dotted IPv4 address may stand. The flag of the result tells that it did.\<close>

fun read_groups :: "nat \<Rightarrow> nat \<Rightarrow> string \<Rightarrow> u8 list \<times> bool \<times> string" where
  "read_groups 0 i s = ([], False, s)"
| "read_groups (Suc n) i s =
     (case (if n > 0 then read_separator CHR '':'' i read_ipv4_addr s else None) of
        Some (v4, s') \<Rightarrow> (v4, True, s')
      | None \<Rightarrow>
          (case read_separator CHR '':'' i (read_number 16 65536 4 True) s of
             None \<Rightarrow> ([], False, s)
           | Some (g, s') \<Rightarrow>
               (case read_groups n (i + 1) s' of
                  (os, v4, s'') \<Rightarrow> (u16_to_be_bytes (of_int g) @ os, v4, s''))))"

definition read_ipv6_addr :: "u8 list ip_parser" where
  "read_ipv6_addr s =
     (case read_groups 8 0 s of (head, head_ipv4, s') \<Rightarrow>
        if length head = 16 then Some (head, s')
        else if head_ipv4 then None
        else case s' of
          c # d # s'' \<Rightarrow>
            if c = CHR '':'' \<and> d = CHR '':'' then
              (case read_groups (8 - (length head div 2 + 1)) 0 s'' of (tail, _, rest) \<Rightarrow>
                 Some (head @ replicate (16 - length head - length tail) 0 @ tail, rest))
            else None
        | _ \<Rightarrow> None)"

section \<open>Parsing a whole string\<close>

definition parse_with :: "'a ip_parser \<Rightarrow> string \<Rightarrow> 'a option" where
  "parse_with p s = (case p s of Some (v, rest) \<Rightarrow> if rest = [] then Some v else None | None \<Rightarrow> None)"

text \<open>\<^verbatim>\<open>Ipv4Addr::from_str\<close> refuses inputs longer than the longest address.\<close>

definition parse_ipv4 :: "string \<Rightarrow> u8 list option" where
  "parse_ipv4 s = (if length s > 15 then None else parse_with read_ipv4_addr s)"

definition parse_ipv6 :: "string \<Rightarrow> u8 list option" where
  "parse_ipv6 s = parse_with read_ipv6_addr s"

definition parse_ip_addr :: "string \<Rightarrow> ip_addr option" where
  "parse_ip_addr s =
     parse_with (\<lambda>s. case read_ipv4_addr s of
         Some (os, rest) \<Rightarrow> Some (V4 os, rest)
       | None \<Rightarrow> map_option (\<lambda>(os, rest). (V6 os, rest)) (read_ipv6_addr s)) s"

section \<open>Socket addresses\<close>

text \<open>\<^verbatim>\<open>str::parse::<SocketAddr>\<close>: an IPv4 address and a port, or a bracketed IPv6 address with an
  optional numeric scope and a port. Ports and scopes have no limit on their digits.\<close>

datatype socket_addr = Sock_V4 "u8 list" u16 | Sock_V6 "u8 list" u32 u16

definition read_char :: "char \<Rightarrow> unit ip_parser" where
  "read_char c s = (case s of d # cs \<Rightarrow> if d = c then Some ((), cs) else None | [] \<Rightarrow> None)"

definition read_port :: "u16 ip_parser" where
  "read_port s =
     (case read_char CHR '':'' s of
        None \<Rightarrow> None
      | Some (_, s') \<Rightarrow>
          map_option (\<lambda>(n, rest). (of_int n, rest)) (read_number 10 65536 (length s') True s'))"

definition read_scope_id :: "u32 ip_parser" where
  "read_scope_id s =
     (case read_char CHR ''%'' s of
        None \<Rightarrow> None
      | Some (_, s') \<Rightarrow>
          map_option (\<lambda>(n, rest). (of_int n, rest)) (read_number 10 (2 ^ 32) (length s') True s'))"

definition read_socket_v4 :: "socket_addr ip_parser" where
  "read_socket_v4 s =
     (case read_ipv4_addr s of
        None \<Rightarrow> None
      | Some (os, s') \<Rightarrow> map_option (\<lambda>(port, rest). (Sock_V4 os port, rest)) (read_port s'))"

definition read_socket_v6 :: "socket_addr ip_parser" where
  "read_socket_v6 s =
     (case read_char CHR ''['' s of
        None \<Rightarrow> None
      | Some (_, s1) \<Rightarrow>
          (case read_ipv6_addr s1 of
             None \<Rightarrow> None
           | Some (os, s2) \<Rightarrow>
               (case (case read_scope_id s2 of Some r \<Rightarrow> r | None \<Rightarrow> (0, s2)) of
                  (scope, s3) \<Rightarrow>
                    (case read_char CHR '']'' s3 of
                       None \<Rightarrow> None
                     | Some (_, s4) \<Rightarrow>
                         map_option (\<lambda>(port, rest). (Sock_V6 os scope port, rest)) (read_port s4)))))"

definition parse_sockaddr :: "string \<Rightarrow> socket_addr option" where
  "parse_sockaddr = parse_with (\<lambda>s. case read_socket_v4 s of Some r \<Rightarrow> Some r | None \<Rightarrow> read_socket_v6 s)"

fun socket_is_ipv6 :: "socket_addr \<Rightarrow> bool" where
  "socket_is_ipv6 (Sock_V6 _ _ _) = True"
| "socket_is_ipv6 (Sock_V4 _ _) = False"

section \<open>Printing\<close>

text \<open>\<^verbatim>\<open>Display\<close> of addresses. In an IPv6 address the first longest run of at least two zero groups is
  written as two colons; an IPv4-mapped address ends in dotted notation.\<close>

fun show_ipv4 :: "u8 list \<Rightarrow> string" where
  "show_ipv4 [] = []"
| "show_ipv4 [o1] = show_nat (unat o1)"
| "show_ipv4 (o1 # os) = show_nat (unat o1) @ CHR ''.'' # show_ipv4 os"

fun show_hex :: "nat \<Rightarrow> string" where
  "show_hex n =
     (let d = (\<lambda>k. if k < 10 then char_of (48 + k) else char_of (87 + k))
      in if n < 16 then [d n] else show_hex (n div 16) @ [d (n mod 16)])"

declare show_hex.simps [simp del]

fun ipv6_groups :: "u8 list \<Rightarrow> nat list" where
  "ipv6_groups (a # b # os) = unat (u16_from_be_bytes a b) # ipv6_groups os"
| "ipv6_groups _ = []"

text \<open>The scan for the longest run: position, the run that is open, the longest one so far, each as
  start and length.\<close>

fun longest_zeros :: "nat \<Rightarrow> nat \<times> nat \<Rightarrow> nat \<times> nat \<Rightarrow> nat list \<Rightarrow> nat \<times> nat" where
  "longest_zeros i current longest [] = longest"
| "longest_zeros i current longest (g # gs) =
     (if g = 0 then
        let current' = (if snd current = 0 then i else fst current, snd current + 1)
        in longest_zeros (i + 1) current' (if snd longest < snd current' then current' else longest) gs
      else longest_zeros (i + 1) (0, 0) longest gs)"

fun show_groups :: "nat list \<Rightarrow> string" where
  "show_groups [] = []"
| "show_groups [g] = show_hex g"
| "show_groups (g # gs) = show_hex g @ CHR '':'' # show_groups gs"

definition show_ipv6 :: "u8 list \<Rightarrow> string" where
  "show_ipv6 os =
     (if take 12 os = replicate 10 0 @ [0xFF, 0xFF] then ''::ffff:'' @ show_ipv4 (drop 12 os)
      else let groups = ipv6_groups os
        in case longest_zeros 0 (0, 0) (0, 0) groups of (start, len) \<Rightarrow>
             if len > 1 then show_groups (take start groups) @ ''::'' @ show_groups (drop (start + len) groups)
             else show_groups groups)"

section \<open>Parsed addresses are well formed\<close>

lemma read_octets_length: "read_octets n i s = Some (os, rest) \<Longrightarrow> length os = n"
  by (induction n i s arbitrary: os rest rule: read_octets.induct) (auto split: option.splits)

lemma read_ipv4_length: "read_ipv4_addr s = Some (os, rest) \<Longrightarrow> length os = 4"
  by (simp add: read_ipv4_addr_def read_octets_length)

lemma read_separator_Some:
  "read_separator sep i p s = Some r \<Longrightarrow> \<exists>s'. p s' = Some r"
  by (auto simp: read_separator_def split: if_splits list.splits)

lemma read_groups_length:
  "read_groups n i s = (os, v4, rest) \<Longrightarrow> length os \<le> 2 * n \<and> even (length os)"
proof (induction n i s arbitrary: os v4 rest rule: read_groups.induct)
  case (2 n i s)
  have v4: "length q = 4"
    if "(if n > 0 then read_separator CHR '':'' i read_ipv4_addr s else None) = Some (q, s')" for q s'
    using that by (auto dest!: read_separator_Some read_ipv4_length split: if_splits)
  show ?case
    using 2 v4 by (fastforce split: option.splits prod.splits if_splits)
qed simp

lemma read_ipv6_length: "read_ipv6_addr s = Some (os, rest) \<Longrightarrow> length os = 16"
proof -
  assume a: "read_ipv6_addr s = Some (os, rest)"
  obtain head v s' where h: "read_groups 8 0 s = (head, v, s')" by (cases "read_groups 8 0 s")
  have head: "length head \<le> 16" "even (length head)" using read_groups_length [OF h] by auto
  have "length tail \<le> 2 * (8 - (length head div 2 + 1))"
    if "read_groups (8 - (length head div 2 + 1)) 0 s'' = (tail, w, r)" for s'' tail w r
    using read_groups_length [OF that] by simp
  moreover have "2 * (8 - (length head div 2 + 1)) \<le> 16 - length head" using head by auto
  ultimately show ?thesis
    using a head by (fastforce simp: read_ipv6_addr_def h split: if_splits list.splits prod.splits)
qed

lemma parse_ip_addr_ok: "parse_ip_addr s = Some ip \<Longrightarrow> ip_ok ip"
  by (auto simp: parse_ip_addr_def parse_with_def read_ipv4_length read_ipv6_length
      split: option.splits if_splits)

lemma parse_ipv4_length: "parse_ipv4 s = Some os \<Longrightarrow> length os = 4"
  by (auto simp: parse_ipv4_def parse_with_def read_ipv4_length split: option.splits if_splits)

lemma parse_ipv6_length: "parse_ipv6 s = Some os \<Longrightarrow> length os = 16"
  by (auto simp: parse_ipv6_def parse_with_def read_ipv6_length split: option.splits if_splits)

end
