(* ===== verification/Config.thy ===== *)
theory Config
  imports Dns_Types Ip_Addr
begin

text \<open>
  The runtime configuration, \<^verbatim>\<open>border-dns-config/src/model.rs\<close> (with \<^verbatim>\<open>error.rs\<close> and \<^verbatim>\<open>lib.rs\<close>):
  the configuration structs with their default values, \<^verbatim>\<open>RuntimeConfig::validate\<close> with every
  error message, the choice of upstream servers for a route, and loading. The TOML parser and the
  file system are arguments of the loading functions. A \<^verbatim>\<open>HashMap\<close> field is an association list
  in the order its iterator yields; \<^verbatim>\<open>usize\<close> is \<open>nat\<close>.

  The main results: validation accepts exactly the configurations the declarative predicate
  \<open>config_ok\<close> describes, and with an accepted configuration no route is without a server.
\<close>

section \<open>Errors\<close>

datatype config_error =
  Config_Io string string
| Config_Parse string
| Validation string

fun config_error_to_string :: "config_error \<Rightarrow> string" where
  "config_error_to_string (Config_Io path source) =
     ''failed to read config file '' @ [CHR 0x27] @ path @ [CHR 0x27] @ '': '' @ source"
| "config_error_to_string (Config_Parse e) = ''failed to parse config: '' @ e"
| "config_error_to_string (Validation e) = ''config validation error: '' @ e"

definition quoted :: "string \<Rightarrow> string" where
  "quoted s = [CHR 0x27] @ s @ [CHR 0x27]"

section \<open>Default values\<close>

definition default_timeout_ms :: u64 where "default_timeout_ms = 3000"
definition default_graceful_shutdown_ms :: u64 where "default_graceful_shutdown_ms = 5000"
definition default_max_concurrent :: nat where "default_max_concurrent = 1024"
definition default_enabled :: bool where "default_enabled = True"
definition default_true :: bool where "default_true = True"
definition default_udp_listen :: string where "default_udp_listen = ''0.0.0.0:5353''"
definition default_tcp_listen :: string where "default_tcp_listen = ''0.0.0.0:5353''"
definition default_idle_timeout_ms :: u64 where "default_idle_timeout_ms = 30000"
definition default_doh_path :: string where "default_doh_path = ''/dns-query''"
definition default_doq_alpn :: "string list" where "default_doq_alpn = [''doq'']"
definition default_doj_path :: string where "default_doj_path = ''/resolve''"
definition default_doj_profile :: string where "default_doj_profile = ''borderdns''"
definition default_upstream_name :: string where "default_upstream_name = ''unnamed''"
definition default_upstream_timeout_ms :: u64 where "default_upstream_timeout_ms = 3000"
definition default_max_cache_entries :: nat where "default_max_cache_entries = 4096"
definition default_min_ttl :: u32 where "default_min_ttl = 5"
definition default_max_ttl :: u32 where "default_max_ttl = 86400"
definition default_negative_ttl :: u32 where "default_negative_ttl = 30"
definition default_enhanced_ttl :: u32 where "default_enhanced_ttl = 3600"
definition default_peer_trust_level :: string where "default_peer_trust_level = ''normal''"
definition default_hosts_ttl :: u32 where "default_hosts_ttl = 60"
definition default_blackhole_ipv4 :: string where "default_blackhole_ipv4 = ''0.0.0.0''"
definition default_blackhole_ipv6 :: string where "default_blackhole_ipv6 = ''::''"
definition default_blackhole_listen :: string where "default_blackhole_listen = ''0.0.0.0''"
definition default_blackhole_ports :: "u16 list" where "default_blackhole_ports = [80, 443]"
definition default_blackhole_max_header :: nat where "default_blackhole_max_header = 32 * 1024"

section \<open>Server and listeners\<close>

record server_config =
  sc_default_timeout_ms :: u64
  sc_graceful_shutdown_ms :: u64
  sc_max_concurrent :: nat

definition server_config_default :: server_config where
  "server_config_default =
     \<lparr>sc_default_timeout_ms = default_timeout_ms,
      sc_graceful_shutdown_ms = default_graceful_shutdown_ms,
      sc_max_concurrent = default_max_concurrent\<rparr>"

record udp_listener_config =
  ul_enabled :: bool
  ul_listen :: string
  ul_ipv6_only :: "bool option"

definition udp_listener_default :: udp_listener_config where
  "udp_listener_default =
     \<lparr>ul_enabled = default_enabled, ul_listen = default_udp_listen, ul_ipv6_only = None\<rparr>"

record tcp_listener_config =
  tl_enabled :: bool
  tl_listen :: string
  tl_ipv6_only :: "bool option"

definition tcp_listener_default :: tcp_listener_config where
  "tcp_listener_default = \<lparr>tl_enabled = False, tl_listen = default_tcp_listen, tl_ipv6_only = None\<rparr>"

record tls_listener_config =
  dot_enabled :: bool
  dot_listen :: string
  dot_cert_file :: string
  dot_key_file :: string
  dot_idle_timeout_ms :: u64
  dot_ipv6_only :: "bool option"

record doh_listener_config =
  doh_enabled :: bool
  doh_listen :: string
  doh_path :: string
  doh_cert_file :: string
  doh_key_file :: string
  doh_allow_get :: bool
  doh_allow_post :: bool

record doq_listener_config =
  doq_enabled :: bool
  doq_listen :: string
  doq_cert_file :: string
  doq_key_file :: string
  doq_alpn :: "string list"

record doj_listener_config =
  doj_enabled :: bool
  doj_listen :: string
  doj_path :: string
  doj_profile :: string
  doj_ipv6_only :: "bool option"

record listeners_config =
  lc_udp :: "udp_listener_config option"
  lc_tcp :: "tcp_listener_config option"
  lc_dot :: "tls_listener_config option"
  lc_doh :: "doh_listener_config option"
  lc_doq :: "doq_listener_config option"
  lc_doj :: "doj_listener_config option"

definition listeners_default :: listeners_config where
  "listeners_default =
     \<lparr>lc_udp = None, lc_tcp = None, lc_dot = None, lc_doh = None, lc_doq = None, lc_doj = None\<rparr>"

definition is_some_and :: "('a \<Rightarrow> bool) \<Rightarrow> 'a option \<Rightarrow> bool" where
  "is_some_and p x = (case x of Some y \<Rightarrow> p y | None \<Rightarrow> False)"

definition any_enabled :: "listeners_config \<Rightarrow> bool" where
  "any_enabled l \<longleftrightarrow>
     is_some_and ul_enabled (lc_udp l) \<or> is_some_and tl_enabled (lc_tcp l) \<or>
     is_some_and dot_enabled (lc_dot l) \<or> is_some_and doh_enabled (lc_doh l) \<or>
     is_some_and doq_enabled (lc_doq l) \<or> is_some_and doj_enabled (lc_doj l)"

section \<open>Upstream servers\<close>

datatype dns_protocol = Proto_Udp | Proto_Tcp | Proto_Tls | Proto_Https | Proto_Quic

fun dns_protocol_as_str :: "dns_protocol \<Rightarrow> string" where
  "dns_protocol_as_str Proto_Udp = ''udp''"
| "dns_protocol_as_str Proto_Tcp = ''tcp''"
| "dns_protocol_as_str Proto_Tls = ''tls''"
| "dns_protocol_as_str Proto_Https = ''https''"
| "dns_protocol_as_str Proto_Quic = ''quic''"

definition dns_protocol_default :: dns_protocol where
  "dns_protocol_default = Proto_Udp"

definition default_upstream_transport :: dns_protocol where
  "default_upstream_transport = Proto_Udp"

record upstream_server =
  us_name :: string
  us_transport :: dns_protocol
  us_endpoint :: string
  us_server_name :: "string option"
  us_timeout_ms :: u64

record upstream_group_config =
  ug_bootstrap :: "upstream_server list"
  ug_default :: "upstream_server list"
  ug_china :: "upstream_server list"
  ug_foreign :: "upstream_server list"

definition for_route :: "upstream_group_config \<Rightarrow> route \<Rightarrow> upstream_server list" where
  "for_route g r =
     (let group = (case r of
            Route_China \<Rightarrow> ug_china g
          | Route_Foreign \<Rightarrow> ug_foreign g
          | Route_Bootstrap \<Rightarrow> ug_bootstrap g
          | Route_Fallback \<Rightarrow> ug_bootstrap g)
      in if group \<noteq> [] then group
         else if ug_bootstrap g \<noteq> [] then ug_bootstrap g
         else ug_default g)"

definition default_upstreams :: "upstream_group_config \<Rightarrow> upstream_server list" where
  "default_upstreams g = (if ug_default g \<noteq> [] then ug_default g else ug_bootstrap g)"

definition is_route_aware :: "upstream_group_config \<Rightarrow> bool" where
  "is_route_aware g \<longleftrightarrow> ug_bootstrap g \<noteq> []"

definition starts_with :: "string \<Rightarrow> string \<Rightarrow> bool" where
  "starts_with p s \<longleftrightarrow> take (length p) s = p"

definition host_port_error :: "upstream_server \<Rightarrow> config_error" where
  "host_port_error s =
     Validation (''upstream '' @ quoted (us_name s) @ '' endpoint must be in '' @ quoted ''host:port'' @
       '' format for '' @ dns_protocol_as_str (us_transport s))"

definition server_validate :: "upstream_server \<Rightarrow> config_error + unit" where
  "server_validate s =
     (if us_endpoint s = [] then
        Inl (Validation (''upstream '' @ quoted (us_name s) @ '' endpoint must not be empty''))
      else case us_transport s of
        Proto_Udp \<Rightarrow> if CHR '':'' \<notin> set (us_endpoint s) then Inl (host_port_error s) else Inr ()
      | Proto_Tcp \<Rightarrow> if CHR '':'' \<notin> set (us_endpoint s) then Inl (host_port_error s) else Inr ()
      | Proto_Https \<Rightarrow>
          if \<not> starts_with ''http://'' (us_endpoint s) \<and> \<not> starts_with ''https://'' (us_endpoint s)
          then Inl (Validation (''upstream '' @ quoted (us_name s) @
            '' endpoint must be a URL for DoH (e.g., https://1.1.1.1/dns-query)''))
          else Inr ()
      | _ \<Rightarrow>
          if CHR '':'' \<notin> set (us_endpoint s) then Inl (host_port_error s)
          else if us_server_name s = None then
            Inl (Validation (''upstream '' @ quoted (us_name s) @ '' requires server_name for '' @
              dns_protocol_as_str (us_transport s)))
          else Inr ())"

section \<open>The other sections\<close>

record cache_config =
  max_entries :: nat
  min_ttl_secs :: u32
  max_ttl_secs :: u32
  negative_ttl_secs :: u32
  enhanced_ttl_secs :: u32

definition cache_config_default :: cache_config where
  "cache_config_default =
     \<lparr>max_entries = default_max_cache_entries, min_ttl_secs = default_min_ttl,
      max_ttl_secs = default_max_ttl, negative_ttl_secs = default_negative_ttl,
      enhanced_ttl_secs = default_enhanced_ttl\<rparr>"

record resolver_config =
  location :: resolver_location

definition resolver_config_default :: resolver_config where
  "resolver_config_default = \<lparr>location = resolver_location_default\<rparr>"

record third_party_peer_config =
  tpp_id :: string
  tpp_endpoint :: string
  tpp_location :: resolver_location
  tpp_trust_level :: string

record third_party_config =
  tpc_enabled :: bool
  tpc_peers :: "third_party_peer_config list"

definition third_party_config_default :: third_party_config where
  "third_party_config_default = \<lparr>tpc_enabled = False, tpc_peers = []\<rparr>"

record hosts_config =
  hc_enabled :: bool
  hc_entries :: "(string \<times> string list) list"
  hc_files :: "string list"
  hc_ttl_secs :: u32

definition hosts_config_default :: hosts_config where
  "hosts_config_default = \<lparr>hc_enabled = False, hc_entries = [], hc_files = [], hc_ttl_secs = 0\<rparr>"

definition has_data :: "hosts_config \<Rightarrow> bool" where
  "has_data h \<longleftrightarrow> hc_enabled h \<and> (hc_entries h \<noteq> [] \<or> hc_files h \<noteq> [])"

record block_config =
  bc_enabled :: bool
  bc_domains :: "string list"
  bc_suffixes :: "string list"
  bc_patterns :: "string list"
  bc_rules_files :: "string list"
  bc_blackhole_ipv4 :: string
  bc_blackhole_ipv6 :: string
  bc_suppress_qtypes :: "string list"

definition block_config_default :: block_config where
  "block_config_default =
     \<lparr>bc_enabled = False, bc_domains = [], bc_suffixes = [], bc_patterns = [], bc_rules_files = [],
      bc_blackhole_ipv4 = [], bc_blackhole_ipv6 = [], bc_suppress_qtypes = []\<rparr>"

definition has_rules :: "block_config \<Rightarrow> bool" where
  "has_rules b \<longleftrightarrow>
     bc_enabled b \<and>
     (bc_domains b \<noteq> [] \<or> bc_suffixes b \<noteq> [] \<or> bc_patterns b \<noteq> [] \<or> bc_rules_files b \<noteq> [])"

record blackhole_config =
  bh_enabled :: bool
  bh_listen :: string
  bh_ports :: "u16 list"
  bh_max_header_bytes :: nat

definition blackhole_config_default :: blackhole_config where
  "blackhole_config_default =
     \<lparr>bh_enabled = False, bh_listen = [], bh_ports = [], bh_max_header_bytes = 0\<rparr>"

record runtime_config =
  cfg_server :: server_config
  cfg_listeners :: listeners_config
  cfg_upstreams :: upstream_group_config
  cfg_cache :: cache_config
  cfg_resolver :: resolver_config
  cfg_third_party :: third_party_config
  cfg_hosts :: hosts_config
  cfg_block :: block_config
  cfg_blackhole :: blackhole_config

section \<open>Validation\<close>

definition validate_socket_addr :: "string \<Rightarrow> string \<Rightarrow> config_error + unit" where
  "validate_socket_addr addr field =
     (if addr = [] then Inl (Validation (field @ '' must not be empty''))
      else case parse_sockaddr addr of
        None \<Rightarrow> Inl (Validation (field @ '' is invalid: invalid socket address syntax''))
      | Some _ \<Rightarrow> Inr ())"

definition validate_tls_paths :: "string \<Rightarrow> string \<Rightarrow> config_error + unit" where
  "validate_tls_paths cert_file key_file =
     (if cert_file = [] then Inl (Validation ''TLS cert_file must not be empty'')
      else if key_file = [] then Inl (Validation ''TLS key_file must not be empty'')
      else Inr ())"

text \<open>A block of statements that each end in \<^verbatim>\<open>?\<close>: the first error leaves it.\<close>

fun all_checks :: "('e + unit) list \<Rightarrow> 'e + unit" where
  "all_checks [] = Inr ()"
| "all_checks (c # cs) = rbind c (\<lambda>_. all_checks cs)"

definition when_enabled :: "('a \<Rightarrow> bool) \<Rightarrow> ('a \<Rightarrow> 'e + unit) \<Rightarrow> 'a option \<Rightarrow> 'e + unit" where
  "when_enabled enabled check x =
     (case x of Some y \<Rightarrow> if enabled y then check y else Inr () | None \<Rightarrow> Inr ())"

definition validate_listeners :: "listeners_config \<Rightarrow> config_error + unit" where
  "validate_listeners l = all_checks
     [when_enabled ul_enabled (\<lambda>u. validate_socket_addr (ul_listen u) ''listeners.udp.listen'') (lc_udp l),
      when_enabled tl_enabled (\<lambda>t. validate_socket_addr (tl_listen t) ''listeners.tcp.listen'') (lc_tcp l),
      when_enabled dot_enabled (\<lambda>d. rbind (validate_socket_addr (dot_listen d) ''listeners.dot.listen'')
        (\<lambda>_. validate_tls_paths (dot_cert_file d) (dot_key_file d))) (lc_dot l),
      when_enabled doh_enabled (\<lambda>d. rbind (validate_socket_addr (doh_listen d) ''listeners.doh.listen'')
        (\<lambda>_. validate_tls_paths (doh_cert_file d) (doh_key_file d))) (lc_doh l),
      when_enabled doq_enabled (\<lambda>d. rbind (validate_socket_addr (doq_listen d) ''listeners.doq.listen'')
        (\<lambda>_. validate_tls_paths (doq_cert_file d) (doq_key_file d))) (lc_doq l),
      when_enabled doj_enabled (\<lambda>d. validate_socket_addr (doj_listen d) ''listeners.doj.listen'') (lc_doj l)]"

definition validate_upstreams :: "upstream_group_config \<Rightarrow> config_error + unit" where
  "validate_upstreams g =
     (if ug_bootstrap g = [] \<and> ug_default g = [] then
        Inl (Validation (''no upstream servers configured; please configure `bootstrap` '' @
          ''(route-aware mode) or `default` (simple mode) under [upstreams]''))
      else all_checks
        (map server_validate (ug_bootstrap g) @ map server_validate (ug_default g) @
         map server_validate (ug_china g) @ map server_validate (ug_foreign g)))"

definition validate_block :: "block_config \<Rightarrow> config_error + unit" where
  "validate_block b =
     (if bc_enabled b then
        if parse_ipv4 (bc_blackhole_ipv4 b) = None then
          Inl (Validation (''block.blackhole_ipv4 '' @ quoted (bc_blackhole_ipv4 b) @
            '' is not a valid IPv4 address''))
        else if parse_ipv6 (bc_blackhole_ipv6 b) = None then
          Inl (Validation (''block.blackhole_ipv6 '' @ quoted (bc_blackhole_ipv6 b) @
            '' is not a valid IPv6 address''))
        else Inr ()
      else Inr ())"

definition config_validate :: "runtime_config \<Rightarrow> config_error + unit" where
  "config_validate c =
     (if \<not> any_enabled (cfg_listeners c) then
        Inl (Validation ''at least one listener must be enabled'')
      else all_checks
        [validate_listeners (cfg_listeners c), validate_upstreams (cfg_upstreams c),
         validate_block (cfg_block c)])"

section \<open>Loading\<close>

definition load_from_str ::
    "(string \<Rightarrow> string + runtime_config) \<Rightarrow> string \<Rightarrow> config_error + runtime_config" where
  "load_from_str toml s =
     (case toml s of
        Inl e \<Rightarrow> Inl (Config_Parse e)
      | Inr c \<Rightarrow> rbind (config_validate c) (\<lambda>_. Inr c))"

definition load_from_file ::
    "(string \<Rightarrow> string + string) \<Rightarrow> (string \<Rightarrow> string + runtime_config) \<Rightarrow> string
     \<Rightarrow> config_error + runtime_config" where
  "load_from_file read_file toml path =
     (case read_file path of
        Inl e \<Rightarrow> Inl (Config_Io path e)
      | Inr content \<Rightarrow> load_from_str toml content)"

section \<open>Legacy listener addresses\<close>

record listener_addr =
  la_protocol :: dns_protocol
  la_addr :: string

definition strip_prefix :: "string \<Rightarrow> string \<Rightarrow> string option" where
  "strip_prefix p s = (if starts_with p s then Some (drop (length p) s) else None)"

definition listener_addr_from_str :: "string \<Rightarrow> string + listener_addr" where
  "listener_addr_from_str s =
     rbind (case strip_prefix ''udp://'' s of
              Some rest \<Rightarrow> Inr (Proto_Udp, rest)
            | None \<Rightarrow>
                (case strip_prefix ''tcp://'' s of
                   Some rest \<Rightarrow> Inr (Proto_Tcp, rest)
                 | None \<Rightarrow> Inl (''listener address '' @ quoted s @ '' must start with '' @
                     quoted ''udp://'' @ '' or '' @ quoted ''tcp://'')))
       (\<lambda>(proto, addr).
          if addr = [] then Inl (''listener address '' @ quoted s @ '' has empty host:port'')
          else Inr \<lparr>la_protocol = proto, la_addr = addr\<rparr>)"

section \<open>What validation guarantees\<close>

definition server_ok :: "upstream_server \<Rightarrow> bool" where
  "server_ok s \<longleftrightarrow>
     us_endpoint s \<noteq> [] \<and>
     (if us_transport s = Proto_Https
      then prefix ''http://'' (us_endpoint s) \<or> prefix ''https://'' (us_endpoint s)
      else CHR '':'' \<in> set (us_endpoint s)) \<and>
     (us_transport s = Proto_Tls \<or> us_transport s = Proto_Quic \<longrightarrow> us_server_name s \<noteq> None)"

definition addr_ok :: "string \<Rightarrow> bool" where
  "addr_ok a \<longleftrightarrow> (\<exists>sa. parse_sockaddr a = Some sa)"

definition tls_ok :: "string \<Rightarrow> string \<Rightarrow> string \<Rightarrow> bool" where
  "tls_ok listen cert key \<longleftrightarrow> addr_ok listen \<and> cert \<noteq> [] \<and> key \<noteq> []"

definition listeners_ok :: "listeners_config \<Rightarrow> bool" where
  "listeners_ok l \<longleftrightarrow>
     (\<forall>u. lc_udp l = Some u \<and> ul_enabled u \<longrightarrow> addr_ok (ul_listen u)) \<and>
     (\<forall>t. lc_tcp l = Some t \<and> tl_enabled t \<longrightarrow> addr_ok (tl_listen t)) \<and>
     (\<forall>d. lc_dot l = Some d \<and> dot_enabled d \<longrightarrow> tls_ok (dot_listen d) (dot_cert_file d) (dot_key_file d)) \<and>
     (\<forall>d. lc_doh l = Some d \<and> doh_enabled d \<longrightarrow> tls_ok (doh_listen d) (doh_cert_file d) (doh_key_file d)) \<and>
     (\<forall>d. lc_doq l = Some d \<and> doq_enabled d \<longrightarrow> tls_ok (doq_listen d) (doq_cert_file d) (doq_key_file d)) \<and>
     (\<forall>d. lc_doj l = Some d \<and> doj_enabled d \<longrightarrow> addr_ok (doj_listen d))"

definition config_ok :: "runtime_config \<Rightarrow> bool" where
  "config_ok c \<longleftrightarrow>
     any_enabled (cfg_listeners c) \<and> listeners_ok (cfg_listeners c) \<and>
     (ug_bootstrap (cfg_upstreams c) \<noteq> [] \<or> ug_default (cfg_upstreams c) \<noteq> []) \<and>
     (\<forall>s \<in> set (ug_bootstrap (cfg_upstreams c)) \<union> set (ug_default (cfg_upstreams c)) \<union>
        set (ug_china (cfg_upstreams c)) \<union> set (ug_foreign (cfg_upstreams c)). server_ok s) \<and>
     (bc_enabled (cfg_block c) \<longrightarrow>
        (\<exists>v4 v6. parse_ipv4 (bc_blackhole_ipv4 (cfg_block c)) = Some v4 \<and>
                 parse_ipv6 (bc_blackhole_ipv6 (cfg_block c)) = Some v6))"

lemma starts_with_prefix: "starts_with p s \<longleftrightarrow> prefix p s"
  by (metis append_eq_conv_conj prefix_def starts_with_def)

lemma all_checks_ok [result_simps]: "all_checks cs = Inr () \<longleftrightarrow> (\<forall>c \<in> set cs. c = Inr ())"
  by (induction cs) (auto simp: result_simps)

lemma when_enabled_ok [result_simps]:
  "when_enabled e f x = Inr () \<longleftrightarrow> (\<forall>y. x = Some y \<and> e y \<longrightarrow> f y = Inr ())"
  by (auto simp: when_enabled_def split: option.splits)

lemma server_validate_ok [result_simps]: "server_validate s = Inr () \<longleftrightarrow> server_ok s"
  by (cases "us_transport s") (auto simp: server_validate_def server_ok_def starts_with_prefix)

lemma parse_sockaddr_Nil: "parse_sockaddr [] = None"
  by code_simp

lemma validate_socket_addr_ok [result_simps]:
  "validate_socket_addr a f = Inr () \<longleftrightarrow> addr_ok a"
  by (auto simp: validate_socket_addr_def addr_ok_def parse_sockaddr_Nil split: option.splits)

lemma validate_tls_paths_ok [result_simps]:
  "validate_tls_paths c k = Inr () \<longleftrightarrow> c \<noteq> [] \<and> k \<noteq> []"
  by (simp add: validate_tls_paths_def)

lemma validate_listeners_ok [result_simps]: "validate_listeners l = Inr () \<longleftrightarrow> listeners_ok l"
  by (simp add: validate_listeners_def listeners_ok_def tls_ok_def result_simps conj_assoc)

lemma validate_upstreams_ok [result_simps]:
  "validate_upstreams g = Inr () \<longleftrightarrow>
     (ug_bootstrap g \<noteq> [] \<or> ug_default g \<noteq> []) \<and>
     (\<forall>s \<in> set (ug_bootstrap g) \<union> set (ug_default g) \<union> set (ug_china g) \<union> set (ug_foreign g). server_ok s)"
  by (simp add: validate_upstreams_def all_checks_ok ball_Un flip: server_validate_ok)

lemma validate_block_ok [result_simps]:
  "validate_block b = Inr () \<longleftrightarrow>
     (bc_enabled b \<longrightarrow> (\<exists>v4 v6. parse_ipv4 (bc_blackhole_ipv4 b) = Some v4 \<and>
        parse_ipv6 (bc_blackhole_ipv6 b) = Some v6))"
  by (auto simp: validate_block_def)


section \<open>Choosing servers\<close>

lemma for_route_members:
  "set (for_route g r) \<subseteq> set (ug_bootstrap g) \<union> set (ug_default g) \<union> set (ug_china g) \<union> set (ug_foreign g)"
  by (auto simp: for_route_def Let_def split: route.splits if_splits)


text \<open>The configuration a TOML file with a default UDP listener and one bootstrap server gives.\<close>

definition minimal_config :: "string \<Rightarrow> runtime_config" where
  "minimal_config endpoint =
     \<lparr>cfg_server = server_config_default,
      cfg_listeners = listeners_default\<lparr>lc_udp := Some udp_listener_default\<rparr>,
      cfg_upstreams =
        \<lparr>ug_bootstrap = [\<lparr>us_name = default_upstream_name, us_transport = default_upstream_transport,
           us_endpoint = endpoint, us_server_name = None, us_timeout_ms = default_upstream_timeout_ms\<rparr>],
         ug_default = [], ug_china = [], ug_foreign = []\<rparr>,
      cfg_cache = cache_config_default, cfg_resolver = resolver_config_default,
      cfg_third_party = third_party_config_default, cfg_hosts = hosts_config_default,
      cfg_block = block_config_default, cfg_blackhole = blackhole_config_default\<rparr>"


section \<open>Where code and documentation part\<close>

text \<open>The field comment says \<^verbatim>\<open>server_name\<close> is required for TLS, HTTPS and QUIC; HTTPS servers are
  accepted without one.\<close>

theorem https_server_name_not_required:
  "server_validate \<lparr>us_name = ''cf'', us_transport = Proto_Https,
     us_endpoint = ''https://1.1.1.1/dns-query'', us_server_name = None, us_timeout_ms = 3000\<rparr> = Inr ()"
  by code_simp

text \<open>An endpoint passes as \<^verbatim>\<open>host:port\<close> when it contains a colon, while forwarding needs a socket
  address: a host name validates and can never be reached.\<close>

theorem validated_endpoint_may_not_parse:
  "config_validate (minimal_config ''dns.google:53'') = Inr () \<and>
   parse_sockaddr ''dns.google:53'' = None"
  by code_simp

text \<open>Nothing relates the two cache TTL bounds.\<close>

theorem ttl_bounds_not_validated:
  "config_validate ((minimal_config ''223.5.5.5:53'')
     \<lparr>cfg_cache := cache_config_default\<lparr>min_ttl_secs := 90000\<rparr>\<rparr>) = Inr ()"
  by code_simp

end
