(* ===== verification/Hosts_Table.thy ===== *)
theory Hosts_Table
  imports Dns_Types Ip_Addr
begin

text \<open>
  The static hosts table, \<^verbatim>\<open>border-dns-domain-knowledge/src/hosts_table.rs\<close>: inline entries, hosts
  files, lookup by query type and reload. The file system is a parameter: for a path the
  modification time, if it can be had, and the content, if the file can be read.
\<close>

record host_entry =
  he_domain :: string
  he_ip :: ip_addr

record hosts_table =
  ht_entries :: "host_entry list"
  ht_file_paths :: "string list"
  ht_file_mtimes :: "nat option list"

record file_system =
  fs_mtime :: "string \<Rightarrow> nat option"
  fs_read :: "string \<Rightarrow> string option"

definition hosts_new :: hosts_table where
  "hosts_new = \<lparr>ht_entries = [], ht_file_paths = [], ht_file_mtimes = []\<rparr>"

definition with_entry :: "string \<Rightarrow> string \<Rightarrow> hosts_table \<Rightarrow> hosts_table" where
  "with_entry domain ip t =
     (case parse_ip_addr ip of
        Some addr \<Rightarrow> t\<lparr>ht_entries := ht_entries t @ [\<lparr>he_domain = to_lowercase domain, he_ip = addr\<rparr>]\<rparr>
      | None \<Rightarrow> t)"

definition with_file :: "string \<Rightarrow> hosts_table \<Rightarrow> hosts_table" where
  "with_file path t =
     t\<lparr>ht_file_paths := ht_file_paths t @ [path], ht_file_mtimes := ht_file_mtimes t @ [None]\<rparr>"

section \<open>Parsing a hosts file\<close>

text \<open>\<^verbatim>\<open>str::lines\<close>: the pieces between line feeds, without a carriage return at their end, and
  without the empty piece behind a final line feed.\<close>

definition str_lines :: "string \<Rightarrow> string list" where
  "str_lines s =
     (let ps = split_on (CHR 0x0A) s; qs = (if last ps = [] then butlast ps else ps)
      in map (strip_suffix_char (CHR 0x0D)) qs)"

text \<open>\<^verbatim>\<open>str::split_whitespace\<close>: the maximal runs of other characters.\<close>

fun split_ws :: "string \<Rightarrow> string \<Rightarrow> string list" where
  "split_ws cur [] = (if cur = [] then [] else [rev cur])"
| "split_ws cur (c # cs) =
     (if is_whitespace c then (if cur = [] then split_ws [] cs else rev cur # split_ws [] cs)
      else split_ws (c # cur) cs)"

definition split_whitespace :: "string \<Rightarrow> string list" where
  "split_whitespace s = split_ws [] s"

fun push_domains :: "ip_addr \<Rightarrow> string list \<Rightarrow> host_entry list \<Rightarrow> host_entry list" where
  "push_domains ip [] es = es"
| "push_domains ip (part # parts) es =
     (let domain = to_lowercase (strip_suffix_char CHR ''.'' part) in
      push_domains ip parts (if domain \<noteq> [] then es @ [\<lparr>he_domain = domain, he_ip = ip\<rparr>] else es))"

definition load_line :: "string \<Rightarrow> host_entry list \<Rightarrow> host_entry list" where
  "load_line raw es =
     (let line = trim raw in
      if line = [] \<or> hd line = CHR ''#'' then es
      else case split_whitespace line of
        first # second # others \<Rightarrow>
          (case parse_ip_addr first of
             Some ip \<Rightarrow> push_domains ip (second # others) es
           | None \<Rightarrow> es)
      | _ \<Rightarrow> es)"

section \<open>Loading, lookup, reload\<close>

fun reload_from :: "file_system \<Rightarrow> nat \<Rightarrow> string list \<Rightarrow> hosts_table \<Rightarrow> hosts_table" where
  "reload_from fs i [] t = t"
| "reload_from fs i (path # paths) t =
     (let t1 = t\<lparr>ht_file_mtimes := (ht_file_mtimes t)[i := fs_mtime fs path]\<rparr>;
          t2 = (case fs_read fs path of
                  Some content \<Rightarrow>
                    t1\<lparr>ht_entries := fold load_line (str_lines content) (ht_entries t1)\<rparr>
                | None \<Rightarrow> t1)
      in reload_from fs (i + 1) paths t2)"

definition reload_all_files :: "file_system \<Rightarrow> hosts_table \<Rightarrow> hosts_table" where
  "reload_all_files fs t = reload_from fs 0 (ht_file_paths t) t"

definition hosts_build :: "file_system \<Rightarrow> hosts_table \<Rightarrow> hosts_table" where
  "hosts_build fs t = reload_all_files fs t"

definition match_domain :: "hosts_table \<Rightarrow> string \<Rightarrow> qtype \<Rightarrow> ip_addr list" where
  "match_domain t domain qt =
     (let name = to_lowercase (strip_suffix_char CHR ''.'' domain);
          want_v4 = (qt = QT_Type RT_A); want_v6 = (qt = QT_Type RT_AAAA) in
      if \<not> want_v4 \<and> \<not> want_v6 then []
      else map he_ip
        (filter (\<lambda>e. (want_v4 \<and> is_ipv4 (he_ip e)) \<or> (want_v6 \<and> is_ipv6 (he_ip e)))
          (filter (\<lambda>e. he_domain e = name) (ht_entries t))))"

definition has_file_changes :: "file_system \<Rightarrow> hosts_table \<Rightarrow> bool" where
  "has_file_changes fs t =
     list_ex (\<lambda>(i, path). fs_mtime fs path \<noteq>
         (if i < length (ht_file_mtimes t) then ht_file_mtimes t ! i else None))
       (enumerate 0 (ht_file_paths t))"

definition reload_if_changed :: "file_system \<Rightarrow> hosts_table \<Rightarrow> bool \<times> hosts_table" where
  "reload_if_changed fs t =
     (if \<not> has_file_changes fs t then (False, t) else (True, reload_all_files fs t))"

section \<open>The entries of a table\<close>

text \<open>What a hosts line, and a file, denotes.\<close>

definition line_entries :: "string \<Rightarrow> host_entry list" where
  "line_entries raw =
     (let line = trim raw in
      if line = [] \<or> hd line = CHR ''#'' then []
      else case split_whitespace line of
        first # second # others \<Rightarrow>
          (case parse_ip_addr first of
             Some ip \<Rightarrow> map (\<lambda>d. \<lparr>he_domain = d, he_ip = ip\<rparr>)
               (filter (\<lambda>d. d \<noteq> []) (map (\<lambda>p. to_lowercase (strip_suffix_char CHR ''.'' p)) (second # others)))
           | None \<Rightarrow> [])
      | _ \<Rightarrow> [])"

definition file_entries :: "file_system \<Rightarrow> string \<Rightarrow> host_entry list" where
  "file_entries fs path =
     (case fs_read fs path of Some content \<Rightarrow> concat (map line_entries (str_lines content)) | None \<Rightarrow> [])"

lemma push_domains_eq:
  "push_domains ip parts es = es @ map (\<lambda>d. \<lparr>he_domain = d, he_ip = ip\<rparr>)
     (filter (\<lambda>d. d \<noteq> []) (map (\<lambda>p. to_lowercase (strip_suffix_char CHR ''.'' p)) parts))"
  by (induction ip parts es rule: push_domains.induct) (auto simp: Let_def)

lemma load_line_eq: "load_line raw es = es @ line_entries raw"
  by (auto simp: load_line_def line_entries_def Let_def push_domains_eq split: list.splits option.splits)

lemma fold_load_line: "fold load_line ls es = es @ concat (map line_entries ls)"
  by (induction ls arbitrary: es) (auto simp: load_line_eq)

lemma reload_from_entries:
  "ht_entries (reload_from fs i paths t) = ht_entries t @ concat (map (file_entries fs) paths)"
  "ht_file_paths (reload_from fs i paths t) = ht_file_paths t"
  "length (ht_file_mtimes (reload_from fs i paths t)) = length (ht_file_mtimes t)"
  by (induction fs i paths t rule: reload_from.induct)
    (auto simp: Let_def file_entries_def fold_load_line split: option.splits)

lemma reload_from_mtimes:
  "j < length (ht_file_mtimes t) \<Longrightarrow>
   ht_file_mtimes (reload_from fs i paths t) ! j =
     (if i \<le> j \<and> j < i + length paths then fs_mtime fs (paths ! (j - i)) else ht_file_mtimes t ! j)"
proof (induction fs i paths t rule: reload_from.induct)
  case (2 fs i path paths t)
  then show ?case
    by (cases "j = i") (auto simp: Let_def nth_Cons' split: option.splits)
qed auto

definition hosts_wf :: "hosts_table \<Rightarrow> bool" where
  "hosts_wf t \<longleftrightarrow> length (ht_file_mtimes t) = length (ht_file_paths t)"

lemma hosts_wf_ops:
  "hosts_wf hosts_new" "hosts_wf t \<Longrightarrow> hosts_wf (with_entry d ip t)"
  "hosts_wf t \<Longrightarrow> hosts_wf (with_file path t)" "hosts_wf t \<Longrightarrow> hosts_wf (reload_all_files fs t)"
  by (auto simp: hosts_wf_def hosts_new_def with_entry_def with_file_def reload_all_files_def
      reload_from_entries split: option.splits)

lemma hosts_build_entries:
  "ht_entries (hosts_build fs t) = ht_entries t @ concat (map (file_entries fs) (ht_file_paths t))"
  by (simp add: hosts_build_def reload_all_files_def reload_from_entries)

lemma reloaded_unchanged: "hosts_wf t \<Longrightarrow> \<not> has_file_changes fs (reload_all_files fs t)"
  by (auto simp: has_file_changes_def reload_all_files_def reload_from_entries hosts_wf_def
      list_ex_iff in_set_enumerate_eq reload_from_mtimes)

section \<open>Properties\<close>

text \<open>C33: a lookup in a built table returns, in order, exactly the addresses of the wanted family that
  the inline entries and then the lines of the readable hosts files give to the queried name,
  compared in lower case and without one trailing dot; other query types find nothing.\<close>

theorem hosts_lookup_correct:
  "match_domain (hosts_build fs t) domain qt =
     (if qt = QT_Type RT_A \<or> qt = QT_Type RT_AAAA
      then [he_ip e. e \<leftarrow> ht_entries t @ concat (map (file_entries fs) (ht_file_paths t)),
             he_domain e = to_lowercase (strip_suffix_char CHR ''.'' domain) \<and>
             is_ipv4 (he_ip e) = (qt = QT_Type RT_A)]
      else [])"
proof -
  have f: "map he_ip (filter P xs) = [he_ip e. e \<leftarrow> xs, P e]" for P xs
    by (induction xs) auto
  have v: "is_ipv6 ip \<longleftrightarrow> \<not> is_ipv4 ip" for ip by (cases ip) auto
  show ?thesis
    by (auto simp: match_domain_def Let_def hosts_build_entries f v cong: if_cong)
qed

text \<open>Reload reacts to change only, and settles: with unchanged modification times it does
  nothing, and right after a reload no change is pending.\<close>

theorem reload_settles:
  assumes "hosts_wf t"
  shows "\<not> has_file_changes fs (snd (reload_if_changed fs t)) \<and>
    reload_if_changed fs (snd (reload_if_changed fs t)) = (False, snd (reload_if_changed fs t))"
  using reloaded_unchanged [OF assms] by (auto simp: reload_if_changed_def)

definition sample_hosts :: hosts_table where
  "sample_hosts = with_file ''/etc/hosts'' (with_entry ''blocked.local'' ''127.0.0.1'' hosts_new)"

definition sample_fs :: file_system where
  "sample_fs = \<lparr>fs_mtime = (\<lambda>_. Some 7), fs_read = (\<lambda>_. Some ''10.0.0.1 a.lan b.lan'')\<rparr>"

theorem reload_settles_witness:
  "\<not> has_file_changes sample_fs (snd (reload_if_changed sample_fs sample_hosts)) \<and>
    reload_if_changed sample_fs (snd (reload_if_changed sample_fs sample_hosts)) =
      (False, snd (reload_if_changed sample_fs sample_hosts))"
  by (rule reload_settles) (simp add: sample_hosts_def hosts_wf_ops)

section \<open>Where code and documentation part\<close>

text \<open>A reload appends the files' entries behind the old ones: lines that are gone from a file keep
  answering, and lines that stayed answer twice.\<close>

theorem reload_keeps_stale_entries:
  "set (ht_entries t) \<subseteq> set (ht_entries (reload_all_files fs t)) \<and>
   ht_entries (reload_all_files fs (reload_all_files fs t)) =
     ht_entries t @ concat (map (file_entries fs) (ht_file_paths t)) @
     concat (map (file_entries fs) (ht_file_paths t))"
  by (simp add: reload_all_files_def reload_from_entries)

text \<open>The domain of an inline entry keeps its trailing dot, the queried name loses it: such an entry
  never matches.\<close>

theorem inline_entry_with_dot_never_matches:
  "match_domain (with_entry (d @ ''.'') ip hosts_new) (d @ ''.'') qt = []"
  by (auto simp: match_domain_def with_entry_def hosts_new_def strip_suffix_char_def to_lowercase_def Let_def
      dest: arg_cong [of _ _ length] split: option.splits)

end
