(* ===== verification/Block_Matcher.thy ===== *)
theory Block_Matcher
  imports Prelude "HOL-Library.AList"
begin

text \<open>
  The block list matcher, \<^verbatim>\<open>border-dns-domain-knowledge/src/block_matcher.rs\<close>: label globs, the
  reversed-label trie with exact, glob and multi-label (\<open>**\<close>) edges, rule insertion, and the
  recursive match with its memo table.

  A node of the trie is identified in the memo by its path from the root where the source uses
  its address. \<open>match_node\<close> is the recursion without the memo; \<open>match_node_memo\<close> is the code's
  version, and the two agree. The match in a trie is then the disjunction, over the rules
  inserted, of the match of each single rule (\<open>rule_matches\<close>), from which the behaviour of
  exact and suffix rules follows. The glob is compared with the wildcard language it describes.
\<close>

section \<open>Label globs\<close>

text \<open>\<^verbatim>\<open>str::find\<close>: the first position at which the needle occurs.\<close>

fun str_find :: "'a list \<Rightarrow> 'a list \<Rightarrow> nat option" where
  "str_find part [] = (if part = [] then Some 0 else None)"
| "str_find part (x # xs) =
     (if prefix part (x # xs) then Some 0 else map_option Suc (str_find part xs))"

fun glob_parts :: "nat \<Rightarrow> nat \<Rightarrow> string list \<Rightarrow> string \<Rightarrow> nat \<Rightarrow> bool" where
  "glob_parts i n [] target pos = True"
| "glob_parts i n (part # parts) target pos =
     (if part = [] then glob_parts (i + 1) n parts target pos
      else if i = 0 then
        if \<not> prefix part target then False
        else glob_parts (i + 1) n parts target (length part)
      else if i = n - 1 then
        if \<not> suffix part target then False
        else glob_parts (i + 1) n parts target pos
      else case str_find part (drop pos target) of
        Some found \<Rightarrow> glob_parts (i + 1) n parts target (pos + (found + length part))
      | None \<Rightarrow> False)"

definition label_matches_glob :: "string \<Rightarrow> string \<Rightarrow> bool" where
  "label_matches_glob pattern target =
     (if CHR ''*'' \<notin> set pattern then to_lowercase pattern = to_lowercase target
      else let parts = split_on CHR ''*'' (to_lowercase pattern)
        in glob_parts 0 (length parts) parts (to_lowercase target) 0)"

section \<open>The trie\<close>

datatype trie_node =
  TrieNode
    (exact_children: "(string \<times> trie_node) list")
    (pattern_children: "(string \<times> trie_node) list")
    (multi_child: "trie_node option")
    (terminal: bool)
    (is_multi: bool)

definition node_default :: trie_node where
  "node_default = TrieNode [] [] None False False"

datatype edge = Exact string | Glob string | Multi

text \<open>The branch taken for one label of a rule.\<close>

definition label_edge :: "string \<Rightarrow> edge" where
  "label_edge l = (if l = ''**'' then Multi else if CHR ''*'' \<in> set l then Glob l else Exact l)"

fun replace_first :: "string \<Rightarrow> trie_node \<Rightarrow> (string \<times> trie_node) list \<Rightarrow> (string \<times> trie_node) list" where
  "replace_first k v [] = [(k, v)]"
| "replace_first k v ((k', v') # es) =
     (if k' = k then (k', v) # es else (k', v') # replace_first k v es)"

text \<open>
  Descend along the labels, creating the missing nodes (\<^verbatim>\<open>get_or_create_exact\<close>, \<^verbatim>\<open>_pattern\<close>,
  \<^verbatim>\<open>_multi\<close>), and mark the last one as terminal. The flag tells whether it was new.
\<close>

fun insert_rule :: "string list \<Rightarrow> trie_node \<Rightarrow> trie_node \<times> bool" where
  "insert_rule [] (TrieNode ex ps mu t im) = (TrieNode ex ps mu True im, \<not> t)"
| "insert_rule (l # ls) (TrieNode ex ps mu t im) =
     (if l = ''**'' then
        let child = (case mu of Some c \<Rightarrow> c | None \<Rightarrow> TrieNode [] [] None False True);
            (child', new) = insert_rule ls child
        in (TrieNode ex ps (Some child') t im, new)
      else if CHR ''*'' \<in> set l then
        let child = (case map_of ps l of Some c \<Rightarrow> c | None \<Rightarrow> node_default);
            (child', new) = insert_rule ls child
        in (TrieNode ex (replace_first l child' ps) mu t im, new)
      else
        let key = to_lowercase l;
            child = (case map_of ex key of Some c \<Rightarrow> c | None \<Rightarrow> node_default);
            (child', new) = insert_rule ls child
        in (TrieNode (AList.update key child' ex) ps mu t im, new))"

section \<open>Matching\<close>

text \<open>The labels not yet consumed stand for the index of the source.\<close>

function (sequential) match_node :: "trie_node \<Rightarrow> string list \<Rightarrow> bool"
  and match_edges :: "bool \<Rightarrow> (string \<times> trie_node) list \<Rightarrow> string \<Rightarrow> string list \<Rightarrow> bool" where
  "match_node (TrieNode ex ps mu t im) labels =
     (if t \<and> (labels = [] \<or> im) then True
      else if (case mu of Some multi \<Rightarrow> match_node multi labels | None \<Rightarrow> False) then True
      else (case labels of
        [] \<Rightarrow> False
      | l # rest \<Rightarrow>
          if (case map_of ex l of
                Some child \<Rightarrow> if im \<and> terminal child then True else match_node child rest
              | None \<Rightarrow> False) then True
          else if match_edges im ps l rest then True
          else if im \<and> match_node (TrieNode ex ps mu t im) rest then True
          else (case mu of Some multi \<Rightarrow> match_node multi rest | None \<Rightarrow> False)))"
| "match_edges im [] l rest = False"
| "match_edges im ((raw, child) # es) l rest =
     (if label_matches_glob raw l \<and> (if im \<and> terminal child then True else match_node child rest)
      then True else match_edges im es l rest)"
  by pat_completeness auto
termination
  by (relation "measures [\<lambda>x. case x of Inl (n, ls) \<Rightarrow> 2 * length ls | Inr (im, es, l, rest) \<Rightarrow> 2 * length rest + 1,
      \<lambda>x. case x of Inl (n, ls) \<Rightarrow> size n | Inr (im, es, l, rest) \<Rightarrow> length es]")
    (auto split: list.splits)

declare match_node.simps [simp del]

subsection \<open>With the memo table\<close>

type_synonym memo_key = "edge list \<times> nat"
type_synonym memo = "memo_key \<rightharpoonup> bool"

text \<open>Alternatives are tried in turn, threading the table; a result is entered under its key
  before it is returned.\<close>

fun orelse :: "bool \<times> memo \<Rightarrow> (memo \<Rightarrow> bool \<times> memo) \<Rightarrow> bool \<times> memo" where
  "orelse (b, memo) f = (if b then (True, memo) else f memo)"

lemma orelse_cong [fundef_cong]:
  "r = r' \<Longrightarrow> (\<And>memo. r' = (False, memo) \<Longrightarrow> f memo = g memo) \<Longrightarrow> orelse r f = orelse r' g"
  by (cases r') auto

definition remember :: "memo_key \<Rightarrow> bool \<times> memo \<Rightarrow> bool \<times> memo" where
  "remember key r = (fst r, (snd r)(key \<mapsto> fst r))"

function (sequential) match_node_memo ::
    "edge list \<Rightarrow> trie_node \<Rightarrow> string list \<Rightarrow> memo \<Rightarrow> bool \<times> memo"
  and match_edges_memo ::
    "edge list \<Rightarrow> bool \<Rightarrow> (string \<times> trie_node) list \<Rightarrow> string \<Rightarrow> string list \<Rightarrow> memo \<Rightarrow> bool \<times> memo" where
  "match_node_memo path (TrieNode ex ps mu t im) labels memo =
     (let key = (path, length labels) in
      case memo key of
        Some cached \<Rightarrow> (cached, memo)
      | None \<Rightarrow> remember key
          (if t \<and> (labels = [] \<or> im) then (True, memo)
           else orelse (case mu of Some multi \<Rightarrow> match_node_memo (path @ [Multi]) multi labels memo
                        | None \<Rightarrow> (False, memo)) (\<lambda>memo.
             case labels of
               [] \<Rightarrow> (False, memo)
             | l # rest \<Rightarrow>
                 orelse (case map_of ex l of
                           Some child \<Rightarrow>
                             if im \<and> terminal child then (True, memo)
                             else match_node_memo (path @ [Exact l]) child rest memo
                         | None \<Rightarrow> (False, memo)) (\<lambda>memo.
                 orelse (match_edges_memo path im ps l rest memo) (\<lambda>memo.
                 orelse (if im then match_node_memo path (TrieNode ex ps mu t im) rest memo
                         else (False, memo)) (\<lambda>memo.
                 case mu of Some multi \<Rightarrow> match_node_memo (path @ [Multi]) multi rest memo
                 | None \<Rightarrow> (False, memo)))))))"
| "match_edges_memo path im [] l rest memo = (False, memo)"
| "match_edges_memo path im ((raw, child) # es) l rest memo =
     orelse (if label_matches_glob raw l then
               if im \<and> terminal child then (True, memo)
               else match_node_memo (path @ [Glob raw]) child rest memo
             else (False, memo)) (\<lambda>memo.
     match_edges_memo path im es l rest memo)"
  by pat_completeness auto
termination
  by (relation "measures [\<lambda>x. case x of Inl (p, n, ls, m) \<Rightarrow> 2 * length ls | Inr (p, im, es, l, rest, m) \<Rightarrow> 2 * length rest + 1,
      \<lambda>x. case x of Inl (p, n, ls, m) \<Rightarrow> size n | Inr (p, im, es, l, rest, m) \<Rightarrow> length es]")
    (auto split: list.splits)

declare match_node_memo.simps [simp del]

section \<open>The matcher\<close>

record block_matcher =
  bm_root :: trie_node
  bm_rule_count :: nat

definition matcher_default :: block_matcher where
  "matcher_default = \<lparr>bm_root = node_default, bm_rule_count = 0\<rparr>"

definition normalize_rule :: "string \<Rightarrow> string" where
  "normalize_rule rule =
     (let normalized = to_lowercase (trim (strip_suffix_char CHR ''.'' rule)) in
      if normalized = [] then []
      else if CHR ''*'' \<in> set normalized \<and> CHR ''.'' \<notin> set normalized then normalized @ ''.**''
      else normalized)"

definition split_labels_reversed :: "string \<Rightarrow> string list" where
  "split_labels_reversed domain =
     map to_lowercase (rev (filter (\<lambda>l. l \<noteq> []) (split_on CHR ''.'' domain)))"

definition add_pattern :: "string \<Rightarrow> block_matcher \<Rightarrow> block_matcher" where
  "add_pattern rule m =
     (let normalized = normalize_rule rule in
      if normalized = [] then m
      else let (root', new) = insert_rule (split_labels_reversed normalized) (bm_root m)
        in m\<lparr>bm_root := root', bm_rule_count := bm_rule_count m + (if new then 1 else 0)\<rparr>)"

definition batch_add :: "string list \<Rightarrow> block_matcher \<Rightarrow> block_matcher" where
  "batch_add rules m = fold add_pattern rules m"

definition from_patterns :: "string list \<Rightarrow> block_matcher" where
  "from_patterns rules = batch_add rules matcher_default"

text \<open>The lines a reader yields; \<open>None\<close> is a line that could not be read.\<close>

fun load_rules_from_reader :: "string option list \<Rightarrow> block_matcher \<Rightarrow> block_matcher \<times> nat" where
  "load_rules_from_reader [] m = (m, 0)"
| "load_rules_from_reader (None # lines) m = load_rules_from_reader lines m"
| "load_rules_from_reader (Some line # lines) m =
     (let trimmed = trim line in
      if trimmed = [] \<or> hd trimmed = CHR ''#'' then load_rules_from_reader lines m
      else let (m', loaded) = load_rules_from_reader lines (add_pattern trimmed m)
        in (m', loaded + 1))"

text \<open>Opening the file is a parameter: the reader's lines, or the I/O error.\<close>

definition load_rules_from_file ::
    "('path \<Rightarrow> 'e + string option list) \<Rightarrow> 'path \<Rightarrow> block_matcher \<Rightarrow> 'e + (block_matcher \<times> nat)" where
  "load_rules_from_file open_lines path m =
     (case open_lines path of Inl e \<Rightarrow> Inl e | Inr lines \<Rightarrow> Inr (load_rules_from_reader lines m))"

definition matcher_new :: "string list \<Rightarrow> string list \<Rightarrow> block_matcher" where
  "matcher_new exact_domains sfxs =
     fold (\<lambda>s. add_pattern (''**.'' @ strip_suffix_char CHR ''.'' s)) sfxs
       (fold add_pattern exact_domains matcher_default)"

definition is_blocked :: "block_matcher \<Rightarrow> string \<Rightarrow> bool" where
  "is_blocked m domain =
     (let name = to_lowercase (strip_suffix_char CHR ''.'' domain) in
      if name = [] then False
      else fst (match_node_memo [] (bm_root m) (split_labels_reversed name) Map.empty))"

definition matcher_is_empty :: "block_matcher \<Rightarrow> bool" where
  "matcher_is_empty m \<longleftrightarrow> bm_rule_count m = 0"

section \<open>The memo table is transparent\<close>

fun child_at :: "edge \<Rightarrow> trie_node \<Rightarrow> trie_node option" where
  "child_at (Exact l) n = map_of (exact_children n) l"
| "child_at (Glob g) n = map_of (pattern_children n) g"
| "child_at Multi n = multi_child n"

definition node_at :: "trie_node \<Rightarrow> edge list \<Rightarrow> trie_node option" where
  "node_at root path = foldl (\<lambda>o_node e. Option.bind o_node (child_at e)) (Some root) path"

lemma node_at_snoc: "node_at root (path @ [e]) = Option.bind (node_at root path) (child_at e)"
  by (simp add: node_at_def)

text \<open>Glob edges of a node have distinct patterns; multi edges, and only they, lead to multi
  nodes.\<close>

fun trie_wf :: "trie_node \<Rightarrow> bool" where
  "trie_wf (TrieNode ex ps mu t im) \<longleftrightarrow>
     distinct (map fst ps) \<and>
     list_all (\<lambda>(k, c). \<not> is_multi c \<and> trie_wf c) ex \<and>
     list_all (\<lambda>(k, c). \<not> is_multi c \<and> trie_wf c) ps \<and>
     (case mu of Some c \<Rightarrow> is_multi c \<and> trie_wf c | None \<Rightarrow> True)"

lemma trie_wf_child:
  "trie_wf n \<Longrightarrow> child_at e n = Some c \<Longrightarrow> trie_wf c \<and> (is_multi c \<longleftrightarrow> e = Multi)"
  by (cases n; cases e) (auto simp: list_all_iff dest!: map_of_SomeD)

definition memo_sound :: "trie_node \<Rightarrow> string list \<Rightarrow> (memo_key \<rightharpoonup> bool) \<Rightarrow> bool" where
  "memo_sound root all memo \<longleftrightarrow>
     (\<forall>path ls n b. memo (path, length ls) = Some b \<longrightarrow> suffix ls all \<longrightarrow>
        node_at root path = Some n \<longrightarrow> b = match_node n ls)"

lemma memo_sound_empty: "memo_sound root all Map.empty"
  by (simp add: memo_sound_def)

lemma suffix_same_length: "suffix xs zs \<Longrightarrow> suffix ys zs \<Longrightarrow> length xs = length ys \<Longrightarrow> xs = ys"
  by (auto simp: suffix_def)

lemma memo_sound_update:
  assumes "memo_sound root all memo" "node_at root path = Some n" "suffix ls all"
  shows "memo_sound root all (memo((path, length ls) \<mapsto> match_node n ls))"
  using assms by (auto simp: memo_sound_def dest: suffix_same_length)

definition sound_result :: "trie_node \<Rightarrow> string list \<Rightarrow> bool \<Rightarrow> bool \<times> memo \<Rightarrow> bool" where
  "sound_result root all v r \<longleftrightarrow> fst r = v \<and> memo_sound root all (snd r)"

lemma sound_resultI [intro]: "memo_sound root all memo \<Longrightarrow> sound_result root all v (v, memo)"
  by (simp add: sound_result_def)

lemma sound_orelse:
  assumes "sound_result root all v r"
    and "\<And>memo. r = (False, memo) \<Longrightarrow> memo_sound root all memo \<Longrightarrow> sound_result root all v' (f memo)"
  shows "sound_result root all (v \<or> v') (orelse r f)"
  using assms by (cases r) (auto simp: sound_result_def)

lemma sound_remember:
  assumes "sound_result root all (match_node n ls) r" "node_at root path = Some n" "suffix ls all"
  shows "sound_result root all (match_node n ls) (remember (path, length ls) r)"
  using assms memo_sound_update [OF _ assms(2,3)] by (auto simp: sound_result_def remember_def)

lemma match_node_eq:
  "match_node (TrieNode ex ps mu t im) labels \<longleftrightarrow>
     (if t \<and> (labels = [] \<or> im) then True
      else (case mu of Some multi \<Rightarrow> match_node multi labels | None \<Rightarrow> False) \<or>
        (case labels of
           [] \<Rightarrow> False
         | l # rest \<Rightarrow>
             (case map_of ex l of
                Some child \<Rightarrow> if im \<and> terminal child then True else match_node child rest
              | None \<Rightarrow> False) \<or>
             match_edges im ps l rest \<or> (im \<and> match_node (TrieNode ex ps mu t im) rest) \<or>
             (case mu of Some multi \<Rightarrow> match_node multi rest | None \<Rightarrow> False)))"
  by (subst match_node.simps) (auto split: list.splits)

lemma memo_correct:
  "memo_sound root all memo \<Longrightarrow> node_at root path = Some n \<Longrightarrow> trie_wf n \<Longrightarrow> suffix labels all \<Longrightarrow>
     sound_result root all (match_node n labels) (match_node_memo path n labels memo)"
  "memo_sound root all memo \<Longrightarrow>
     (\<forall>(raw, c) \<in> set es. node_at root (path @ [Glob raw]) = Some c \<and> trie_wf c) \<Longrightarrow>
     suffix rest all \<Longrightarrow>
     sound_result root all (match_edges im es l rest) (match_edges_memo path im es l rest memo)"
proof (induction path n labels memo and path im es l rest memo
    rule: match_node_memo_match_edges_memo.induct)
  case (1 path ex ps mu t im labels memo)
  let ?n = "TrieNode ex ps mu t im"
  have nd: "node_at root (path @ [e]) = child_at e ?n" for e
    using "1.prems"(2) by (simp add: node_at_snoc)
  have wfc: "trie_wf c" if "child_at e ?n = Some c" for e c
    using trie_wf_child [OF "1.prems"(3) that] by simp
  have ed: "\<forall>(raw, c) \<in> set ps. node_at root (path @ [Glob raw]) = Some c \<and> trie_wf c"
    using "1.prems"(3) nd by (auto simp: list_all_iff)
  have sf: "suffix rest all" if "labels = l # rest" for l rest
    using "1.prems"(4) that suffix_ConsD by metis
  show ?case
  proof (cases "memo (path, length labels)")
    case (Some cached)
    with "1.prems" show ?thesis
      by (subst match_node_memo.simps) (auto simp: memo_sound_def sound_result_def)
  next
    case None
    note IH = "1.IH" [OF refl None]
    let ?alts = "orelse (case mu of Some multi \<Rightarrow> match_node_memo (path @ [Multi]) multi labels memo
        | None \<Rightarrow> (False, memo)) (\<lambda>memo. case labels of
        [] \<Rightarrow> (False, memo)
      | l # rest \<Rightarrow>
          orelse (case map_of ex l of
              Some child \<Rightarrow> if im \<and> terminal child then (True, memo)
                else match_node_memo (path @ [Exact l]) child rest memo
            | None \<Rightarrow> (False, memo)) (\<lambda>memo.
          orelse (match_edges_memo path im ps l rest memo) (\<lambda>memo.
          orelse (if im then match_node_memo path ?n rest memo else (False, memo)) (\<lambda>memo.
          case mu of Some multi \<Rightarrow> match_node_memo (path @ [Multi]) multi rest memo
          | None \<Rightarrow> (False, memo)))))"
    have "sound_result root all (match_node ?n labels) (True, memo)" if "t \<and> (labels = [] \<or> im)"
      using that "1.prems"(1) by (subst match_node_eq) auto
    moreover have "sound_result root all (match_node ?n labels) ?alts" if F: "\<not> (t \<and> (labels = [] \<or> im))"
      unfolding match_node_eq [of ex ps mu t im labels] if_not_P [OF F]
    proof (rule sound_orelse, goal_cases)
      case 1
      show ?case
        using IH(1) [OF F] "1.prems" nd [of Multi] wfc [of Multi] by (cases mu) auto
    next
      case m1: (2 memo1)
      show ?case
      proof (cases labels)
        case Nil
        with m1 show ?thesis by auto
      next
        case L: (Cons l rest)
        note IHm = IH(2-) [OF F m1(1) L] and sf = sf [OF L]
        show ?thesis
          unfolding L list.case
        proof (intro sound_orelse, goal_cases)
          case 1
          show ?case
            using IHm(1) m1 nd [of "Exact l"] wfc [of "Exact l"] sf by (cases "map_of ex l") auto
        next
          case (2 memo2)
          with IHm(2) ed sf show ?case by simp
        next
          case (3 memo2 memo3)
          with IHm(3) "1.prems" sf show ?case by auto
        next
          case (4 memo2 memo3 memo4)
          with IHm(4) nd [of Multi] wfc [of Multi] sf show ?case by (cases mu) auto
        qed
      qed
    qed
    ultimately have "sound_result root all (match_node ?n labels) (remember (path, length labels)
        (if t \<and> (labels = [] \<or> im) then (True, memo) else ?alts))"
      by (intro sound_remember "1.prems") simp
    with None show ?thesis
      by (subst match_node_memo.simps) (simp add: Let_def)
  qed
next
  case (2 path im l rest memo)
  then show ?case by auto
next
  case (3 path im raw child es l rest memo)
  have eq: "match_edges im ((raw, child) # es) l rest \<longleftrightarrow>
      (label_matches_glob raw l \<and> (if im \<and> terminal child then True else match_node child rest)) \<or>
      match_edges im es l rest"
    by auto
  show ?case
    unfolding eq match_edges_memo.simps
  proof (rule sound_orelse, goal_cases)
    case 1
    show ?case using 3 by auto
  next
    case (2 memo')
    then show ?case using "3.IH"(2) [OF 2(1)] "3.prems" by auto
  qed
qed

lemma match_node_memo_eq:
  assumes "trie_wf root"
  shows "fst (match_node_memo [] root labels Map.empty) = match_node root labels"
  using memo_correct(1) [OF memo_sound_empty _ assms, of root "[]" labels labels]
  by (simp add: node_at_def sound_result_def)

section \<open>A trie is the set of its rules\<close>

fun has_rule :: "edge list \<Rightarrow> trie_node \<Rightarrow> bool" where
  "has_rule [] n \<longleftrightarrow> terminal n"
| "has_rule (e # es) n \<longleftrightarrow> (case child_at e n of Some c \<Rightarrow> has_rule es c | None \<Rightarrow> False)"

text \<open>The match of one rule against the remaining labels; the flag tells that the previous edge
  was a multi edge, which may skip labels, and after which the rule need not reach the end.\<close>

function (sequential) rule_matches :: "bool \<Rightarrow> edge list \<Rightarrow> string list \<Rightarrow> bool" where
  "rule_matches im [] labels \<longleftrightarrow> labels = [] \<or> im"
| "rule_matches im (Multi # es) labels \<longleftrightarrow>
     rule_matches True es labels \<or>
     (case labels of [] \<Rightarrow> False | l # rest \<Rightarrow>
        im \<and> rule_matches im (Multi # es) rest \<or> rule_matches True es rest)"
| "rule_matches im (Exact k # es) labels \<longleftrightarrow>
     (case labels of [] \<Rightarrow> False | l # rest \<Rightarrow>
        l = k \<and> (im \<and> es = [] \<or> rule_matches False es rest) \<or> im \<and> rule_matches im (Exact k # es) rest)"
| "rule_matches im (Glob g # es) labels \<longleftrightarrow>
     (case labels of [] \<Rightarrow> False | l # rest \<Rightarrow>
        label_matches_glob g l \<and> (im \<and> es = [] \<or> rule_matches False es rest) \<or>
        im \<and> rule_matches im (Glob g # es) rest)"
  by pat_completeness auto
termination
  by (relation "measures [\<lambda>(im, es, ls). length es + length ls]") (auto split: list.splits)

declare rule_matches.simps [simp del]

lemma match_edges_iff:
  "match_edges im ps l rest \<longleftrightarrow>
     (\<exists>(g, c) \<in> set ps. label_matches_glob g l \<and> (im \<and> terminal c \<or> match_node c rest))"
  by (induction ps) auto

text \<open>What one edge contributes at the first of the remaining labels.\<close>

fun edge_step :: "bool \<Rightarrow> edge \<Rightarrow> edge list \<Rightarrow> string \<Rightarrow> string list \<Rightarrow> bool" where
  "edge_step im Multi es l rest \<longleftrightarrow> rule_matches True es (l # rest) \<or> rule_matches True es rest"
| "edge_step im (Exact k) es l rest \<longleftrightarrow> l = k \<and> (im \<and> es = [] \<or> rule_matches False es rest)"
| "edge_step im (Glob g) es l rest \<longleftrightarrow>
     label_matches_glob g l \<and> (im \<and> es = [] \<or> rule_matches False es rest)"

lemma rule_matches_Cons:
  "rule_matches im (e # es) (l # rest) \<longleftrightarrow>
     edge_step im e es l rest \<or> im \<and> rule_matches im (e # es) rest"
  using rule_matches.simps(2) [of im es "l # rest"] rule_matches.simps(3) [of im _ es "l # rest"]
    rule_matches.simps(4) [of im _ es "l # rest"]
  by (cases e) auto

lemma rule_matches_end:
  "rule_matches im (e # es) [] \<longleftrightarrow> e = Multi \<and> rule_matches True es []"
  using rule_matches.simps(2) [of im es "[]"] rule_matches.simps(3) [of im _ es "[]"]
    rule_matches.simps(4) [of im _ es "[]"]
  by (cases e) auto

lemma has_rule_split:
  "(\<exists>es. has_rule es n \<and> P es) \<longleftrightarrow>
     terminal n \<and> P [] \<or> (\<exists>e c. child_at e n = Some c \<and> (\<exists>es. has_rule es c \<and> P (e # es)))"
  (is "?L \<longleftrightarrow> ?R")
proof
  assume ?L
  then obtain es where "has_rule es n" "P es" by blast
  then show ?R by (cases es) (auto split: option.splits)
next
  assume ?R
  then show ?L
    by (metis has_rule.simps option.case(2))
qed

lemma split_edge: "(\<exists>e. P e) \<longleftrightarrow> P Multi \<or> (\<exists>k. P (Exact k)) \<or> (\<exists>g. P (Glob g))"
  by (metis edge.exhaust)

lemma match_node_rules:
  "trie_wf n \<Longrightarrow> match_node n labels \<longleftrightarrow> (\<exists>es. has_rule es n \<and> rule_matches (is_multi n) es labels)"
proof (induction labels arbitrary: n rule: length_induct)
  case outer: (1 labels)
  show ?case
    using outer.prems
  proof (induction n rule: measure_induct_rule [of size])
    case (less n)
    obtain ex ps mu t im where n: "n = TrieNode ex ps mu t im" by (cases n)
    have child: "trie_wf c" "is_multi c \<longleftrightarrow> e = Multi" if "child_at e n = Some c" for e c
      using trie_wf_child [OF less.prems that] by auto
    have mu: "(case mu of Some m \<Rightarrow> match_node m labels | None \<Rightarrow> False) \<longleftrightarrow>
        (\<exists>c. child_at Multi n = Some c \<and> (\<exists>es. has_rule es c \<and> rule_matches True es labels))"
      using less.IH child [of Multi] by (auto simp: n split: option.splits)
    show ?case
    proof (cases labels)
      case Nil
      have "match_node n [] \<longleftrightarrow> t \<or> (case mu of Some m \<Rightarrow> match_node m [] | None \<Rightarrow> False)"
        unfolding n by (subst match_node_eq) auto
      also have "\<dots> \<longleftrightarrow> (\<exists>es. has_rule es n \<and> rule_matches im es [])"
        using mu unfolding Nil has_rule_split [of n] rule_matches_end
        by (auto simp: n rule_matches.simps(1))
      finally show ?thesis by (simp add: Nil n)
    next
      case L: (Cons l rest)
      have IH: "match_node c rest \<longleftrightarrow> (\<exists>es. has_rule es c \<and> rule_matches (is_multi c) es rest)"
        if "trie_wf c" for c
        using outer.IH that L by auto
      have kid: "im \<and> terminal c \<or> match_node c rest \<longleftrightarrow>
          (\<exists>es. has_rule es c \<and> (im \<and> es = [] \<or> rule_matches False es rest))"
        if "child_at e n = Some c" "e \<noteq> Multi" for e c
        using IH [of c] child [OF that(1)] that(2) by (metis has_rule.simps(1))
      have mu': "(case mu of Some m \<Rightarrow> match_node m rest | None \<Rightarrow> False) \<longleftrightarrow>
          (\<exists>c. child_at Multi n = Some c \<and> (\<exists>es. has_rule es c \<and> rule_matches True es rest))"
        using IH child [of Multi] by (auto simp: n split: option.splits)
      have ps: "match_edges im ps l rest \<longleftrightarrow> (\<exists>g c. child_at (Glob g) n = Some c \<and>
          (\<exists>es. has_rule es c \<and> edge_step im (Glob g) es l rest))"
      proof -
        have "distinct (map fst ps)" using less.prems by (simp add: n)
        then have "(g, c) \<in> set ps \<longleftrightarrow> child_at (Glob g) n = Some c" for g c
          by (simp add: n)
        then show ?thesis
          unfolding match_edges_iff using kid [of "Glob _"] by fastforce
      qed
      have ex: "(case map_of ex l of
             Some child \<Rightarrow> if im \<and> terminal child then True else match_node child rest
           | None \<Rightarrow> False) \<longleftrightarrow> (\<exists>k c. child_at (Exact k) n = Some c \<and>
          (\<exists>es. has_rule es c \<and> edge_step im (Exact k) es l rest))"
      proof -
        have "(\<exists>k c. child_at (Exact k) n = Some c \<and>
            (\<exists>es. has_rule es c \<and> edge_step im (Exact k) es l rest)) \<longleftrightarrow>
          (\<exists>c. child_at (Exact l) n = Some c \<and>
            (\<exists>es. has_rule es c \<and> (im \<and> es = [] \<or> rule_matches False es rest)))"
          by (metis edge_step.simps(2))
        also have "\<dots> \<longleftrightarrow> (\<exists>c. map_of ex l = Some c \<and> (im \<and> terminal c \<or> match_node c rest))"
          using kid [of "Exact l"] by (auto simp: n)
        finally show ?thesis by (auto split: option.splits)
      qed
      have "match_node n labels \<longleftrightarrow> t \<and> im \<or>
          (\<exists>e c. child_at e n = Some c \<and> (\<exists>es. has_rule es c \<and> edge_step im e es l rest)) \<or>
          im \<and> match_node n rest"
        unfolding n match_node_eq [of ex ps mu t im labels] 
        using mu mu' ps ex unfolding n L by (auto simp: split_edge)
      also have "\<dots> \<longleftrightarrow> (\<exists>es. has_rule es n \<and> rule_matches im es labels)"
        unfolding L has_rule_split [of n "\<lambda>es. rule_matches im es (l # rest)"] rule_matches_Cons
        using IH [OF less.prems] has_rule_split [of n "\<lambda>es. rule_matches im es rest"]
        by (auto simp: n rule_matches.simps(1))
      finally show ?thesis by (simp add: n)
    qed
  qed
qed

section \<open>Insertion adds the rule\<close>

lemma map_of_replace_first: "map_of (replace_first k v es) k' = (if k' = k then Some v else map_of es k')"
  by (induction k v es rule: replace_first.induct) auto

lemma set_replace_first: "x \<in> set (replace_first k v es) \<Longrightarrow> x = (k, v) \<or> x \<in> set es"
  by (induction k v es rule: replace_first.induct) (auto split: if_splits)

lemma distinct_replace_first:
  "distinct (map fst es) \<Longrightarrow> distinct (map fst (replace_first k v es))"
proof (induction k v es rule: replace_first.induct)
  case (2 k v k' v' es)
  then show ?case by (auto dest!: set_replace_first)
qed simp

lemma set_update_subset: "x \<in> set (AList.update k v es) \<Longrightarrow> x = (k, v) \<or> x \<in> set es"
  by (induction es) (auto split: if_splits)

definition rule_edges :: "string list \<Rightarrow> edge list" where
  "rule_edges ls = map label_edge ls"

lemma insert_rule_wf:
  "trie_wf n \<Longrightarrow> trie_wf (fst (insert_rule ls n)) \<and> is_multi (fst (insert_rule ls n)) = is_multi n"
proof (induction ls n rule: insert_rule.induct)
  case (1 ex ps mu t im)
  then show ?case by simp
next
  case (2 l ls ex ps mu t im)
  have d: "trie_wf node_default" "\<not> is_multi node_default"
    by (simp_all add: node_default_def)
  consider "l = ''**''" | "l \<noteq> ''**''" "CHR ''*'' \<in> set l" | "l \<noteq> ''**''" "CHR ''*'' \<notin> set l" by blast
  then show ?case
  proof cases
    case 1
    let ?c = "case mu of Some c \<Rightarrow> c | None \<Rightarrow> TrieNode [] [] None False True"
    have "trie_wf ?c \<and> is_multi ?c" using 2(4) by (cases mu) auto
    with 2(1) [OF 1 refl] 2(4) 1 show ?thesis
      by (auto simp: Let_def split: prod.splits)
  next
    case g: 2
    let ?c = "case map_of ps l of Some c \<Rightarrow> c | None \<Rightarrow> node_default"
    have "trie_wf ?c \<and> \<not> is_multi ?c"
      using 2(4) d by (auto simp: list_all_iff split: option.splits dest!: map_of_SomeD)
    with 2(2) [OF g refl] 2(4) g show ?thesis
      by (auto simp: Let_def list_all_iff distinct_replace_first split: prod.splits dest!: set_replace_first)
  next
    case e: 3
    let ?c = "case map_of ex (to_lowercase l) of Some c \<Rightarrow> c | None \<Rightarrow> node_default"
    have "trie_wf ?c \<and> \<not> is_multi ?c"
      using 2(4) d by (auto simp: list_all_iff split: option.splits dest!: map_of_SomeD)
    with 2(3) [OF e refl refl] 2(4) e show ?thesis
      by (auto simp: Let_def list_all_iff split: prod.splits dest!: set_update_subset)
  qed
qed

lemma has_rule_empty: "\<not> has_rule es (TrieNode [] [] None False im)"
  by (cases es; cases "hd es") auto

lemma insert_rule_has:
  assumes "list_all (\<lambda>l. to_lowercase l = l) ls"
  shows "has_rule es (fst (insert_rule ls n)) \<longleftrightarrow> es = rule_edges ls \<or> has_rule es n"
  using assms
proof (induction ls n arbitrary: es rule: insert_rule.induct)
  case (1 ex ps mu t im)
  then show ?case
  proof (cases es)
    case (Cons e es')
    then show ?thesis by (cases e) (auto simp: rule_edges_def)
  qed (simp add: rule_edges_def)
next
  case (2 l ls ex ps mu t im)
  have low: "to_lowercase l = l" "list_all (\<lambda>l. to_lowercase l = l) ls" using 2(4) by auto
  have he: "\<not> has_rule es node_default" for es
    by (simp add: node_default_def has_rule_empty)
  show ?case
  proof (cases es)
    case Nil
    then show ?thesis
      by (auto simp: rule_edges_def Let_def split: prod.splits)
  next
    case E: (Cons e es')
    consider "l = ''**''" | "l \<noteq> ''**''" "CHR ''*'' \<in> set l" | "l \<noteq> ''**''" "CHR ''*'' \<notin> set l" by blast
    then show ?thesis
    proof cases
      case 1
      with E 2(1) [OF 1 refl low(2), of es'] has_rule_empty show ?thesis
        by (cases e) (auto simp: rule_edges_def label_edge_def Let_def split: prod.splits option.splits)
    next
      case g: 2
      with E 2(2) [OF g refl low(2), of es'] he show ?thesis
        by (cases e) (auto simp: rule_edges_def label_edge_def Let_def map_of_replace_first
            split: prod.splits option.splits)
    next
      case x: 3
      with E 2(3) [OF x refl refl low(2), of es'] he low(1) show ?thesis
        by (cases e) (auto simp: rule_edges_def label_edge_def Let_def update_conv'
            split: prod.splits option.splits)
    qed
  qed
qed

section \<open>The rules of a matcher\<close>

lemma insert_rule_new:
  assumes "list_all (\<lambda>l. to_lowercase l = l) ls"
  shows "snd (insert_rule ls n) \<longleftrightarrow> \<not> has_rule (rule_edges ls) n"
  using assms
proof (induction ls n rule: insert_rule.induct)
  case (1 ex ps mu t im)
  then show ?case by (simp add: rule_edges_def)
next
  case (2 l ls ex ps mu t im)
  have low: "to_lowercase l = l" "list_all (\<lambda>l. to_lowercase l = l) ls" using 2(4) by auto
  have he: "\<not> has_rule es node_default" for es
    by (simp add: node_default_def has_rule_empty)
  consider "l = ''**''" | "l \<noteq> ''**''" "CHR ''*'' \<in> set l" | "l \<noteq> ''**''" "CHR ''*'' \<notin> set l" by blast
  then show ?case
  proof cases
    case 1
    with 2(1) [OF 1 refl low(2)] has_rule_empty show ?thesis
      by (auto simp: rule_edges_def label_edge_def Let_def split: prod.splits option.splits)
  next
    case g: 2
    with 2(2) [OF g refl low(2)] he show ?thesis
      by (auto simp: rule_edges_def label_edge_def Let_def split: prod.splits option.splits)
  next
    case x: 3
    with 2(3) [OF x refl refl low(2)] he low(1) show ?thesis
      by (auto simp: rule_edges_def label_edge_def Let_def split: prod.splits option.splits)
  qed
qed

text \<open>The path of a rule in the trie, and the rules a list of patterns denotes.\<close>

definition pattern_path :: "string \<Rightarrow> edge list" where
  "pattern_path rule = rule_edges (split_labels_reversed (normalize_rule rule))"

definition pattern_paths :: "string list \<Rightarrow> edge list set" where
  "pattern_paths rules = pattern_path ` {r \<in> set rules. normalize_rule r \<noteq> []}"

lemma pattern_paths_single:
  "pattern_paths [r] = (if normalize_rule r = [] then {} else {pattern_path r})"
  by (auto simp: pattern_paths_def)

definition matcher_holds :: "edge list set \<Rightarrow> block_matcher \<Rightarrow> bool" where
  "matcher_holds R m \<longleftrightarrow>
     finite R \<and> trie_wf (bm_root m) \<and> \<not> is_multi (bm_root m) \<and>
     (\<forall>es. has_rule es (bm_root m) \<longleftrightarrow> es \<in> R) \<and> bm_rule_count m = card R"

lemma matcher_holds_default: "matcher_holds {} matcher_default"
  by (simp add: matcher_holds_def matcher_default_def node_default_def has_rule_empty)

lemma split_labels_reversed_lower: "list_all (\<lambda>l. to_lowercase l = l) (split_labels_reversed d)"
  by (auto simp: split_labels_reversed_def list_all_iff)

lemma matcher_holds_add:
  assumes "matcher_holds R m"
  shows "matcher_holds (pattern_paths [rule] \<union> R) (add_pattern rule m)"
proof (cases "normalize_rule rule = []")
  case True
  with assms show ?thesis by (simp add: pattern_paths_single add_pattern_def)
next
  case False
  let ?ls = "split_labels_reversed (normalize_rule rule)"
  note low = split_labels_reversed_lower [of "normalize_rule rule"]
  obtain r' new where i: "insert_rule ?ls (bm_root m) = (r', new)" by fastforce
  have p: "pattern_paths [rule] = {rule_edges ?ls}"
    using False by (simp add: pattern_paths_single pattern_path_def)
  from assms have m: "finite R" "trie_wf (bm_root m)" "\<not> is_multi (bm_root m)"
      "\<And>es. has_rule es (bm_root m) \<longleftrightarrow> es \<in> R" "bm_rule_count m = card R"
    by (simp_all add: matcher_holds_def)
  then show ?thesis
    using insert_rule_wf [OF m(2), of ?ls] insert_rule_has [OF low, of _ "bm_root m"]
      insert_rule_new [OF low, of "bm_root m"] i False
    by (simp add: matcher_holds_def add_pattern_def p insert_absorb card_insert_if)
qed

lemma pattern_paths_Nil [simp]: "pattern_paths [] = {}"
  by (simp add: pattern_paths_def)

lemma pattern_paths_append: "pattern_paths (xs @ ys) = pattern_paths xs \<union> pattern_paths ys"
  by (auto simp: pattern_paths_def)

lemma pattern_paths_Cons: "pattern_paths (x # ys) = pattern_paths [x] \<union> pattern_paths ys"
  by (metis append_Cons append_Nil pattern_paths_append)

lemma matcher_holds_batch:
  "matcher_holds R m \<Longrightarrow> matcher_holds (pattern_paths rules \<union> R) (fold add_pattern rules m)"
proof (induction rules arbitrary: R m)
  case (Cons r rules)
  then show ?case
    using Cons.IH [OF matcher_holds_add [OF Cons.prems, of r]]
    by (simp add: pattern_paths_Cons [of r rules] ac_simps)
qed simp

lemma from_patterns_holds: "matcher_holds (pattern_paths rules) (from_patterns rules)"
  using matcher_holds_batch [OF matcher_holds_default, of rules]
  by (simp add: from_patterns_def batch_add_def)

definition query_labels :: "string \<Rightarrow> string list" where
  "query_labels domain = split_labels_reversed (to_lowercase (strip_suffix_char CHR ''.'' domain))"

lemma is_blocked_holds:
  assumes "matcher_holds R m"
  shows "is_blocked m domain \<longleftrightarrow> strip_suffix_char CHR ''.'' domain \<noteq> [] \<and>
    (\<exists>es \<in> R. rule_matches False es (query_labels domain))"
proof -
  have m: "trie_wf (bm_root m)" "\<not> is_multi (bm_root m)" "\<And>es. has_rule es (bm_root m) \<longleftrightarrow> es \<in> R"
    using assms by (simp_all add: matcher_holds_def)
  show ?thesis
    using match_node_memo_eq [OF m(1)] match_node_rules [OF m(1)] m(2,3)
    by (auto simp: is_blocked_def query_labels_def Let_def to_lowercase_def)
qed

section \<open>Loading from a reader\<close>

definition rule_lines :: "string option list \<Rightarrow> string list" where
  "rule_lines lines = filter (\<lambda>l. l \<noteq> [] \<and> hd l \<noteq> CHR ''#'') (map trim (List.map_filter id lines))"

lemma load_rules_from_reader_eq:
  "load_rules_from_reader lines m = (batch_add (rule_lines lines) m, length (rule_lines lines))"
  by (induction lines m rule: load_rules_from_reader.induct)
    (auto simp: rule_lines_def batch_add_def Let_def map_filter_simps split: prod.splits)

section \<open>Exact and suffix rules\<close>

lemma rule_matches_exact: "rule_matches False (map Exact ks) labels \<longleftrightarrow> labels = ks"
proof (induction ks arbitrary: labels)
  case Nil
  then show ?case by (simp add: rule_matches.simps(1))
next
  case (Cons k ks)
  then show ?case
    by (cases labels) (auto simp: rule_matches_Cons rule_matches_end)
qed

lemma rule_matches_suffix: "rule_matches False (map Exact ks @ [Multi]) labels \<longleftrightarrow> prefix ks labels"
proof (induction ks arbitrary: labels)
  case Nil
  then show ?case by (cases labels) (auto simp: rule_matches_Cons rule_matches_end rule_matches.simps(1))
next
  case (Cons k ks)
  then show ?case
    by (cases labels) (auto simp: rule_matches_Cons rule_matches_end)
qed

lemma rule_matches_any: "rule_matches False [Multi, Multi] labels"
  by (cases labels) (auto simp: rule_matches_Cons rule_matches_end rule_matches.simps(1,2))

text \<open>Strings without wildcards and blanks, on which normalisation is only case folding.\<close>

definition plain :: "string \<Rightarrow> bool" where
  "plain s \<longleftrightarrow> list_all (\<lambda>c. c \<noteq> CHR ''*'' \<and> \<not> is_whitespace c) s"

lemma plain_strip: "plain s \<Longrightarrow> plain (strip_suffix_char c s)"
  by (auto simp: plain_def list_all_iff strip_suffix_char_def dest: in_set_butlastD)


lemma split_labels_reversed_lowercase [simp]:
  "split_labels_reversed (to_lowercase s) = split_labels_reversed s"
  by (simp add: split_labels_reversed_def to_lowercase_def split_on_map filter_map comp_def rev_map)

lemma split_labels_reversed_strip [simp]:
  "split_labels_reversed (strip_suffix_char CHR ''.'' s) = split_labels_reversed s"
proof (cases "s \<noteq> [] \<and> last s = CHR ''.''")
  case True
  then obtain s' where "s = s' @ [CHR ''.'']" by (metis append_butlast_last_id)
  then show ?thesis by (simp add: split_labels_reversed_def strip_suffix_char_def split_on_snoc_sep)
qed (auto simp: strip_suffix_char_def)

lemma query_labels_eq: "query_labels d = split_labels_reversed d"
  by (simp add: query_labels_def)

lemma split_labels_reversed_multi:
  "split_labels_reversed (''**.'' @ s) = split_labels_reversed s @ [''**'']"
  by (simp add: split_labels_reversed_def to_lowercase_def ascii_lower_def)

lemma plain_lower: "plain s \<Longrightarrow> CHR ''*'' \<notin> set (to_lowercase s)"
  by (induction s) (auto simp: plain_def to_lowercase_def eq_commute [of "CHR ''*''"])

lemma rule_edges_plain:
  assumes "plain s"
  shows "rule_edges (split_labels_reversed s) = map Exact (split_labels_reversed s)"
proof -
  have "CHR ''*'' \<notin> set l" if "l \<in> set (split_labels_reversed s)" for l
  proof -
    from that obtain p where p: "p \<in> set (split_on CHR ''.'' s)" "l = to_lowercase p"
      by (auto simp: split_labels_reversed_def)
    then have "plain p" using assms split_on_chars [OF p(1)] by (auto simp: plain_def list_all_iff)
    with p(2) show ?thesis by (simp add: plain_lower)
  qed
  then show ?thesis by (fastforce simp: rule_edges_def label_edge_def)
qed

lemma plain_trim: "plain s \<Longrightarrow> trim s = s"
  by (simp add: trim_id plain_def list_all_iff)

lemma pattern_paths_plain:
  assumes "plain e"
  shows "pattern_paths [e] =
    (if strip_suffix_char CHR ''.'' e = [] then {} else {map Exact (split_labels_reversed e)})"
proof -
  have s: "plain (strip_suffix_char CHR ''.'' e)" using assms by (rule plain_strip)
  then have "normalize_rule e = to_lowercase (strip_suffix_char CHR ''.'' e)"
    by (simp add: normalize_rule_def plain_trim plain_lower Let_def)
  moreover have "to_lowercase x = [] \<longleftrightarrow> x = []" for x
    by (simp add: to_lowercase_def)
  ultimately show ?thesis
    using rule_edges_plain [OF assms] by (simp add: pattern_paths_single pattern_path_def)
qed

lemma normalize_suffix_rule:
  assumes "plain x" "x \<noteq> []"
  shows "normalize_rule (''**.'' @ x) = ''**.'' @ to_lowercase (strip_suffix_char CHR ''.'' x)"
proof -
  have "list_all (\<lambda>c. \<not> is_whitespace c) (''**.'' @ strip_suffix_char CHR ''.'' x)"
    using plain_strip [OF assms(1), of "CHR ''.''"] by (auto simp: plain_def list_all_iff is_whitespace_def)
  then show ?thesis
    using strip_suffix_char_append [OF assms(2), of "CHR ''.''" "''**.''"]
    by (simp add: normalize_rule_def trim_id Let_def to_lowercase_def ascii_lower_def)
qed

lemma pattern_paths_suffix_matches:
  assumes "plain s"
  shows "(\<exists>es \<in> pattern_paths [''**.'' @ strip_suffix_char CHR ''.'' s]. rule_matches False es labels) \<longleftrightarrow>
    prefix (split_labels_reversed s) labels"
proof (cases "strip_suffix_char CHR ''.'' s = []")
  case True
  have n: "normalize_rule ''**.'' = ''**.**''" by code_simp
  have "split_labels_reversed ''**.**'' = [''**'', ''**'']" by code_simp
  then have "pattern_paths [''**.''] = {[Multi, Multi]}"
    by (simp add: pattern_paths_single pattern_path_def n rule_edges_def label_edge_def)
  moreover have "split_labels_reversed s = []"
    using split_labels_reversed_strip [of s] True by (simp add: split_labels_reversed_def)
  ultimately show ?thesis using True rule_matches_any by simp
next
  case False
  let ?x = "strip_suffix_char CHR ''.'' s"
  have "pattern_path (''**.'' @ ?x) = map Exact (split_labels_reversed s) @ [Multi]"
    unfolding pattern_path_def normalize_suffix_rule [OF plain_strip [OF assms] False]
      split_labels_reversed_multi
    using rule_edges_plain [OF assms] by (simp add: rule_edges_def label_edge_def)
  moreover have "normalize_rule (''**.'' @ ?x) \<noteq> []"
    unfolding normalize_suffix_rule [OF plain_strip [OF assms] False] by simp
  ultimately show ?thesis
    using rule_matches_suffix by (simp add: pattern_paths_single)
qed

lemma matcher_new_holds:
  "matcher_holds (pattern_paths (map (\<lambda>s. ''**.'' @ strip_suffix_char CHR ''.'' s) sfxs) \<union>
     pattern_paths exact) (matcher_new exact sfxs)"
  using matcher_holds_batch [OF matcher_holds_batch [OF matcher_holds_default, of exact],
    of "map (\<lambda>s. ''**.'' @ strip_suffix_char CHR ''.'' s) sfxs"]
  by (simp add: matcher_new_def fold_map comp_def)

lemma pattern_paths_ex:
  "(\<exists>es \<in> pattern_paths rules. P es) \<longleftrightarrow> (\<exists>r \<in> set rules. \<exists>es \<in> pattern_paths [r]. P es)"
  by (auto simp: pattern_paths_def)

section \<open>Globs\<close>

text \<open>
  The wildcard language of a pattern, over the pieces between its stars: the first piece starts
  the label, the others follow in order without overlapping, the last one ends it.
\<close>

fun wild_parts :: "string list \<Rightarrow> string \<Rightarrow> bool" where
  "wild_parts [] t \<longleftrightarrow> False"
| "wild_parts [p] t \<longleftrightarrow> t = p"
| "wild_parts (p # q # ps) t \<longleftrightarrow>
     prefix p t \<and> (\<exists>k \<in> {length p..length t}. wild_parts (q # ps) (drop k t))"

definition wildcard :: "string \<Rightarrow> string \<Rightarrow> bool" where
  "wildcard pattern label = wild_parts (split_on CHR ''*'' (to_lowercase pattern)) (to_lowercase label)"

lemma str_find_le:
  "prefix part (drop m s) \<Longrightarrow> m \<le> length s \<Longrightarrow> \<exists>j \<le> m. str_find part s = Some j"
proof (induction s arbitrary: m)
  case (Cons x s)
  show ?case
  proof (cases m)
    case 0
    with Cons.prems show ?thesis by auto
  next
    case (Suc n)
    with Cons.IH [of n] Cons.prems show ?thesis by auto
  qed
qed auto

lemma glob_parts_complete:
  "\<lbrakk>pos \<le> k; k \<le> length t; wild_parts parts (drop k t); 0 < i; n = i + length parts\<rbrakk>
     \<Longrightarrow> glob_parts i n parts t pos"
proof (induction parts arbitrary: i pos k)
  case (Cons p ps)
  show ?case
  proof (cases ps)
    case Nil
    with Cons.prems show ?thesis
      using suffix_drop [of k t] by auto
  next
    case (Cons q qs)
    note prems = Cons.prems [unfolded Cons]
    from prems(3) obtain k' where k': "prefix p (drop k t)" "length p \<le> k'" "k' \<le> length t - k"
        "wild_parts ps (drop (k + k') t)"
      by (auto simp: Cons add.commute)
    have IH: "glob_parts (i + 1) n ps t pos'" if "pos' \<le> k + k'" for pos'
      using Cons.IH [of pos' "k + k'" "i + 1"] that k' Cons.prems(2,5) by auto
    have "prefix p (drop (k - pos) (drop pos t))" "k - pos \<le> length (drop pos t)"
      using k'(1) prems(1,2) by auto
    from str_find_le [OF this] obtain j where j: "j \<le> k - pos" "str_find p (drop pos t) = Some j" by blast
    have last: "i \<noteq> n - 1" using prems(5) by simp
    show ?thesis
      using IH [of pos] IH [of "pos + (j + length p)"] j k' prems(1,4) last by auto
  qed
qed simp

lemma label_matches_glob_complete: "wildcard p t \<Longrightarrow> label_matches_glob p t"
proof -
  assume w: "wildcard p t"
  let ?p = "to_lowercase p" and ?t = "to_lowercase t"
  have star: "CHR ''*'' \<in> set ?p \<longleftrightarrow> CHR ''*'' \<in> set p"
    by (induction p) (auto simp: to_lowercase_def eq_commute [of "CHR ''*''"])
  show ?thesis
  proof (cases "CHR ''*'' \<in> set p")
    case False
    with w star show ?thesis by (simp add: wildcard_def split_on_no_sep label_matches_glob_def)
  next
    case True
    then obtain a b where ab: "?p = a @ CHR ''*'' # b" "CHR ''*'' \<notin> set a"
      using star by (meson split_list_first)
    then have s: "split_on CHR ''*'' ?p = a # split_on CHR ''*'' b" (is "_ = a # ?ps")
      by (simp add: split_on_append_sep)
    obtain q qs where q: "?ps = q # qs" by (cases ?ps) auto
    from w obtain k where "prefix a ?t" "length a \<le> k" "k \<le> length ?t" "wild_parts ?ps (drop k ?t)"
      by (auto simp: wildcard_def s q)
    then show ?thesis
      using glob_parts_complete [of "length a" k ?t ?ps 1] glob_parts_complete [of 0 k ?t ?ps 1] True
      by (auto simp: label_matches_glob_def s)
  qed
qed

lemma label_matches_one_star:
  assumes "CHR ''*'' \<notin> set a" "CHR ''*'' \<notin> set b"
  shows "label_matches_glob (a @ CHR ''*'' # b) t \<longleftrightarrow>
    prefix (to_lowercase a) (to_lowercase t) \<and> suffix (to_lowercase b) (to_lowercase t)"
proof -
  have l: "CHR ''*'' \<notin> set (to_lowercase s)" if "CHR ''*'' \<notin> set s" for s
    using that by (induction s) (auto simp: to_lowercase_def eq_commute [of "CHR ''*''"])
  have "split_on CHR ''*'' (to_lowercase (a @ CHR ''*'' # b)) = [to_lowercase a, to_lowercase b]"
    using l [OF assms(1)] l [OF assms(2)]
    by (simp add: to_lowercase_def ascii_lower_def split_on_append_sep split_on_no_sep)
  then show ?thesis by (auto simp: label_matches_glob_def)
qed

lemma is_blocked_from_patterns:
  "is_blocked (from_patterns rules) domain \<longleftrightarrow>
     strip_suffix_char CHR ''.'' domain \<noteq> [] \<and>
     (\<exists>r \<in> set rules. normalize_rule r \<noteq> [] \<and>
        rule_matches False (pattern_path r) (split_labels_reversed domain))"
  using is_blocked_holds [OF from_patterns_holds, of rules domain]
  by (auto simp: query_labels_eq pattern_paths_def)

section \<open>Properties\<close>

text \<open>C31: a matcher built from a list of patterns blocks a domain exactly when the name is not
  empty and one of the patterns, on its own, matches its labels; adding rules never unblocks a
  name, and neither the trie's sharing of prefixes nor the memo table changes the answer.\<close>

theorem is_blocked_iff_some_rule:
  "is_blocked (from_patterns rules) domain \<longleftrightarrow>
     strip_suffix_char CHR ''.'' domain \<noteq> [] \<and>
     (\<exists>r \<in> set rules. normalize_rule r \<noteq> [] \<and>
        rule_matches False (pattern_path r) (split_labels_reversed domain))"
  by (rule is_blocked_from_patterns)

text \<open>C32: the memo table of the recursive match is transparent: on a well-formed trie the match
  with the table, started empty, returns what the plain recursion returns.\<close>

theorem memo_transparent:
  assumes "trie_wf root"
  shows "fst (match_node_memo [] root labels Map.empty) = match_node root labels"
  using assms by (rule match_node_memo_eq)

definition sample_trie :: trie_node where
  "sample_trie = bm_root (from_patterns [''**.umeng.**'', ''*.a.b''])"

theorem memo_transparent_witness:
  "trie_wf sample_trie \<and>
   fst (match_node_memo [] sample_trie [''com'', ''umeng'', ''x''] Map.empty) =
     match_node sample_trie [''com'', ''umeng'', ''x'']"
proof -
  have "trie_wf sample_trie" by code_simp
  then show ?thesis using memo_transparent [of sample_trie] by simp
qed

text \<open>A matcher built from exact domains and suffixes without wildcards or blanks blocks a
  non-empty name exactly when its labels are those of an exact domain, or end with those of a
  suffix (the suffix itself included), up to letter case and a trailing dot.\<close>

theorem matcher_new_correct:
  assumes "list_all plain exact" "list_all plain sfxs"
  shows "is_blocked (matcher_new exact sfxs) domain \<longleftrightarrow>
    strip_suffix_char CHR ''.'' domain \<noteq> [] \<and>
    ((\<exists>e \<in> set exact. strip_suffix_char CHR ''.'' e \<noteq> [] \<and>
        split_labels_reversed domain = split_labels_reversed e) \<or>
     (\<exists>s \<in> set sfxs. prefix (split_labels_reversed s) (split_labels_reversed domain)))"
proof -
  let ?f = "\<lambda>s. ''**.'' @ strip_suffix_char CHR ''.'' s"
  have "(\<exists>es \<in> pattern_paths exact. rule_matches False es l) \<longleftrightarrow>
      (\<exists>e \<in> set exact. strip_suffix_char CHR ''.'' e \<noteq> [] \<and> l = split_labels_reversed e)" for l
    unfolding pattern_paths_ex [of exact]
    using assms(1) by (intro bex_cong refl) (auto simp: list_all_iff pattern_paths_plain rule_matches_exact)
  moreover have "(\<exists>es \<in> pattern_paths (map ?f sfxs). rule_matches False es l) \<longleftrightarrow>
      (\<exists>s \<in> set sfxs. prefix (split_labels_reversed s) l)" for l
    unfolding pattern_paths_ex [of "map ?f sfxs"]
    using assms(2) pattern_paths_suffix_matches by (auto simp: list_all_iff)
  ultimately show ?thesis
    unfolding is_blocked_holds [OF matcher_new_holds] query_labels_eq bex_Un by blast
qed

theorem matcher_new_correct_witness:
  "is_blocked (matcher_new [''a.example''] [''Ads.net.'']) ''x.ads.NET'' \<longleftrightarrow>
    strip_suffix_char CHR ''.'' ''x.ads.NET'' \<noteq> [] \<and>
    ((\<exists>e \<in> set [''a.example'']. strip_suffix_char CHR ''.'' e \<noteq> [] \<and>
        split_labels_reversed ''x.ads.NET'' = split_labels_reversed e) \<or>
     (\<exists>s \<in> set [''Ads.net.'']. prefix (split_labels_reversed s) (split_labels_reversed ''x.ads.NET'')))"
  by (rule matcher_new_correct) code_simp+

text \<open>The rule counter counts the distinct rules: patterns that normalise to the same path
  of the trie, and patterns that normalise to nothing, are not counted again.\<close>

theorem rule_count_correct: "bm_rule_count (from_patterns rules) = card (pattern_paths rules)"
  using from_patterns_holds [of rules] by (simp add: matcher_holds_def)

text \<open>Loading from a reader adds exactly the trimmed lines that are neither empty nor
  comments, skipping unreadable ones, and returns their number; the resulting matcher is the
  one built from these patterns.\<close>

theorem load_rules_correct:
  "load_rules_from_reader lines matcher_default =
     (from_patterns (rule_lines lines), length (rule_lines lines))"
  by (simp add: load_rules_from_reader_eq from_patterns_def)

text \<open>The label glob accepts every label of the wildcard language of the pattern: no label
  that the pattern describes is missed by the left-to-right search.\<close>

theorem glob_accepts_wildcard:
  assumes "wildcard pattern label"
  shows "label_matches_glob pattern label"
  using assms by (rule label_matches_glob_complete)

theorem glob_accepts_wildcard_witness:
  "wildcard ''ad*s*'' ''ADverts'' \<and> label_matches_glob ''ad*s*'' ''ADverts''"
proof -
  have "wildcard ''ad*s*'' ''ADverts''" by code_simp
  then show ?thesis using glob_accepts_wildcard [of "''ad*s*''" "''ADverts''"] by simp
qed

section \<open>Where code and documentation part\<close>

text \<open>The last piece of a glob may overlap the pieces before it, so labels outside the wildcard
  language match.\<close>

theorem glob_last_part_overlaps: "label_matches_glob ''ab*ba'' ''aba'' \<and> \<not> wildcard ''ab*ba'' ''aba''"
proof
  show "label_matches_glob ''ab*ba'' ''aba''" by code_simp
  have s: "split_on CHR ''*'' (to_lowercase ''ab*ba'') = [''ab'', ''ba'']" by code_simp
  have "drop k (to_lowercase ''aba'') \<noteq> ''ba''" if "2 \<le> k" for k
  proof
    assume "drop k (to_lowercase ''aba'') = ''ba''"
    from arg_cong [OF this, of length] that show False by simp
  qed
  then show "\<not> wildcard ''ab*ba'' ''aba''" by (auto simp: wildcard_def s)
qed

text \<open>The rule documented as \<open>first label starts with clientlog\<close> matches the glob at any label.\<close>

theorem first_label_glob_matches_anywhere:
  "is_blocked (from_patterns [''clientlog*.**'']) ''a.clientlog1.com''"
proof -
  have "normalize_rule ''clientlog*.**'' \<noteq> []" by code_simp
  moreover have p: "pattern_path ''clientlog*.**'' = [Multi, Glob ''clientlog*'']" by code_simp
  moreover have l: "split_labels_reversed ''a.clientlog1.com'' = [''com'', ''clientlog1'', ''a'']" by code_simp
  moreover have "label_matches_glob ''clientlog*'' ''clientlog1''" by code_simp
  ultimately show ?thesis
    by (simp add: is_blocked_from_patterns strip_suffix_char_def rule_matches_Cons)
qed

end
