(* ===== verification/Local_Answers.thy ===== *)
theory Local_Answers
  imports Message Config Hosts_Table Block_Matcher
begin

text \<open>
  The answers the query path builds itself, \<^verbatim>\<open>border-dns-pipeline/src/lib.rs\<close>: the reply to a
  malformed query, the answer from the hosts table, the blackhole and suppression answers for
  blocked names, and the construction of the hosts table and the block matcher from the
  configuration. Opening a rules file and the hosts file system are arguments.
\<close>

section \<open>Answers\<close>

definition malformed_response :: dns_message where
  "malformed_response =
     \<lparr>m_header = (header_response 0 False)\<lparr>h_rcode := Rc_FormErr\<rparr>,
      m_questions = [], m_answers = [], m_authorities = [], m_additionals = []\<rparr>"

text \<open>The early returns that answer with an error code only.\<close>

definition error_response :: "dns_message \<Rightarrow> response_code \<Rightarrow> dns_message" where
  "error_response query rcode =
     (let resp = message_response query
      in resp\<lparr>m_header := (m_header resp)\<lparr>h_rcode := rcode\<rparr>\<rparr>)"

definition host_record :: "domain_name \<Rightarrow> qtype \<Rightarrow> u32 \<Rightarrow> ip_addr \<Rightarrow> resource_record" where
  "host_record domain qt ttl ip =
     \<lparr>rr_name = domain,
      rr_type = (case as_record_type qt of Some rt \<Rightarrow> rt | None \<Rightarrow> RT_A),
      rr_class = RC_In, rr_ttl = ttl,
      rr_rdata = (case ip of V4 v4 \<Rightarrow> RD_A v4 | V6 v6 \<Rightarrow> RD_AAAA v6)\<rparr>"

definition hosts_response :: "u32 \<Rightarrow> dns_message \<Rightarrow> qtype \<Rightarrow> domain_name \<Rightarrow> ip_addr list \<Rightarrow> dns_message" where
  "hosts_response ttl query qt domain ips =
     fold (\<lambda>ip. add_answer (host_record domain qt ttl ip)) ips (message_response query)"

definition soa_name :: domain_name where
  "soa_name = (case from_str ''block.borderdns.local'' of Inr n \<Rightarrow> n | Inl _ \<Rightarrow> root)"

definition soa_record_for :: "domain_name \<Rightarrow> resource_record" where
  "soa_record_for domain =
     \<lparr>rr_name = domain, rr_type = RT_SOA, rr_class = RC_In, rr_ttl = 60,
      rr_rdata = RD_SOA \<lparr>soa_mname = soa_name, soa_rname = soa_name, soa_serial = 1, soa_refresh = 900,
        soa_retry = 900, soa_expire = 1800, soa_minimum = 60\<rparr>\<rparr>"

definition build_soa_suppress_response :: "dns_message \<Rightarrow> domain_name \<Rightarrow> dns_message" where
  "build_soa_suppress_response resp domain =
     (let out = message_response resp;
          out = out\<lparr>m_header := (m_header out)\<lparr>h_rcode := Rc_NoError\<rparr>\<rparr>
      in add_authority (soa_record_for domain) out)"

definition eq_ignore_ascii_case :: "string \<Rightarrow> string \<Rightarrow> bool" where
  "eq_ignore_ascii_case a b \<longleftrightarrow> map ascii_lower a = map ascii_lower b"

definition qtype_suppressed :: "block_config \<Rightarrow> qtype \<Rightarrow> bool" where
  "qtype_suppressed b qt =
     is_some_and (\<lambda>rt. list_ex (\<lambda>s. eq_ignore_ascii_case s (record_type_as_str rt)) (bc_suppress_qtypes b))
       (as_record_type qt)"

definition address_record :: "domain_name \<Rightarrow> record_type \<Rightarrow> rdata \<Rightarrow> resource_record" where
  "address_record domain rt rd =
     \<lparr>rr_name = domain, rr_type = rt, rr_class = RC_In, rr_ttl = 60, rr_rdata = rd\<rparr>"

definition build_block_response :: "block_config \<Rightarrow> dns_message \<Rightarrow> qtype \<Rightarrow> domain_name \<Rightarrow> dns_message" where
  "build_block_response b query qt domain =
     (let resp = message_response query
      in if qtype_suppressed b qt then build_soa_suppress_response resp domain
         else
           let blackhole_v4 = (case parse_ipv4 (bc_blackhole_ipv4 b) of Some a \<Rightarrow> a | None \<Rightarrow> [127, 0, 0, 1]);
               blackhole_v6 = (case parse_ipv6 (bc_blackhole_ipv6 b) of Some a \<Rightarrow> a | None \<Rightarrow> replicate 16 0)
           in if qt = QT_Type RT_A then add_answer (address_record domain RT_A (RD_A blackhole_v4)) resp
              else if qt = QT_Type RT_AAAA then
                add_answer (address_record domain RT_AAAA (RD_AAAA blackhole_v6)) resp
              else build_soa_suppress_response resp domain)"

section \<open>Tables from the configuration\<close>

definition build_hosts_from_config :: "file_system \<Rightarrow> hosts_config \<Rightarrow> hosts_table" where
  "build_hosts_from_config fs h =
     (if \<not> hc_enabled h then hosts_new
      else
        let builder = fold (\<lambda>(domain, ips). fold (with_entry domain) ips) (hc_entries h) hosts_new;
            builder = fold with_file (hc_files h) builder
        in hosts_build fs builder)"

definition load_rules_file ::
    "(string \<Rightarrow> 'e + string option list) \<Rightarrow> string \<Rightarrow> block_matcher \<Rightarrow> block_matcher" where
  "load_rules_file open_lines path m =
     (case load_rules_from_file open_lines path m of Inl e \<Rightarrow> m | Inr (m', count) \<Rightarrow> m')"

definition build_block_matcher_from_config ::
    "(string \<Rightarrow> 'e + string option list) \<Rightarrow> block_config \<Rightarrow> block_matcher" where
  "build_block_matcher_from_config open_lines b =
     (if \<not> bc_enabled b then matcher_default
      else
        let m = batch_add (bc_domains b) matcher_default;
            m = batch_add (map (\<lambda>s. ''**.'' @ strip_suffix_char CHR ''.'' s) (bc_suffixes b)) m;
            m = batch_add (bc_patterns b) m
        in fold (load_rules_file open_lines) (bc_rules_files b) m)"

end
