(* ===== verification/Tcp_Frame.thy ===== *)
theory Tcp_Frame
  imports Dns_Types
begin

text \<open>
  DNS over TCP framing, \<^verbatim>\<open>dns-protocol/src/tcp_frame.rs\<close>: the one-shot encoder and decoder,
  the bulk decoder, and the streaming \<^verbatim>\<open>TcpFrameDecoder\<close> with its read cursor and buffer
  compaction.

  The specification is \<open>next_frame\<close> and \<open>frames\<close> on the plain list of bytes not yet
  delivered. The locale \<open>frame_source\<close> states what a streaming decoder promises in these
  terms; inside it we prove that the messages delivered do not depend on how the stream was cut
  into chunks. \<^verbatim>\<open>TcpFrameDecoder\<close> is its interpretation: cursor and compaction are invisible.
\<close>

section \<open>Single frames\<close>

definition DEFAULT_MAX_TCP_FRAME :: u16 where "DEFAULT_MAX_TCP_FRAME = 65535"

definition encode_tcp_frame :: "u8 list \<Rightarrow> u8 list" where
  "encode_tcp_frame message = u16_to_be_bytes (of_nat (length message)) @ message"

definition decode_tcp_frame :: "u8 list \<Rightarrow> u16 \<Rightarrow> protocol_error + u8 list \<times> nat" where
  "decode_tcp_frame data max_frame_size =
     (if length data < 2 then Inl (BufferUnderflow 2 (length data))
      else let len = unat (u16_from_be_bytes (data ! 0) (data ! 1)) in
        if len > unat max_frame_size then Inl (TcpFrameTooLarge (of_nat len) max_frame_size)
        else let total = 2 + len in
          if length data < total then Inl (BufferUnderflow total (length data))
          else Inr (sub_slice 2 total data, total))"

section \<open>The streaming decoder\<close>

record tcp_frame_decoder =
  fd_buf :: "u8 list"
  fd_read_pos :: nat
  fd_max_frame_size :: u16

definition decoder_new :: tcp_frame_decoder where
  "decoder_new = \<lparr>fd_buf = [], fd_read_pos = 0, fd_max_frame_size = DEFAULT_MAX_TCP_FRAME\<rparr>"

definition with_max_frame_size :: "u16 \<Rightarrow> tcp_frame_decoder" where
  "with_max_frame_size max_frame_size =
     \<lparr>fd_buf = [], fd_read_pos = 0, fd_max_frame_size = max_frame_size\<rparr>"

definition feed :: "u8 list \<Rightarrow> tcp_frame_decoder \<Rightarrow> tcp_frame_decoder" where
  "feed data d = d\<lparr>fd_buf := fd_buf d @ data\<rparr>"

text \<open>The compaction at the end of \<^verbatim>\<open>try_decode\<close>.\<close>

definition compact :: "tcp_frame_decoder \<Rightarrow> tcp_frame_decoder" where
  "compact d =
     (if fd_read_pos d > 0 \<and> fd_read_pos d \<ge> length (fd_buf d) div 2
      then d\<lparr>fd_buf := drop (fd_read_pos d) (fd_buf d), fd_read_pos := 0\<rparr>
      else d)"

definition try_decode ::
  "tcp_frame_decoder \<Rightarrow> (protocol_error + (u8 list \<times> nat) option) \<times> tcp_frame_decoder" where
  "try_decode d =
     (let available = length (fd_buf d) - fd_read_pos d in
      if available < 2 then (Inr None, d)
      else let header_start = fd_read_pos d;
               len = unat (u16_from_be_bytes (fd_buf d ! header_start)
                             (fd_buf d ! (header_start + 1))) in
        if len > unat (fd_max_frame_size d)
        then (Inl (TcpFrameTooLarge (of_nat len) (fd_max_frame_size d)), d)
        else let total = 2 + len in
          if available < total then (Inr None, d)
          else let message = sub_slice (header_start + 2) (header_start + total) (fd_buf d);
                   d = d\<lparr>fd_read_pos := fd_read_pos d + total\<rparr>
            in (Inr (Some (message, total)), compact d))"

definition decoder_reset :: "tcp_frame_decoder \<Rightarrow> tcp_frame_decoder" where
  "decoder_reset d = d\<lparr>fd_buf := [], fd_read_pos := 0\<rparr>"

definition buffered :: "tcp_frame_decoder \<Rightarrow> nat" where
  "buffered d = length (fd_buf d) - fd_read_pos d"

section \<open>Bulk decoding\<close>

function decode_tcp_frames_from ::
  "u8 list \<Rightarrow> u16 \<Rightarrow> nat \<Rightarrow> u8 list list \<Rightarrow> protocol_error + u8 list list \<times> nat" where
  "decode_tcp_frames_from data max_frame_size offset messages =
     (if offset \<ge> length data then Inr (messages, offset)
      else if length data - offset < 2 then Inr (messages, offset)
      else rbind (decode_tcp_frame (drop offset data) max_frame_size) (\<lambda>(message, consumed).
        decode_tcp_frames_from data max_frame_size (offset + consumed) (messages @ [message])))"
  by pat_completeness auto
termination
  by (relation "measure (\<lambda>(data, max, offset, ms). length data - offset)")
    (auto simp: decode_tcp_frame_def Let_def split: if_splits)

declare decode_tcp_frames_from.simps [simp del]

definition decode_tcp_frames :: "u8 list \<Rightarrow> u16 \<Rightarrow> protocol_error + u8 list list \<times> nat" where
  "decode_tcp_frames data max_frame_size = decode_tcp_frames_from data max_frame_size 0 []"

section \<open>Specification\<close>

text \<open>The next event on a byte stream with the given limit: an oversized announcement, nothing
  yet, or a message with the bytes behind it.\<close>

definition next_frame ::
  "u16 \<Rightarrow> u8 list \<Rightarrow> (protocol_error + (u8 list \<times> nat) option) \<times> u8 list" where
  "next_frame limit xs =
     (case xs of
        a # b # ys \<Rightarrow>
          let len = u16_from_be_bytes a b in
          if limit < len then (Inl (TcpFrameTooLarge len limit), xs)
          else if length ys < unat len then (Inr None, xs)
          else (Inr (Some (take (unat len) ys, 2 + unat len)), drop (unat len) ys)
      | _ \<Rightarrow> (Inr None, xs))"

lemma next_frame_SomeD:
  "next_frame limit xs = (Inr (Some (m, n)), ys) \<Longrightarrow> length xs = n + length ys \<and> n = 2 + length m"
  by (auto simp: next_frame_def Let_def split: list.splits if_splits)

lemma next_frame_not_Some:
  "next_frame limit xs = (res, ys) \<Longrightarrow> (\<nexists>m n. res = Inr (Some (m, n))) \<Longrightarrow> ys = xs"
  by (auto simp: next_frame_def Let_def split: list.splits if_splits)

function frames :: "u16 \<Rightarrow> u8 list \<Rightarrow> u8 list list \<times> u8 list" where
  "frames limit xs =
     (case next_frame limit xs of
        (Inr (Some (m, n)), ys) \<Rightarrow> (case frames limit ys of (ms, zs) \<Rightarrow> (m # ms, zs))
      | _ \<Rightarrow> ([], xs))"
  by pat_completeness auto
termination
  by (relation "measure (length \<circ> snd)") (auto dest: next_frame_SomeD [OF sym])

declare frames.simps [simp del]

lemma next_frame_append:
  "next_frame limit xs = (Inr (Some (m, n)), ys) \<Longrightarrow>
   next_frame limit (xs @ zs) = (Inr (Some (m, n)), ys @ zs)"
  by (auto simp: next_frame_def Let_def split: list.splits if_splits)

text \<open>Bytes that arrive later do not change what was already delivered.\<close>

lemma frames_append:
  assumes "frames limit xs = (ms, ys)"
  shows "frames limit (xs @ zs) =
    (ms @ fst (frames limit (ys @ zs)), snd (frames limit (ys @ zs)))"
  using assms
proof (induction limit xs arbitrary: ms rule: frames.induct)
  case (1 limit xs)
  show ?case
  proof (cases "\<exists>m n xs'. next_frame limit xs = (Inr (Some (m, n)), xs')")
    case True
    then obtain m n xs' where nf: "next_frame limit xs = (Inr (Some (m, n)), xs')" by blast
    obtain ms' where ms': "frames limit xs' = (ms', ys)" "ms = m # ms'"
      using "1.prems" nf by (subst (asm) frames.simps) (auto split: prod.splits)
    from "1.IH" [OF nf [symmetric] refl refl refl ms'(1)] next_frame_append [OF nf, of zs] ms'(2)
    show ?thesis by (subst frames.simps) (auto split: prod.splits)
  next
    case False
    then have "ms = []" "ys = xs"
      using "1.prems" by (subst (asm) frames.simps; auto split: prod.splits sum.splits option.splits)+
    then show ?thesis by simp
  qed
qed

lemma next_frame_encode:
  assumes "length m \<le> unat limit"
  shows "next_frame limit (encode_tcp_frame m @ ys) = (Inr (Some (m, 2 + length m)), ys)"
proof -
  have "length m < 65536" using assms u16_unat_less [of limit] by linarith
  then have u: "unat (of_nat (length m) :: u16) = length m" by (rule unat_of_nat_u16)
  with assms have "\<not> limit < of_nat (length m)" by (simp add: word_less_nat_alt)
  with u show ?thesis
    by (simp add: next_frame_def encode_tcp_frame_def u16_to_be_bytes_def)
qed

lemma frames_encode:
  assumes "list_all (\<lambda>m. length m \<le> unat limit) ms"
  shows "frames limit (concat (map encode_tcp_frame ms)) = (ms, [])"
  using assms
proof (induction ms)
  case Nil
  then show ?case by (subst frames.simps) (simp add: next_frame_def)
next
  case (Cons m ms)
  then show ?case
    by (subst frames.simps) (simp add: next_frame_encode)
qed

section \<open>Streaming\<close>

text \<open>Take messages until none is left; the fuel bounds the number of calls.\<close>

fun drain ::
  "('s \<Rightarrow> (protocol_error + (u8 list \<times> nat) option) \<times> 's) \<Rightarrow> nat \<Rightarrow> 's \<Rightarrow> u8 list list \<times> 's" where
  "drain step 0 s = ([], s)"
| "drain step (Suc n) s =
     (case step s of
        (Inr (Some (m, _)), s') \<Rightarrow> (case drain step n s' of (ms, s'') \<Rightarrow> (m # ms, s''))
      | (_, s') \<Rightarrow> ([], s'))"

text \<open>Feed the chunks one after the other and take all complete messages after each.\<close>

fun deliver ::
  "(u8 list \<Rightarrow> 's \<Rightarrow> 's) \<Rightarrow> ('s \<Rightarrow> (protocol_error + (u8 list \<times> nat) option) \<times> 's) \<Rightarrow>
   ('s \<Rightarrow> nat) \<Rightarrow> u8 list list \<Rightarrow> 's \<Rightarrow> u8 list list \<times> 's" where
  "deliver fd step pnd [] s = ([], s)"
| "deliver fd step pnd (c # cs) s =
     (let s1 = fd c s; (ms, s2) = drain step (pnd s1) s1; (ms', s3) = deliver fd step pnd cs s2
      in (ms @ ms', s3))"

locale frame_source =
  fixes src_feed :: "u8 list \<Rightarrow> 's \<Rightarrow> 's"
    and src_step :: "'s \<Rightarrow> (protocol_error + (u8 list \<times> nat) option) \<times> 's"
    and src_size :: "'s \<Rightarrow> nat"
    and pending :: "'s \<Rightarrow> u8 list"
    and limit :: "'s \<Rightarrow> u16"
    and inv :: "'s \<Rightarrow> bool"
  assumes feed_inv: "inv s \<Longrightarrow> inv (src_feed xs s)"
    and feed_pending: "inv s \<Longrightarrow> pending (src_feed xs s) = pending s @ xs"
    and feed_limit: "limit (src_feed xs s) = limit s"
    and step_inv: "inv s \<Longrightarrow> src_step s = (res, s') \<Longrightarrow> inv s'"
    and step_next: "inv s \<Longrightarrow> src_step s = (res, s') \<Longrightarrow>
      (res, pending s') = next_frame (limit s) (pending s)"
    and step_limit: "src_step s = (res, s') \<Longrightarrow> limit s' = limit s"
    and size_pending: "inv s \<Longrightarrow> src_size s = length (pending s)"
begin

lemma drain_frames:
  "inv s \<Longrightarrow> length (pending s) \<le> n \<Longrightarrow> drain src_step n s = (ms, s') \<Longrightarrow>
   inv s' \<and> limit s' = limit s \<and> (ms, pending s') = frames (limit s) (pending s)"
proof (induction n arbitrary: s ms)
  case 0
  then show ?case
    by (subst frames.simps) (simp add: next_frame_def)
next
  case (Suc n)
  obtain res s1 where st: "src_step s = (res, s1)" by fastforce
  note facts = step_inv [OF Suc.prems(1) st] step_next [OF Suc.prems(1) st] step_limit [OF st]
  show ?case
  proof (cases "\<exists>m k. res = Inr (Some (m, k))")
    case True
    then obtain m k where res: "res = Inr (Some (m, k))" by blast
    obtain ms1 where ms1: "drain src_step n s1 = (ms1, s')" "ms = m # ms1"
      using Suc.prems(3) st res by (auto split: prod.splits)
    have nf: "next_frame (limit s) (pending s) = (Inr (Some (m, k)), pending s1)"
      using facts(2) res by simp
    from next_frame_SomeD [OF nf] Suc.prems(2) have "length (pending s1) \<le> n" by simp
    from Suc.IH [OF facts(1) this ms1(1)] nf ms1(2) facts(3) show ?thesis
      by (subst frames.simps) (auto split: prod.splits)
  next
    case False
    with Suc.prems(3) st have d: "ms = []" "s' = s1"
      by (auto split: prod.splits sum.splits option.splits)
    have "frames (limit s) (pending s) = ([], pending s)"
      using False facts(2) by (subst frames.simps) (auto split: prod.splits sum.splits option.splits)
    moreover have "pending s1 = pending s"
      using next_frame_not_Some [OF facts(2) [symmetric] False] .
    ultimately show ?thesis using facts d by simp
  qed
qed

text \<open>However the stream is cut into chunks, the messages delivered are those of the stream.\<close>

lemma deliver_frames:
  "inv s \<Longrightarrow> frames (limit s) (pending s) = ([], pending s) \<Longrightarrow>
   deliver src_feed src_step src_size cs s = (ms, s') \<Longrightarrow>
   inv s' \<and> limit s' = limit s \<and> (ms, pending s') = frames (limit s) (pending s @ concat cs)"
proof (induction cs arbitrary: s ms)
  case Nil
  then show ?case by simp
next
  case (Cons c cs)
  let ?s1 = "src_feed c s"
  obtain ms1 s2 where d: "drain src_step (src_size ?s1) ?s1 = (ms1, s2)" by fastforce
  obtain ms2 where r: "deliver src_feed src_step src_size cs s2 = (ms2, s')" "ms = ms1 @ ms2"
    using Cons.prems(3) d by (auto simp: Let_def split: prod.splits)
  have i1: "inv ?s1" using Cons.prems(1) by (rule feed_inv)
  from drain_frames [OF i1 _ d] size_pending [OF i1]
  have s2: "inv s2" "limit s2 = limit s" "frames (limit s) (pending s @ c) = (ms1, pending s2)"
    using Cons.prems(1) by (simp_all add: feed_limit feed_pending)
  from frames_append [OF s2(3), of "[]"] have idle: "frames (limit s2) (pending s2) = ([], pending s2)"
    using s2 by (metis append.right_neutral append_self_conv fst_conv prod.collapse snd_conv)
  from Cons.IH [OF s2(1) idle r(1)] frames_append [OF s2(3), of "concat cs"] s2(2) r(2)
  show ?case by (metis append.assoc concat.simps(2) fst_conv snd_conv)
qed

end

section \<open>The decoder of the source is a frame source\<close>

definition decoder_ok :: "tcp_frame_decoder \<Rightarrow> bool" where
  "decoder_ok d \<longleftrightarrow> fd_read_pos d \<le> length (fd_buf d)"

definition decoder_pending :: "tcp_frame_decoder \<Rightarrow> u8 list" where
  "decoder_pending d = drop (fd_read_pos d) (fd_buf d)"

lemma compact_invisible:
  "decoder_ok d \<Longrightarrow> decoder_ok (compact d) \<and> decoder_pending (compact d) = decoder_pending d \<and>
   fd_max_frame_size (compact d) = fd_max_frame_size d"
  by (simp add: compact_def decoder_ok_def decoder_pending_def)

lemma nth_pending: "decoder_pending d ! i = fd_buf d ! (fd_read_pos d + i)" if "decoder_ok d"
  using that by (simp add: decoder_pending_def decoder_ok_def)

lemma try_decode_next:
  assumes "decoder_ok d" "try_decode d = (res, d')"
  shows "decoder_ok d' \<and> fd_max_frame_size d' = fd_max_frame_size d \<and>
    (res, decoder_pending d') = next_frame (fd_max_frame_size d) (decoder_pending d)"
proof (cases "decoder_pending d")
  case Nil
  with assms show ?thesis
    by (auto simp: try_decode_def next_frame_def decoder_pending_def Let_def)
next
  case (Cons a xs)
  show ?thesis
  proof (cases xs)
    case Nil
    with Cons have "length (fd_buf d) - fd_read_pos d < 2"
      by (metis decoder_pending_def length_Cons length_drop lessI list.size(3) numeral_2_eq_2)
    with assms Cons Nil show ?thesis
      by (auto simp: try_decode_def next_frame_def Let_def)
  next
    case (Cons b ys)
    with \<open>decoder_pending d = a # xs\<close> have p: "decoder_pending d = a # b # ys" by simp
    let ?len = "u16_from_be_bytes a b"
    have ab: "fd_buf d ! fd_read_pos d = a" "fd_buf d ! (fd_read_pos d + 1) = b"
      using nth_pending [OF assms(1), of 0] nth_pending [OF assms(1), of 1] p by simp_all
    have av: "length (fd_buf d) - fd_read_pos d = 2 + length ys"
      using p by (metis add_2_eq_Suc decoder_pending_def length_Cons length_drop)
    show ?thesis
    proof (cases "\<not> fd_max_frame_size d < ?len \<and> unat ?len \<le> length ys")
      case True
      let ?d = "d\<lparr>fd_read_pos := fd_read_pos d + (2 + unat ?len)\<rparr>"
      have msg: "sub_slice (fd_read_pos d + 2) (fd_read_pos d + (2 + unat ?len)) (fd_buf d) =
          take (unat ?len) ys"
        using arg_cong [OF p, of "drop 2"] by (simp add: sub_slice_def decoder_pending_def)
      have ok: "decoder_ok ?d" using True av assms(1) by (simp add: decoder_ok_def) linarith
      have pd: "decoder_pending ?d = drop (unat ?len) ys"
        using arg_cong [OF p, of "drop (2 + unat ?len)"]
        by (simp add: decoder_pending_def add.commute)
      from assms(2) True ab av msg have "res = Inr (Some (take (unat ?len) ys, 2 + unat ?len))"
        "d' = compact ?d"
        by (auto simp: try_decode_def Let_def word_less_nat_alt)
      with compact_invisible [OF ok] True p pd show ?thesis
        by (simp add: next_frame_def Let_def)
    next
      case False
      with assms ab av p show ?thesis
        by (auto simp: try_decode_def next_frame_def Let_def word_less_nat_alt)
    qed
  qed
qed

interpretation tcp_decoder: frame_source feed try_decode buffered decoder_pending fd_max_frame_size
  decoder_ok
proof
  fix d res d' and xs :: "u8 list"
  show "fd_max_frame_size (feed xs d) = fd_max_frame_size d"
    by (simp add: feed_def)
  show "fd_max_frame_size d' = fd_max_frame_size d" if "try_decode d = (res, d')"
    using that by (auto simp: try_decode_def compact_def Let_def split: if_splits)
  assume ok: "decoder_ok d"
  show "decoder_ok (feed xs d)" "decoder_pending (feed xs d) = decoder_pending d @ xs"
    "buffered d = length (decoder_pending d)"
    using ok by (simp_all add: feed_def decoder_ok_def decoder_pending_def buffered_def)
  assume "try_decode d = (res, d')"
  from try_decode_next [OF ok this] show "decoder_ok d'"
    "(res, decoder_pending d') = next_frame (fd_max_frame_size d) (decoder_pending d)"
    by simp_all
qed

section \<open>The one-shot and the bulk decoder\<close>

lemma decode_tcp_frame_next:
  assumes "next_frame limit data = (Inr (Some (m, n)), ys)"
  shows "decode_tcp_frame data limit = Inr (m, n)"
  using assms
  by (auto simp: next_frame_def decode_tcp_frame_def Let_def sub_slice_def word_less_nat_alt
      split: list.splits if_splits)

lemma decode_tcp_frame_encode:
  "length m \<le> unat limit \<Longrightarrow>
   decode_tcp_frame (encode_tcp_frame m @ ys) limit = Inr (m, length (encode_tcp_frame m))"
  using decode_tcp_frame_next [OF next_frame_encode [of m limit ys]]
  by (simp add: encode_tcp_frame_def)

lemma decode_tcp_frames_from_encode:
  assumes "list_all (\<lambda>m. length m \<le> unat limit) ms"
    "drop offset data = concat (map encode_tcp_frame ms) @ tl_bytes" "length tl_bytes < 2"
    "offset \<le> length data"
  shows "decode_tcp_frames_from data limit offset acc =
    Inr (acc @ ms, length data - length tl_bytes)"
  using assms
proof (induction ms arbitrary: offset acc)
  case Nil
  have "length data - offset = length tl_bytes"
    using arg_cong [OF Nil.prems(2), of length] by simp
  with Nil.prems(3,4) have "length data - offset < 2" "offset = length data - length tl_bytes"
    by linarith+
  then show ?case
    by (subst decode_tcp_frames_from.simps) simp
next
  case (Cons m ms)
  let ?off = "offset + length (encode_tcp_frame m)"
  have dec: "decode_tcp_frame (drop offset data) limit = Inr (m, length (encode_tcp_frame m))"
    using Cons.prems(1,2) by (simp add: decode_tcp_frame_encode)
  have len: "length data - offset = length (drop offset data)" by simp
  have e: "2 \<le> length (encode_tcp_frame m)" by (simp add: encode_tcp_frame_def)
  have l: "length (encode_tcp_frame m) \<le> length data - offset"
    unfolding len Cons.prems(2) by simp
  have "drop ?off data = concat (map encode_tcp_frame ms) @ tl_bytes"
    using arg_cong [OF Cons.prems(2), of "drop (length (encode_tcp_frame m))"]
    by (simp add: add.commute)
  then have "decode_tcp_frames_from data limit ?off (acc @ [m]) =
      Inr ((acc @ [m]) @ ms, length data - length tl_bytes)"
    using Cons.prems e l by (intro Cons.IH) auto
  with dec e l show ?case
    by (subst decode_tcp_frames_from.simps) auto
qed

section \<open>Properties\<close>

text \<open>A message of at most the limit's length, framed and followed by any bytes, is decoded
  back exactly, with the number of bytes of its frame as the consumed length.\<close>

theorem tcp_frame_roundtrip:
  assumes "length m \<le> unat limit"
  shows "decode_tcp_frame (encode_tcp_frame m @ trailing) limit = Inr (m, 2 + length m)"
  using decode_tcp_frame_encode [OF assms, of trailing] by (simp add: encode_tcp_frame_def)

theorem tcp_frame_roundtrip_witness:
  "decode_tcp_frame (encode_tcp_frame [1, 2, 3] @ [9]) 512 = Inr ([1, 2, 3], 2 + length [1, 2, 3 :: u8])"
  by (rule tcp_frame_roundtrip) simp

text \<open>C24: chunking independence of the streaming decoder. Feed a fresh decoder the frames of any
  messages within its limit, cut into chunks at arbitrary places, taking all complete messages
  after every chunk: exactly the messages come out, in order, and nothing stays buffered. The
  read cursor and the compaction of the buffer are not observable.\<close>

theorem tcp_stream_chunking:
  assumes "list_all (\<lambda>m. length m \<le> unat limit) ms"
    and "concat chunks = concat (map encode_tcp_frame ms)"
    and "deliver feed try_decode buffered chunks (with_max_frame_size limit) = (out, d)"
  shows "out = ms \<and> decoder_pending d = [] \<and> buffered d = 0"
proof -
  have s: "decoder_ok (with_max_frame_size limit)" "decoder_pending (with_max_frame_size limit) = []"
    "fd_max_frame_size (with_max_frame_size limit) = limit"
    by (simp_all add: with_max_frame_size_def decoder_ok_def decoder_pending_def)
  have "frames limit [] = ([], [])" by (subst frames.simps) (simp add: next_frame_def)
  with tcp_decoder.deliver_frames [OF s(1) _ assms(3)] s assms(1,2)
  have "decoder_ok d" "(out, decoder_pending d) = (ms, [])"
    by (simp_all add: frames_encode)
  then show ?thesis
    using tcp_decoder.size_pending by simp
qed

theorem tcp_stream_chunking_witness:
  "fst (deliver feed try_decode buffered [[0], [2, 7], [8, 0, 1, 5]] (with_max_frame_size 16)) =
     [[7, 8], [5]]"
proof -
  obtain out d where e:
    "deliver feed try_decode buffered [[0], [2, 7], [8, 0, 1, 5]] (with_max_frame_size 16) = (out, d)"
    by fastforce
  have "concat [[0], [2, 7], [8, 0, 1, 5]] = concat (map encode_tcp_frame [[7, 8], [5]])" by code_simp
  from tcp_stream_chunking [OF _ this e] e show ?thesis by simp
qed

text \<open>The bulk decoder returns all the framed messages and the number of bytes they take,
  leaving a trailing incomplete length prefix of at most one byte unconsumed.\<close>

theorem decode_tcp_frames_correct:
  assumes "list_all (\<lambda>m. length m \<le> unat limit) ms" "length trailing < 2"
  shows "decode_tcp_frames (concat (map encode_tcp_frame ms) @ trailing) limit =
    Inr (ms, length (concat (map encode_tcp_frame ms)))"
  using decode_tcp_frames_from_encode [OF assms(1) _ assms(2), of 0 _ "[]"]
  by (simp add: decode_tcp_frames_def)

theorem decode_tcp_frames_correct_witness:
  "decode_tcp_frames (concat (map encode_tcp_frame [[7, 8], [5]]) @ [0]) 16 =
     Inr ([[7, 8], [5]], length (concat (map encode_tcp_frame [[7, 8], [5]])))"
  by (rule decode_tcp_frames_correct) simp_all

text \<open>A frame that announces more than the limit is rejected by the streaming decoder with
  \<^verbatim>\<open>TcpFrameTooLarge\<close> as soon as its length prefix is complete, and the decoder is unchanged.\<close>

theorem oversized_frame_rejected:
  assumes "decoder_ok d" "decoder_pending d = u16_to_be_bytes len @ ys" "fd_max_frame_size d < len"
  shows "try_decode d = (Inl (TcpFrameTooLarge len (fd_max_frame_size d)), d)"
proof -
  obtain res d' where t: "try_decode d = (res, d')" by fastforce
  from try_decode_next [OF assms(1) t] assms(2,3)
  have res: "res = Inl (TcpFrameTooLarge len (fd_max_frame_size d))"
    by (simp add: next_frame_def u16_to_be_bytes_def)
  with t have "d' = d"
    by (auto simp: try_decode_def Let_def split: if_splits)
  with t res show ?thesis by simp
qed

theorem oversized_frame_rejected_witness:
  "try_decode (feed [1, 0, 5] (with_max_frame_size 16)) =
     (Inl (TcpFrameTooLarge 256 16), feed [1, 0, 5] (with_max_frame_size 16))"
proof -
  have "fd_max_frame_size (feed [1, 0, 5] (with_max_frame_size 16)) = 16" by code_simp
  moreover have "try_decode (feed [1, 0, 5] (with_max_frame_size 16)) =
     (Inl (TcpFrameTooLarge 256 (fd_max_frame_size (feed [1, 0, 5] (with_max_frame_size 16)))),
      feed [1, 0, 5] (with_max_frame_size 16))"
    by (rule oversized_frame_rejected [where ys = "[5]"]) code_simp+
  ultimately show ?thesis by simp
qed

text \<open>The comment on \<^verbatim>\<open>encode_tcp_frame\<close> announces a panic for messages longer than 65535
  bytes; the cast wraps instead, and the frame announces the length modulo 65536.\<close>

lemma encode_tcp_frame_wraps:
  assumes "length m = 65536 + k"
  shows "encode_tcp_frame m = u16_to_be_bytes (of_nat k) @ m"
proof -
  have "(of_nat (65536 + k) :: u16) = of_nat k"
    by (simp only: word_unat_eq_iff unat_of_nat) simp
  with assms show ?thesis by (metis encode_tcp_frame_def)
qed

end
