(* ===== verification/Dash_Map.thy ===== *)
theory Dash_Map
  imports Main "HOL-Library.AList"
begin

text \<open>
  The concurrent hash maps of the program (\<^verbatim>\<open>DashMap\<close> in the answer cache and in the governance
  store), used here one operation at a time. A map is an association list without duplicate
  keys; the position in the list stands for the iteration order, which the type leaves
  unspecified, so no property may depend on it. The locale \<open>dash_map\<close> is the contract the
  clients rely on; their proofs use only its facts.
\<close>

type_synonym ('k, 'v) dmap = "('k \<times> 'v) list"

definition dm_new :: "('k, 'v) dmap" where
  "dm_new = []"

definition dm_get :: "('k, 'v) dmap \<Rightarrow> 'k \<Rightarrow> 'v option" where
  "dm_get m k = map_of m k"

definition dm_insert :: "'k \<Rightarrow> 'v \<Rightarrow> ('k, 'v) dmap \<Rightarrow> ('k, 'v) dmap" where
  "dm_insert k v m = AList.update k v m"

definition dm_remove :: "'k \<Rightarrow> ('k, 'v) dmap \<Rightarrow> ('k, 'v) dmap" where
  "dm_remove k m = AList.delete k m"

definition dm_len :: "('k, 'v) dmap \<Rightarrow> nat" where
  "dm_len m = length m"

definition dm_iter :: "('k, 'v) dmap \<Rightarrow> ('k \<times> 'v) list" where
  "dm_iter m = m"

definition dm_wf :: "('k, 'v) dmap \<Rightarrow> bool" where
  "dm_wf m \<longleftrightarrow> distinct (map fst m)"

lemma dm_len_new [simp]: "dm_len dm_new = 0"
  by (simp add: dm_len_def dm_new_def)

locale dash_map =
  fixes new :: "'m"
    and get :: "'m \<Rightarrow> 'k \<Rightarrow> 'v option"
    and ins :: "'k \<Rightarrow> 'v \<Rightarrow> 'm \<Rightarrow> 'm"
    and rem :: "'k \<Rightarrow> 'm \<Rightarrow> 'm"
    and len :: "'m \<Rightarrow> nat"
    and entries :: "'m \<Rightarrow> ('k \<times> 'v) list"
    and wf :: "'m \<Rightarrow> bool"
  assumes wf_new: "wf new"
    and wf_ins: "wf m \<Longrightarrow> wf (ins k v m)"
    and wf_rem: "wf m \<Longrightarrow> wf (rem k m)"
    and get_new: "get new k = None"
    and get_ins: "wf m \<Longrightarrow> get (ins k v m) k' = (if k' = k then Some v else get m k')"
    and get_rem: "wf m \<Longrightarrow> get (rem k m) k' = (if k' = k then None else get m k')"
    and entries_get: "wf m \<Longrightarrow> (k, v) \<in> set (entries m) \<longleftrightarrow> get m k = Some v"
    and entries_distinct: "wf m \<Longrightarrow> distinct (map fst (entries m))"
    and len_entries: "wf m \<Longrightarrow> len m = length (entries m)"
begin

lemma keys_get: "wf m \<Longrightarrow> fst ` set (entries m) = {k. get m k \<noteq> None}"
  by (auto simp: image_iff entries_get Bex_def split_paired_Ex)

lemma len_card: "wf m \<Longrightarrow> len m = card {k. get m k \<noteq> None}"
  using entries_distinct [of m]
  by (metis distinct_card keys_get len_entries length_map list.set_map)

lemma finite_keys: "wf m \<Longrightarrow> finite {k. get m k \<noteq> None}"
  by (metis finite_imageI finite_set keys_get)

lemma len_ins: "wf m \<Longrightarrow> len (ins k v m) = (if get m k = None then Suc (len m) else len m)"
proof -
  assume wf: "wf m"
  have "{k'. get (ins k v m) k' \<noteq> None} = insert k {k'. get m k' \<noteq> None}"
    using wf by (auto simp: get_ins)
  with wf finite_keys [OF wf] show ?thesis
    by (auto simp: len_card wf_ins card_insert_if)
qed

lemma len_rem: "wf m \<Longrightarrow> len (rem k m) = (if get m k = None then len m else len m - 1)"
proof -
  assume wf: "wf m"
  have "{k'. get (rem k m) k' \<noteq> None} = {k'. get m k' \<noteq> None} - {k}"
    using wf by (auto simp: get_rem)
  with wf finite_keys [OF wf] show ?thesis
    by (auto simp: len_card wf_rem card_Diff_singleton_if)
qed

lemma len_zero: "wf m \<Longrightarrow> len m = 0 \<longleftrightarrow> (\<forall>k. get m k = None)"
  using finite_keys by (auto simp: len_card)

end

interpretation dm: dash_map dm_new dm_get dm_insert dm_remove dm_len dm_iter dm_wf
proof
  fix m :: "('k, 'v) dmap" and k k' :: 'k and v :: 'v
  show "dm_wf (dm_new :: ('k, 'v) dmap)" "dm_get (dm_new :: ('k, 'v) dmap) k = None"
    by (simp_all add: dm_wf_def dm_new_def dm_get_def)
  assume wf: "dm_wf m"
  show "dm_wf (dm_insert k v m)" "dm_wf (dm_remove k m)"
    using wf by (simp_all add: dm_wf_def dm_insert_def dm_remove_def distinct_update distinct_delete)
  show "dm_get (dm_insert k v m) k' = (if k' = k then Some v else dm_get m k')"
    by (simp add: dm_get_def dm_insert_def update_conv')
  show "dm_get (dm_remove k m) k' = (if k' = k then None else dm_get m k')"
    by (simp add: dm_get_def dm_remove_def delete_conv')
  show "((k, v) \<in> set (dm_iter m)) = (dm_get m k = Some v)"
    using wf by (simp add: dm_wf_def dm_iter_def dm_get_def)
  show "distinct (map fst (dm_iter m))" "dm_len m = length (dm_iter m)"
    using wf by (simp_all add: dm_wf_def dm_iter_def dm_len_def)
qed

end
