(* ===== verification/Upstream.thy ===== *)
theory Upstream
  imports Message Tcp_Frame Dash_Map Config "HOL-Library.Multiset"
begin

text \<open>
  The upstream resolver, \<^verbatim>\<open>border-dns-upstream/src/lib.rs\<close>: the race of all servers of a group,
  the dispatch to one server by its transport, the persistent UDP sockets and the pools of idle
  TCP and TLS connections.

  The network is an explicit part of the model. A stream is a record of the bytes its peer still
  delivers, of what happens when they run out before the timeout, and of the bytes written so far;
  a UDP socket holds the datagrams that reach it. Binding, connecting, the TLS handshake and the
  HTTP client are arguments collected in \<open>internet\<close>. Instants are nanoseconds of a monotonic
  clock. The tasks of a race are spawned concurrently: \<open>forward\<close> takes the sequence in which they
  complete as an argument, so that its theorems hold for every schedule.
\<close>

section \<open>Errors and responses\<close>

text \<open>Durations are in milliseconds here; this is their \<^verbatim>\<open>Debug\<close> output.\<close>

definition show_millis :: "u64 \<Rightarrow> string" where
  "show_millis d =
     (let n = unat d; f = n mod 1000;
          digits = [digit_char (f div 100), digit_char (f div 10 mod 10), digit_char (f mod 10)]
      in if n \<ge> 1000 then
           show_nat (n div 1000) @
             (if f = 0 then [] else CHR ''.'' # trim_end_matches CHR ''0'' digits) @ ''s''
         else if n > 0 then show_nat n @ ''ms''
         else ''0ns'')"

datatype upstream_error =
  AllFailed string
| Up_Timeout u64
| Up_Io string
| InvalidAddress string string
| Up_Protocol string
| Up_TlsHandshake string
| Up_DoH string

fun upstream_error_to_string :: "upstream_error \<Rightarrow> string" where
  "upstream_error_to_string (AllFailed e) = ''all upstreams failed: '' @ e"
| "upstream_error_to_string (Up_Timeout d) = ''upstream timeout after '' @ show_millis d"
| "upstream_error_to_string (Up_Io e) = ''upstream IO error: '' @ e"
| "upstream_error_to_string (InvalidAddress addr reason) =
     ''invalid upstream address '' @ quoted addr @ '': '' @ reason"
| "upstream_error_to_string (Up_Protocol e) = ''upstream protocol error: '' @ e"
| "upstream_error_to_string (Up_TlsHandshake e) = ''TLS handshake failed: '' @ e"
| "upstream_error_to_string (Up_DoH e) = ''DoH upstream error: '' @ e"

record upstream_response =
  ur_message :: dns_message
  ur_server_name :: string
  ur_server_addr :: socket_addr
  ur_rtt :: nat

section \<open>Connection pool\<close>

definition POOL_MAX_IDLE :: nat where
  "POOL_MAX_IDLE = 8"

definition POOL_IDLE_TIMEOUT :: nat where
  "POOL_IDLE_TIMEOUT = 90 * 1000000000"

record 'c conn_pool =
  cp_idle :: "(nat \<times> 'c) list"
  cp_max_idle :: nat
  cp_idle_timeout :: nat

definition pool_new :: "nat \<Rightarrow> nat \<Rightarrow> 'c conn_pool" where
  "pool_new max_idle idle_timeout = \<lparr>cp_idle = [], cp_max_idle = max_idle, cp_idle_timeout = idle_timeout\<rparr>"

function evict_stale :: "nat \<Rightarrow> nat \<Rightarrow> (nat \<times> 'c) list \<Rightarrow> (nat \<times> 'c) list" where
  "evict_stale now timeout idle =
     (if idle = [] then []
      else if now - fst (last idle) \<ge> timeout then evict_stale now timeout (butlast idle)
      else idle)"
  by auto
termination
  by (relation "measure (\<lambda>(_, _, idle). length idle)") auto

declare evict_stale.simps [simp del]

definition pool_take :: "nat \<Rightarrow> 'c conn_pool \<Rightarrow> 'c option \<times> 'c conn_pool" where
  "pool_take now p =
     (let idle = evict_stale now (cp_idle_timeout p) (cp_idle p)
      in if idle = [] then (None, p\<lparr>cp_idle := []\<rparr>)
         else (Some (snd (last idle)), p\<lparr>cp_idle := butlast idle\<rparr>))"

definition pool_put :: "nat \<Rightarrow> 'c \<Rightarrow> 'c conn_pool \<Rightarrow> 'c conn_pool" where
  "pool_put now conn p =
     (if length (cp_idle p) < cp_max_idle p then p\<lparr>cp_idle := cp_idle p @ [(now, conn)]\<rparr> else p)"

section \<open>Streams\<close>

datatype stream_end = Closed string | Stalled

record byte_stream =
  st_in :: "u8 list"
  st_end :: stream_end
  st_out :: "u8 list"
  st_write_error :: "string option"

definition write_all :: "u8 list \<Rightarrow> byte_stream \<Rightarrow> upstream_error + byte_stream" where
  "write_all bs s =
     (case st_write_error s of
        Some e \<Rightarrow> Inl (Up_Io e)
      | None \<Rightarrow> Inr (s\<lparr>st_out := st_out s @ bs\<rparr>))"

definition read_exact :: "u64 \<Rightarrow> nat \<Rightarrow> byte_stream \<Rightarrow> upstream_error + (u8 list \<times> byte_stream)" where
  "read_exact timeout n s =
     (if n \<le> length (st_in s) then Inr (take n (st_in s), s\<lparr>st_in := drop n (st_in s)\<rparr>)
      else case st_end s of Closed e \<Rightarrow> Inl (Up_Io e) | Stalled \<Rightarrow> Inl (Up_Timeout timeout))"

text \<open>One query and one response on a stream with length-prefixed messages; the source has this
  once for TCP and once for TLS.\<close>

definition framed_exchange ::
    "string \<Rightarrow> u64 \<Rightarrow> u8 list \<Rightarrow> byte_stream \<Rightarrow> upstream_error + (u8 list \<times> byte_stream)" where
  "framed_exchange what timeout wire s =
     rbind (write_all (encode_tcp_frame wire) s) (\<lambda>s1.
     rbind (read_exact timeout 2 s1) (\<lambda>(len_buf, s2).
       let msg_len = unat (u16_from_be_bytes (len_buf ! 0) (len_buf ! 1))
       in if msg_len > unat DEFAULT_MAX_TCP_FRAME then
            Inl (Up_Protocol (what @ '' response too large: '' @ show_nat msg_len))
          else read_exact timeout msg_len s2))"

definition tcp_send_recv ::
    "u64 \<Rightarrow> u8 list \<Rightarrow> byte_stream \<Rightarrow> upstream_error + (u8 list \<times> byte_stream)" where
  "tcp_send_recv = framed_exchange ''TCP''"

definition tls_send_recv ::
    "u64 \<Rightarrow> u8 list \<Rightarrow> byte_stream \<Rightarrow> upstream_error + (u8 list \<times> byte_stream)" where
  "tls_send_recv = framed_exchange ''DoT''"

type_synonym pools = "(socket_addr, byte_stream conn_pool) dmap"

definition pool_of :: "pools \<Rightarrow> socket_addr \<Rightarrow> byte_stream conn_pool" where
  "pool_of ps addr =
     (case dm_get ps addr of Some p \<Rightarrow> p | None \<Rightarrow> pool_new POOL_MAX_IDLE POOL_IDLE_TIMEOUT)"

text \<open>Reuse an idle connection when there is one and it works, else open a new one; only a
  connection that answered goes (back) to the pool.\<close>

definition pooled_forward ::
    "(u64 \<Rightarrow> u8 list \<Rightarrow> byte_stream \<Rightarrow> upstream_error + (u8 list \<times> byte_stream)) \<Rightarrow>
     upstream_error + byte_stream \<Rightarrow> nat \<Rightarrow> nat \<Rightarrow> u8 list \<Rightarrow> socket_addr \<Rightarrow> u64 \<Rightarrow> pools
     \<Rightarrow> (upstream_error + u8 list) \<times> pools" where
  "pooled_forward exchange connect taken_at put_at wire addr timeout ps =
     (case pool_take taken_at (pool_of ps addr) of (taken, p) \<Rightarrow>
        let answered = (\<lambda>resp s. (Inr resp, dm_insert addr (pool_put put_at s p) ps));
            fresh =
              (case rbind connect (exchange timeout wire) of
                 Inl e \<Rightarrow> (Inl e, dm_insert addr p ps)
               | Inr (resp, s) \<Rightarrow> answered resp s)
        in case taken of
             None \<Rightarrow> fresh
           | Some s \<Rightarrow>
               (case exchange timeout wire s of
                  Inr (resp, s') \<Rightarrow> answered resp s'
                | Inl _ \<Rightarrow> fresh))"

section \<open>The network\<close>

definition UDP_MAX_EDNS_MESSAGE_SIZE :: nat where
  "UDP_MAX_EDNS_MESSAGE_SIZE = 4096"

record udp_socket =
  sk_inbox :: "(socket_addr \<times> u8 list) list"
  sk_sent :: "(u8 list \<times> socket_addr) list"
  sk_send_error :: "string option"
  sk_recv_error :: "string option"

datatype connect_outcome = Connect_Timeout | Connect_Error string | Connected byte_stream

datatype http_outcome =
  Http_Build_Error string | Http_Timeout | Http_Error string | Http_Reply nat "string + u8 list"

record internet =
  net_bind :: "socket_addr \<Rightarrow> string + udp_socket"
  net_connect :: "socket_addr \<Rightarrow> connect_outcome"
  net_server_name_error :: "string \<Rightarrow> string option"
  net_handshake :: "string \<Rightarrow> byte_stream \<Rightarrow> string + byte_stream"
  net_uri_error :: "string \<Rightarrow> string option"
  net_http :: "string \<Rightarrow> u8 list \<Rightarrow> http_outcome"
  net_status_text :: "nat \<Rightarrow> string"

record upstream_state =
  up_udp_sockets :: "(socket_addr, udp_socket) dmap"
  up_tcp_pools :: pools
  up_tls_pools :: pools

section \<open>UDP\<close>

definition get_udp_socket ::
    "internet \<Rightarrow> socket_addr \<Rightarrow> upstream_state \<Rightarrow> (upstream_error + udp_socket) \<times> upstream_state" where
  "get_udp_socket net addr st =
     (case dm_get (up_udp_sockets st) addr of
        Some sock \<Rightarrow> (Inr sock, st)
      | None \<Rightarrow>
          let bind_addr = (if socket_is_ipv6 addr then Sock_V6 (replicate 16 0) 0 0
                           else Sock_V4 (replicate 4 0) 0)
          in case net_bind net bind_addr of
               Inl e \<Rightarrow> (Inl (Up_Io e), st)
             | Inr sock \<Rightarrow>
                 (Inr sock, st\<lparr>up_udp_sockets := dm_insert addr sock (up_udp_sockets st)\<rparr>))"

definition udp_exchange ::
    "u8 list \<Rightarrow> socket_addr \<Rightarrow> u64 \<Rightarrow> udp_socket \<Rightarrow> (upstream_error + u8 list) \<times> udp_socket" where
  "udp_exchange wire addr timeout sock =
     (case sk_send_error sock of
        Some e \<Rightarrow> (Inl (Up_Io e), sock)
      | None \<Rightarrow>
          let sock1 = sock\<lparr>sk_sent := sk_sent sock @ [(wire, addr)]\<rparr>
          in case sk_recv_error sock of
               Some e \<Rightarrow> (Inl (Up_Io e), sock1)
             | None \<Rightarrow>
                 (case sk_inbox sock of
                    [] \<Rightarrow> (Inl (Up_Timeout timeout), sock1)
                  | (from, datagram) # later \<Rightarrow>
                      (Inr (take UDP_MAX_EDNS_MESSAGE_SIZE datagram), sock1\<lparr>sk_inbox := later\<rparr>)))"

definition forward_udp ::
    "internet \<Rightarrow> u8 list \<Rightarrow> socket_addr \<Rightarrow> u64 \<Rightarrow> upstream_state
     \<Rightarrow> (upstream_error + u8 list) \<times> upstream_state" where
  "forward_udp net wire addr timeout st =
     (case get_udp_socket net addr st of
        (Inl e, st1) \<Rightarrow> (Inl e, st1)
      | (Inr sock, st1) \<Rightarrow>
          (case udp_exchange wire addr timeout sock of
             (r, sock') \<Rightarrow> (r, st1\<lparr>up_udp_sockets := dm_insert addr sock' (up_udp_sockets st1)\<rparr>)))"

section \<open>TCP, TLS and HTTPS\<close>

definition connect_tcp :: "internet \<Rightarrow> socket_addr \<Rightarrow> u64 \<Rightarrow> upstream_error + byte_stream" where
  "connect_tcp net addr timeout =
     (case net_connect net addr of
        Connect_Timeout \<Rightarrow> Inl (Up_Timeout timeout)
      | Connect_Error e \<Rightarrow> Inl (Up_Io e)
      | Connected s \<Rightarrow> Inr s)"

definition forward_tcp ::
    "internet \<Rightarrow> nat \<Rightarrow> nat \<Rightarrow> u8 list \<Rightarrow> socket_addr \<Rightarrow> u64 \<Rightarrow> upstream_state
     \<Rightarrow> (upstream_error + u8 list) \<times> upstream_state" where
  "forward_tcp net taken_at put_at wire addr timeout st =
     (case pooled_forward tcp_send_recv (connect_tcp net addr timeout) taken_at put_at wire addr timeout
             (up_tcp_pools st) of
        (r, ps) \<Rightarrow> (r, st\<lparr>up_tcp_pools := ps\<rparr>))"

definition connect_tls ::
    "internet \<Rightarrow> socket_addr \<Rightarrow> string \<Rightarrow> u64 \<Rightarrow> upstream_error + byte_stream" where
  "connect_tls net addr server_name timeout =
     (case net_server_name_error net server_name of
        Some e \<Rightarrow> Inl (Up_TlsHandshake (''invalid server name: '' @ e))
      | None \<Rightarrow>
          rbind (connect_tcp net addr timeout) (\<lambda>tcp_stream.
            case net_handshake net server_name tcp_stream of
              Inl e \<Rightarrow> Inl (Up_TlsHandshake e)
            | Inr tls_stream \<Rightarrow> Inr tls_stream))"

definition forward_tls ::
    "internet \<Rightarrow> nat \<Rightarrow> nat \<Rightarrow> u8 list \<Rightarrow> socket_addr \<Rightarrow> string \<Rightarrow> u64 \<Rightarrow> upstream_state
     \<Rightarrow> (upstream_error + u8 list) \<times> upstream_state" where
  "forward_tls net taken_at put_at wire addr server_name timeout st =
     (case pooled_forward tls_send_recv (connect_tls net addr server_name timeout) taken_at put_at
             wire addr timeout (up_tls_pools st) of
        (r, ps) \<Rightarrow> (r, st\<lparr>up_tls_pools := ps\<rparr>))"

definition forward_doh :: "internet \<Rightarrow> u8 list \<Rightarrow> string \<Rightarrow> u64 \<Rightarrow> upstream_error + u8 list" where
  "forward_doh net wire endpoint_url timeout =
     (case net_uri_error net endpoint_url of
        Some e \<Rightarrow> Inl (Up_DoH (''invalid DoH URL '' @ quoted endpoint_url @ '': '' @ e))
      | None \<Rightarrow>
          (case net_http net endpoint_url wire of
             Http_Build_Error e \<Rightarrow> Inl (Up_DoH (''failed to build request: '' @ e))
           | Http_Timeout \<Rightarrow> Inl (Up_Timeout timeout)
           | Http_Error e \<Rightarrow> Inl (Up_DoH e)
           | Http_Reply status body \<Rightarrow>
               if \<not> (200 \<le> status \<and> status < 300) then
                 Inl (Up_DoH (''HTTP '' @ net_status_text net status))
               else case body of
                 Inl e \<Rightarrow> Inl (Up_DoH e)
               | Inr [] \<Rightarrow> Inl (Up_DoH ''empty response body'')
               | Inr bs \<Rightarrow> Inr bs))"

section \<open>One server\<close>

definition parse_socket_addr :: "string \<Rightarrow> upstream_error + socket_addr" where
  "parse_socket_addr addr =
     (case parse_sockaddr addr of
        None \<Rightarrow> Inl (InvalidAddress addr ''invalid socket address syntax'')
      | Some a \<Rightarrow> Inr a)"

definition query_server ::
    "internet \<Rightarrow> nat \<Rightarrow> nat \<Rightarrow> u8 list \<Rightarrow> upstream_server \<Rightarrow> u64 \<Rightarrow> upstream_state
     \<Rightarrow> (upstream_error + u8 list \<times> socket_addr) \<times> upstream_state" where
  "query_server net taken_at put_at wire server timeout st =
     (let at_addr = (\<lambda>f. case parse_socket_addr (us_endpoint server) of
            Inl e \<Rightarrow> (Inl e, st)
          | Inr addr \<Rightarrow>
              (case f addr of (r, st') \<Rightarrow> (rbind r (\<lambda>bytes. Inr (bytes, addr)), st')))
      in case us_transport server of
           Proto_Udp \<Rightarrow> at_addr (\<lambda>addr. forward_udp net wire addr timeout st)
         | Proto_Tcp \<Rightarrow> at_addr (\<lambda>addr. forward_tcp net taken_at put_at wire addr timeout st)
         | Proto_Tls \<Rightarrow> at_addr (\<lambda>addr. forward_tls net taken_at put_at wire addr
             (case us_server_name server of Some n \<Rightarrow> n | None \<Rightarrow> ''dns.google'') timeout st)
         | Proto_Https \<Rightarrow>
             (rbind (forward_doh net wire (us_endpoint server) timeout)
                (\<lambda>bytes. Inr (bytes, Sock_V4 [0, 0, 0, 0] 0)), st)
         | Proto_Quic \<Rightarrow> (Inl (Up_Protocol ''QUIC upstream not yet implemented''), st))"

definition forward_single ::
    "internet \<Rightarrow> nat \<Rightarrow> nat \<Rightarrow> nat \<Rightarrow> u8 list \<Rightarrow> upstream_server \<Rightarrow> u64
     \<Rightarrow> upstream_state \<Rightarrow> (upstream_error + upstream_response) \<times> upstream_state" where
  "forward_single net taken_at put_at rtt wire server timeout st =
     (case query_server net taken_at put_at wire server timeout st of
        (Inl e, st') \<Rightarrow> (Inl e, st')
      | (Inr (response_bytes, sock_addr), st') \<Rightarrow>
          (case from_wire response_bytes of
             Inl e \<Rightarrow> (Inl (Up_Protocol (protocol_error_to_string e)), st')
           | Inr message \<Rightarrow>
               (Inr \<lparr>ur_message = message, ur_server_name = us_name server,
                     ur_server_addr = sock_addr, ur_rtt = rtt\<rparr>, st')))"

section \<open>The race\<close>

text \<open>A finished task: \<open>Inl\<close> is a join error (the task panicked or was aborted).\<close>

type_synonym task_result = "string + (upstream_error + upstream_response)"

fun str_join :: "string \<Rightarrow> string list \<Rightarrow> string" where
  "str_join sep [] = []"
| "str_join sep [x] = x"
| "str_join sep (x # y # ys) = x @ sep @ str_join sep (y # ys)"

fun forward_loop :: "task_result list \<Rightarrow> string list \<Rightarrow> upstream_error + upstream_response" where
  "forward_loop [] errors = Inl (AllFailed (str_join ''; '' errors))"
| "forward_loop (Inr (Inr resp) # results) errors = Inr resp"
| "forward_loop (Inr (Inl e) # results) errors =
     forward_loop results (errors @ [upstream_error_to_string e])"
| "forward_loop (Inl join_err # results) errors =
     forward_loop results (errors @ [''task join error: '' @ join_err])"

definition race_tasks :: "upstream_server list \<Rightarrow> u64 \<Rightarrow> (upstream_server \<times> u64) list" where
  "race_tasks upstreams default_timeout =
     map (\<lambda>server. (server, min (us_timeout_ms server) default_timeout)) upstreams"

text \<open>\<open>completions\<close> stands for the scheduler: given the query bytes and the spawned tasks, the
  results in the order in which the tasks finish.\<close>

definition forward ::
    "(u8 list \<Rightarrow> (upstream_server \<times> u64) list \<Rightarrow> task_result list)
     \<Rightarrow> dns_message \<Rightarrow> upstream_server list \<Rightarrow> u64 \<Rightarrow> upstream_error + upstream_response" where
  "forward completions query upstreams default_timeout =
     (if upstreams = [] then Inl (AllFailed ''no upstream servers configured'')
      else forward_loop (completions (to_wire query) (race_tasks upstreams default_timeout)) [])"

section \<open>The pool\<close>

text \<open>A pool in order at time \<open>t\<close>: within its capacity, connections in the order of their return,
  none returned later than \<open>t\<close>.\<close>

definition pool_ok :: "nat \<Rightarrow> 'c conn_pool \<Rightarrow> bool" where
  "pool_ok t p \<longleftrightarrow>
     length (cp_idle p) \<le> cp_max_idle p \<and> sorted (map fst (cp_idle p)) \<and> (\<forall>(i, c) \<in> set (cp_idle p). i \<le> t)"

definition pool_conns :: "'c conn_pool \<Rightarrow> 'c set" where
  "pool_conns p = snd ` set (cp_idle p)"

lemma evict_stale_dropWhile:
  "evict_stale now t idle = rev (dropWhile (\<lambda>(i, _). t \<le> now - i) (rev idle))"
proof (induction now t idle rule: evict_stale.induct)
  case (1 now t idle)
  then show ?case
    by (subst evict_stale.simps) (cases idle rule: rev_cases; auto)
qed

lemma evict_stale_prefix: "\<exists>stale. idle = evict_stale now t idle @ stale \<and> (\<forall>(i, c) \<in> set stale. t \<le> now - i)"
proof -
  have "idle = evict_stale now t idle @ rev (takeWhile (\<lambda>(i, _). t \<le> now - i) (rev idle))"
    by (metis evict_stale_dropWhile rev_append rev_rev_ident takeWhile_dropWhile_id)
  moreover have "\<forall>(i, c) \<in> set (rev (takeWhile (\<lambda>(i, _). t \<le> now - i) (rev idle))). t \<le> now - i"
    by (auto dest: set_takeWhileD)
  ultimately show ?thesis by blast
qed

lemma evict_stale_last: "evict_stale now t idle \<noteq> [] \<Longrightarrow> now - fst (last (evict_stale now t idle)) < t"
proof (induction now t idle rule: evict_stale.induct)
  case (1 now t idle)
  then show ?case by (subst (asm) (2) evict_stale.simps, subst evict_stale.simps) (auto split: if_splits)
qed

lemma pool_ok_prefix:
  assumes "pool_ok t p" "cp_idle p = xs @ ys"
  shows "pool_ok t (p\<lparr>cp_idle := xs\<rparr>)"
  using assms by (auto simp: pool_ok_def sorted_append)

lemma pool_take_spec:
  assumes "pool_take now p = (taken, p')" and ok: "pool_ok t p"
  shows "pool_ok t p' \<and> pool_conns p' \<subseteq> pool_conns p \<and> cp_max_idle p' = cp_max_idle p \<and>
    cp_idle_timeout p' = cp_idle_timeout p \<and>
    (case taken of
       None \<Rightarrow> (\<forall>(i, c) \<in> set (cp_idle p). cp_idle_timeout p \<le> now - i)
     | Some c \<Rightarrow> \<exists>i. (i, c) \<in> set (cp_idle p) \<and> now - i < cp_idle_timeout p \<and>
         (\<forall>(j, d) \<in> set (cp_idle p). j \<le> i \<or> cp_idle_timeout p \<le> now - j))"
proof -
  define live where "live = evict_stale now (cp_idle_timeout p) (cp_idle p)"
  obtain stale where split: "cp_idle p = live @ stale" and
      st: "\<forall>(i, c) \<in> set stale. cp_idle_timeout p \<le> now - i"
    using evict_stale_prefix [of "cp_idle p" now "cp_idle_timeout p"] by (auto simp: live_def)
  show ?thesis
  proof (cases "live = []")
    case True
    with assms st split show ?thesis
      by (auto simp: pool_take_def Let_def pool_ok_def pool_conns_def simp flip: live_def)
  next
    case False
    then obtain xs i c where live: "live = xs @ [(i, c)]" by (metis rev_exhaust surj_pair)
    have fresh: "now - i < cp_idle_timeout p"
      using evict_stale_last [of now "cp_idle_timeout p" "cp_idle p"] False
      by (simp add: live flip: live_def)
    have "j \<le> i" if "(j, d) \<in> set xs" for j d
      using ok that by (auto simp: pool_ok_def split live sorted_append)
    moreover have "pool_ok t (p\<lparr>cp_idle := xs\<rparr>)"
      using pool_ok_prefix [OF ok, of xs] by (simp add: split live)
    moreover have "taken = Some c" "p' = p\<lparr>cp_idle := xs\<rparr>"
      using assms(1) False by (simp_all add: pool_take_def flip: live_def) (auto simp: live)
    ultimately show ?thesis
      using fresh st by (auto simp: live pool_conns_def split)
  qed
qed

lemma pool_put_spec:
  assumes "pool_ok t p" "t \<le> now"
  shows "pool_ok now (pool_put now c p)" "pool_conns (pool_put now c p) \<subseteq> insert c (pool_conns p)"
    "cp_max_idle (pool_put now c p) = cp_max_idle p" "cp_idle_timeout (pool_put now c p) = cp_idle_timeout p"
  using assms by (fastforce simp: pool_put_def pool_ok_def pool_conns_def sorted_append)
    (auto simp: pool_put_def pool_conns_def)

lemma pool_ok_later: "pool_ok t p \<Longrightarrow> t \<le> t' \<Longrightarrow> pool_ok t' p"
  by (fastforce simp: pool_ok_def)

lemma pool_new_ok: "pool_ok t (pool_new n d)"
  by (simp add: pool_new_def pool_ok_def)

definition pools_ok :: "nat \<Rightarrow> pools \<Rightarrow> bool" where
  "pools_ok t ps \<longleftrightarrow>
     dm_wf ps \<and>
     (\<forall>addr p. dm_get ps addr = Some p \<longrightarrow>
        pool_ok t p \<and> cp_max_idle p = POOL_MAX_IDLE \<and> cp_idle_timeout p = POOL_IDLE_TIMEOUT)"

lemma pool_of_ok:
  "pools_ok t ps \<Longrightarrow> pool_ok t (pool_of ps addr) \<and> cp_max_idle (pool_of ps addr) = POOL_MAX_IDLE \<and>
     cp_idle_timeout (pool_of ps addr) = POOL_IDLE_TIMEOUT"
  by (auto simp: pools_ok_def pool_of_def pool_new_ok split: option.splits) (simp_all add: pool_new_def)

lemma pools_ok_insert:
  assumes "pools_ok t ps" "t \<le> now" "pool_ok now p" "cp_max_idle p = POOL_MAX_IDLE"
    "cp_idle_timeout p = POOL_IDLE_TIMEOUT"
  shows "pools_ok now (dm_insert addr p ps)"
  using assms by (auto simp: pools_ok_def dm.wf_ins dm.get_ins intro: pool_ok_later)

lemma pool_of_insert:
  "pools_ok t ps \<Longrightarrow> pool_of (dm_insert addr p ps) a = (if a = addr then p else pool_of ps a)"
  by (simp add: pool_of_def pools_ok_def dm.get_ins)

section \<open>One frame per exchange\<close>

text \<open>What the pool relies on: an exchange that succeeds has written exactly one frame, the query,
  and consumed exactly one frame, the response it returns.\<close>

locale framed_stream =
  fixes exchange :: "u64 \<Rightarrow> u8 list \<Rightarrow> byte_stream \<Rightarrow> upstream_error + (u8 list \<times> byte_stream)"
  assumes one_frame:
    "exchange timeout wire s = Inr (resp, s') \<Longrightarrow>
       st_in s = encode_tcp_frame resp @ st_in s' \<and> st_out s' = st_out s @ encode_tcp_frame wire"
begin

lemma pooled_forward_spec:
  assumes ok: "pools_ok t ps" and times: "t \<le> taken_at" "taken_at \<le> put_at"
    and run: "pooled_forward exchange connect taken_at put_at wire addr timeout ps = (r, ps')"
  shows "pools_ok put_at ps' \<and> (\<forall>a. a \<noteq> addr \<longrightarrow> pool_of ps' a = pool_of ps a) \<and>
    (case r of
       Inl e \<Rightarrow> pool_conns (pool_of ps' addr) \<subseteq> pool_conns (pool_of ps addr)
     | Inr resp \<Rightarrow> \<exists>s s'. (s \<in> pool_conns (pool_of ps addr) \<or> connect = Inr s) \<and>
         st_in s = encode_tcp_frame resp @ st_in s' \<and> st_out s' = st_out s @ encode_tcp_frame wire \<and>
         pool_conns (pool_of ps' addr) \<subseteq> insert s' (pool_conns (pool_of ps addr)))"
proof -
  obtain taken p where take: "pool_take taken_at (pool_of ps addr) = (taken, p)" by force
  note pk = pool_take_spec [OF take conjunct1 [OF pool_of_ok [OF ok, of addr]]]
  have caps: "pool_ok t p" "cp_max_idle p = POOL_MAX_IDLE" "cp_idle_timeout p = POOL_IDLE_TIMEOUT"
      "pool_conns p \<subseteq> pool_conns (pool_of ps addr)"
    using pk pool_of_ok [OF ok, of addr] by simp_all
  have put: "pools_ok put_at (dm_insert addr (pool_put put_at s p) ps)" for s
    using pool_put_spec [OF caps(1), of put_at s] caps times ok by (auto intro!: pools_ok_insert)
  have keep: "pools_ok put_at (dm_insert addr p ps)"
    using caps times ok pool_ok_later [OF caps(1), of put_at] by (auto intro!: pools_ok_insert)
  have conns: "pool_conns (pool_put put_at s p) \<subseteq> insert s (pool_conns (pool_of ps addr))" for s
    using pool_put_spec(2) [OF caps(1), of put_at s] caps(4) times by auto
  have mem: "taken = Some c \<Longrightarrow> c \<in> pool_conns (pool_of ps addr)" for c
    using pk by (force simp: pool_conns_def)
  have good: "\<exists>s s''. (s \<in> pool_conns (pool_of ps addr) \<or> connect = Inr s) \<and>
        st_in s = encode_tcp_frame resp @ st_in s'' \<and> st_out s'' = st_out s @ encode_tcp_frame wire \<and>
        pool_conns (pool_put put_at s' p) \<subseteq> insert s'' (pool_conns (pool_of ps addr))"
    if "s \<in> pool_conns (pool_of ps addr) \<or> connect = Inr s" "exchange timeout wire s = Inr (resp, s')"
    for s s' resp
    using one_frame [OF that(2)] conns [of s'] that(1) by blast
  note upd = pool_of_insert [OF ok]
  consider (pooled) c resp s' where "taken = Some c" "exchange timeout wire c = Inr (resp, s')"
      "r = Inr resp" "ps' = dm_insert addr (pool_put put_at s' p) ps"
    | (new) c resp s' where "connect = Inr c" "exchange timeout wire c = Inr (resp, s')"
      "r = Inr resp" "ps' = dm_insert addr (pool_put put_at s' p) ps"
    | (failed) e where "r = Inl e" "ps' = dm_insert addr p ps"
    using run take
    by (auto simp: pooled_forward_def Let_def rbind_def split: option.splits sum.splits prod.splits)
  then show ?thesis
  proof cases
    case pooled
    then show ?thesis using good [of c resp s'] mem put by (simp add: upd)
  next
    case new
    then show ?thesis using good [of c resp s'] put by (simp add: upd)
  next
    case failed
    then show ?thesis using caps keep by (simp add: upd)
  qed
qed

end

lemma frame_split:
  assumes "2 \<le> length bs" "n = unat (u16_from_be_bytes (bs ! 0) (bs ! 1))" "n \<le> length (drop 2 bs)"
  shows "bs = encode_tcp_frame (take n (drop 2 bs)) @ drop n (drop 2 bs)"
proof -
  obtain a b rest where bs: "bs = a # b # rest"
    using assms(1) by (cases bs; cases "tl bs") auto
  then have "n = unat (u16_from_be_bytes a b)" "n \<le> length rest" using assms by simp_all
  then show ?thesis by (simp add: bs encode_tcp_frame_def u16_be_bytes_roundtrip min_def)
qed

lemma framed_exchange_one_frame:
  assumes "framed_exchange what timeout wire s = Inr (resp, s')"
  shows "st_in s = encode_tcp_frame resp @ st_in s' \<and> st_out s' = st_out s @ encode_tcp_frame wire"
proof -
  define n where "n = unat (u16_from_be_bytes (st_in s ! 0) (st_in s ! 1))"
  have "2 \<le> length (st_in s)" "n \<le> length (drop 2 (st_in s))" "resp = take n (drop 2 (st_in s))"
    "st_in s' = drop n (drop 2 (st_in s))" "st_out s' = st_out s @ encode_tcp_frame wire"
    using assms
    by (auto simp: framed_exchange_def write_all_def read_exact_def result_simps Let_def n_def
        split: if_splits option.splits stream_end.splits)
  with frame_split [of "st_in s" n] show ?thesis by (simp add: n_def)
qed

interpretation tcp: framed_stream tcp_send_recv
  by unfold_locales (simp add: tcp_send_recv_def framed_exchange_one_frame)

interpretation tls: framed_stream tls_send_recv
  by unfold_locales (simp add: tls_send_recv_def framed_exchange_one_frame)

section \<open>Properties\<close>

definition task_ok :: "task_result \<Rightarrow> bool" where
  "task_ok t \<longleftrightarrow> (\<exists>r. t = Inr (Inr r))"

text \<open>The first success of a completion sequence.\<close>

definition first_success :: "task_result list \<Rightarrow> upstream_response \<Rightarrow> bool" where
  "first_success results r \<longleftrightarrow>
     (\<exists>failed later. results = failed @ Inr (Inr r) # later \<and> (\<forall>t \<in> set failed. \<not> task_ok t))"

lemma task_ok_simps [simp]: "task_ok (Inr (Inr r))" "\<not> task_ok (Inr (Inl e))" "\<not> task_ok (Inl j)"
  by (simp_all add: task_ok_def)

lemma first_success_Nil [simp]: "\<not> first_success [] r"
  by (simp add: first_success_def)

lemma first_success_Cons [simp]:
  "first_success (x # results) r \<longleftrightarrow> x = Inr (Inr r) \<or> \<not> task_ok x \<and> first_success results r"
proof
  assume "first_success (x # results) r"
  then obtain failed later where
    "x # results = failed @ Inr (Inr r) # later" "\<forall>t \<in> set failed. \<not> task_ok t"
    unfolding first_success_def by blast
  then show "x = Inr (Inr r) \<or> \<not> task_ok x \<and> first_success results r"
    unfolding first_success_def by (cases failed) auto
next
  assume "x = Inr (Inr r) \<or> \<not> task_ok x \<and> first_success results r"
  then show "first_success (x # results) r"
  proof
    assume "x = Inr (Inr r)"
    then have "x # results = [] @ Inr (Inr r) # results" by simp
    then show ?thesis unfolding first_success_def by fastforce
  next
    assume "\<not> task_ok x \<and> first_success results r"
    then obtain failed later where "x # results = (x # failed) @ Inr (Inr r) # later"
      "\<forall>t \<in> set (x # failed). \<not> task_ok t" unfolding first_success_def by auto
    then show ?thesis unfolding first_success_def by blast
  qed
qed

lemma first_success_member: "first_success results r \<Longrightarrow> Inr (Inr r) \<in> set results"
  by (auto simp: first_success_def)

lemma forward_loop_Inr: "forward_loop results errors = Inr r \<longleftrightarrow> first_success results r"
  by (induction results errors rule: forward_loop.induct) auto

lemma forward_loop_Inl:
  "forward_loop results errors = Inl e \<Longrightarrow> (\<forall>t \<in> set results. \<not> task_ok t) \<and> (\<exists>msg. e = AllFailed msg)"
  by (induction results errors rule: forward_loop.induct) (auto simp: task_ok_def)

lemma forward_loop_all_failed:
  "\<forall>t \<in> set results. \<not> task_ok t \<Longrightarrow> \<exists>msg. forward_loop results errors = Inl (AllFailed msg)"
  by (induction results errors rule: forward_loop.induct) (auto simp: task_ok_def)

lemma forward_outcome:
  assumes "upstreams \<noteq> []"
    and "mset (completions (to_wire query) (race_tasks upstreams default_timeout)) =
      mset (map (\<lambda>(s, t). task (to_wire query) s t) (race_tasks upstreams default_timeout))"
  shows "(\<forall>r. forward completions query upstreams default_timeout = Inr r \<longleftrightarrow>
      first_success (completions (to_wire query) (race_tasks upstreams default_timeout)) r) \<and>
    (\<forall>r. forward completions query upstreams default_timeout = Inr r \<longrightarrow>
      (\<exists>s \<in> set upstreams. task (to_wire query) s (min (us_timeout_ms s) default_timeout) = Inr (Inr r))) \<and>
    ((\<exists>msg. forward completions query upstreams default_timeout = Inl (AllFailed msg)) \<longleftrightarrow>
      (\<forall>s \<in> set upstreams. \<not> task_ok (task (to_wire query) s (min (us_timeout_ms s) default_timeout))))"
proof -
  let ?done = "completions (to_wire query) (race_tasks upstreams default_timeout)"
  have fwd: "forward completions query upstreams default_timeout = forward_loop ?done []"
    using assms(1) by (simp add: forward_def)
  have "set ?done = set (map (\<lambda>(s, t). task (to_wire query) s t) (race_tasks upstreams default_timeout))"
    using assms(2) by (rule mset_eq_setD)
  then have tasks: "set ?done = (\<lambda>s. task (to_wire query) s (min (us_timeout_ms s) default_timeout)) ` set upstreams"
    by (simp add: race_tasks_def image_image)
  have "\<exists>s \<in> set upstreams. task (to_wire query) s (min (us_timeout_ms s) default_timeout) = Inr (Inr r)"
    if "forward_loop ?done [] = Inr r" for r
  proof -
    have "Inr (Inr r) \<in> set ?done" using that by (simp add: forward_loop_Inr first_success_member)
    then show ?thesis unfolding tasks by force
  qed
  moreover have "(\<exists>msg. forward_loop ?done [] = Inl (AllFailed msg)) \<longleftrightarrow> (\<forall>t \<in> set ?done. \<not> task_ok t)"
    using forward_loop_Inl forward_loop_all_failed by blast
  ultimately show ?thesis
    unfolding fwd by (simp add: forward_loop_Inr tasks)
qed

text \<open>C14: whatever order the spawned tasks finish in, a race succeeds exactly when one of the
  configured servers answers, its result is the answer that arrived first, obtained from one of
  these servers with the smaller of its own and the default timeout, and otherwise the error is
  \<^verbatim>\<open>AllFailed\<close>.\<close>

theorem forward_race:
  assumes "upstreams \<noteq> []"
    and "mset (completions (to_wire query) (race_tasks upstreams default_timeout)) =
      mset (map (\<lambda>(s, t). task (to_wire query) s t) (race_tasks upstreams default_timeout))"
  shows "(\<forall>r. forward completions query upstreams default_timeout = Inr r \<longleftrightarrow>
      first_success (completions (to_wire query) (race_tasks upstreams default_timeout)) r) \<and>
    (\<forall>r. forward completions query upstreams default_timeout = Inr r \<longrightarrow>
      (\<exists>s \<in> set upstreams. task (to_wire query) s (min (us_timeout_ms s) default_timeout) = Inr (Inr r))) \<and>
    ((\<exists>msg. forward completions query upstreams default_timeout = Inl (AllFailed msg)) \<longleftrightarrow>
      (\<forall>s \<in> set upstreams. \<not> task_ok (task (to_wire query) s (min (us_timeout_ms s) default_timeout))))"
  using forward_outcome [where completions = completions and task = task, OF assms] .

definition sample_server :: "string \<Rightarrow> upstream_server" where
  "sample_server name = \<lparr>us_name = name, us_transport = Proto_Udp, us_endpoint = ''192.0.2.1:53'',
     us_server_name = None, us_timeout_ms = 3000\<rparr>"

definition sample_response :: "string \<Rightarrow> upstream_response" where
  "sample_response name = \<lparr>ur_message = sample_query, ur_server_name = name,
     ur_server_addr = Sock_V4 [192, 0, 2, 1] 53, ur_rtt = 5\<rparr>"

text \<open>Two servers, the second one fails first, then the first one answers.\<close>

definition sample_task :: "u8 list \<Rightarrow> upstream_server \<Rightarrow> u64 \<Rightarrow> task_result" where
  "sample_task wire s t =
     (if us_name s = ''a'' then Inr (Inr (sample_response ''a'')) else Inr (Inl (Up_Timeout t)))"

theorem forward_race_witness:
  "\<exists>s \<in> {sample_server ''a'', sample_server ''b''}.
     sample_task (to_wire sample_query) s (min (us_timeout_ms s) 2000) = Inr (Inr (sample_response ''a''))"
proof -
  let ?ss = "[sample_server ''a'', sample_server ''b'']"
  let ?sched = "\<lambda>wire tasks. rev (map (\<lambda>(s, t). sample_task wire s t) tasks)"
  have "forward ?sched sample_query ?ss 2000 = Inr (sample_response ''a'')"
    by (simp add: forward_def race_tasks_def sample_task_def sample_server_def)
  moreover have "mset (?sched (to_wire sample_query) (race_tasks ?ss 2000)) =
      mset (map (\<lambda>(s, t). sample_task (to_wire sample_query) s t) (race_tasks ?ss 2000))"
    by simp
  ultimately show ?thesis
    using forward_race [of ?ss ?sched sample_query 2000 sample_task] by auto
qed


definition sample_stream :: "u8 list \<Rightarrow> byte_stream" where
  "sample_stream bs = \<lparr>st_in = bs, st_end = Stalled, st_out = [], st_write_error = None\<rparr>"

definition sample_net :: internet where
  "sample_net =
     \<lparr>net_bind = (\<lambda>_. Inl ''unavailable''),
      net_connect = (\<lambda>_. Connected (sample_stream [0, 1, 42, 0])),
      net_server_name_error = (\<lambda>_. None), net_handshake = (\<lambda>_ s. Inr s),
      net_uri_error = (\<lambda>_. None), net_http = (\<lambda>_ _. Http_Timeout), net_status_text = (\<lambda>_. ''OK'')\<rparr>"

definition idle_state :: upstream_state where
  "idle_state = \<lparr>up_udp_sockets = dm_new, up_tcp_pools = dm_new, up_tls_pools = dm_new\<rparr>"


section \<open>Where code and documentation part\<close>

text \<open>The UDP socket of a server is kept across queries and no response is compared with its query:
  an answer that arrives after its query timed out is taken for the answer to the next query, and
  so is a datagram of any other sender.\<close>

theorem udp_answer_not_matched:
  assumes "sk_send_error sock = None" "sk_recv_error sock = None"
    "sk_inbox sock = [(from, late)]" "length late \<le> 4096"
  shows "forward_udp net wire addr timeout
      \<lparr>up_udp_sockets = [(addr, sock)], up_tcp_pools = ps, up_tls_pools = ps'\<rparr> =
    (Inr late, \<lparr>up_udp_sockets = [(addr, sock\<lparr>sk_inbox := [], sk_sent := sk_sent sock @ [(wire, addr)]\<rparr>)],
       up_tcp_pools = ps, up_tls_pools = ps'\<rparr>)"
  using assms
  by (simp add: forward_udp_def get_udp_socket_def udp_exchange_def dm_get_def dm_insert_def
      UDP_MAX_EDNS_MESSAGE_SIZE_def)

text \<open>Only stale connections at the back are evicted, where the youngest stand: an older stale
  connection survives every \<^verbatim>\<open>take\<close> that finds a younger live one behind it.\<close>

theorem stale_connection_survives:
  assumes "now - young < timeout" "timeout \<le> now - old"
  shows "pool_take now \<lparr>cp_idle = [(old, a), (young, b)], cp_max_idle = n, cp_idle_timeout = timeout\<rparr> =
    (Some b, \<lparr>cp_idle = [(old, a)], cp_max_idle = n, cp_idle_timeout = timeout\<rparr>)"
  using assms by (simp add: pool_take_def evict_stale.simps)

text \<open>Configuration validation accepts QUIC servers; forwarding to one always fails.\<close>

theorem quic_upstream_always_fails:
  "us_transport server = Proto_Quic \<Longrightarrow>
   fst (forward_single net taken_at put_at rtt wire server timeout st) =
     Inl (Up_Protocol ''QUIC upstream not yet implemented'')"
  by (simp add: forward_single_def query_server_def)

end
