(* ===== verification/Cache.thy ===== *)
theory Cache
  imports Message Dash_Map Config
begin

text \<open>
  The route-scoped answer cache, \<^verbatim>\<open>border-dns-cache/src/lib.rs\<close>.

  Time is the number of nanoseconds on a monotonic clock; every operation that reads
  \<^verbatim>\<open>Instant::now()\<close> takes it as the argument \<open>now\<close>. The hash function \<^verbatim>\<open>DefaultHasher\<close>, whose
  algorithm its documentation leaves open, is the argument \<open>hasher\<close> on the values fed to it:
  route, query type and the labels in order. \<^verbatim>\<open>u32::clamp\<close> panics when the lower bound exceeds
  the upper one; \<open>clamp_ttl\<close> is then \<open>None\<close>, and so is every insertion.
\<close>

section \<open>Data\<close>

record cached_response =
  cr_wire :: "u8 list"
  cr_message :: dns_message

type_synonym key_input = "route \<times> qtype \<times> u8 list list"
type_synonym cache_key = "128 word"

record cache_entry =
  ce_response :: cached_response
  ce_inserted_at :: nat
  ce_ttl_secs :: u32

record cache_stats =
  cs_hits :: u64
  cs_misses :: u64
  cs_evictions :: u64
  cs_entries :: nat

record cache_metrics =
  cm_hits :: u64
  cm_misses :: u64
  cm_evictions :: u64

record route_scoped_cache =
  rc_entries :: "(cache_key, cache_entry) dmap"
  rc_stats :: cache_metrics
  rc_config :: cache_config

section \<open>Operations\<close>

definition cached_response_new :: "dns_message \<Rightarrow> cached_response" where
  "cached_response_new m = \<lparr>cr_wire = to_wire m, cr_message = m\<rparr>"

definition wire_with_id :: "cached_response \<Rightarrow> u16 \<Rightarrow> u8 list" where
  "wire_with_id r new_id =
     ((cr_wire r) [0 := ucast (drop_bit 8 new_id)]) [1 := ucast (new_id AND 0xFF)]"

definition key_input :: "route \<Rightarrow> qtype \<Rightarrow> domain_name \<Rightarrow> key_input" where
  "key_input rt qt n = (rt, qt, name_labels n)"

definition cache_key_new :: "(key_input \<Rightarrow> u64) \<Rightarrow> route \<Rightarrow> qtype \<Rightarrow> domain_name \<Rightarrow> cache_key" where
  "cache_key_new hasher rt qt n = ucast (hasher (key_input rt qt n))"

definition NANOS_PER_SEC :: nat where "NANOS_PER_SEC = 1000000000"

definition is_expired :: "nat \<Rightarrow> cache_entry \<Rightarrow> bool" where
  "is_expired now e \<longleftrightarrow> (now - ce_inserted_at e) div NANOS_PER_SEC \<ge> unat (ce_ttl_secs e)"

definition cache_new :: "cache_config \<Rightarrow> route_scoped_cache" where
  "cache_new config =
     \<lparr>rc_entries = dm_new, rc_stats = \<lparr>cm_hits = 0, cm_misses = 0, cm_evictions = 0\<rparr>,
      rc_config = config\<rparr>"

definition record_hit :: "cache_metrics \<Rightarrow> cache_metrics" where
  "record_hit s = s\<lparr>cm_hits := cm_hits s + 1\<rparr>"

definition record_miss :: "cache_metrics \<Rightarrow> cache_metrics" where
  "record_miss s = s\<lparr>cm_misses := cm_misses s + 1\<rparr>"

definition record_eviction :: "cache_metrics \<Rightarrow> cache_metrics" where
  "record_eviction s = s\<lparr>cm_evictions := cm_evictions s + 1\<rparr>"

definition get_scoped ::
  "(key_input \<Rightarrow> u64) \<Rightarrow> nat \<Rightarrow> route \<Rightarrow> qtype \<Rightarrow> domain_name \<Rightarrow> route_scoped_cache \<Rightarrow>
   cached_response option \<times> route_scoped_cache" where
  "get_scoped hasher now rt qt n c =
     (let key = cache_key_new hasher rt qt n in
      case dm_get (rc_entries c) key of
        Some entry \<Rightarrow>
          if is_expired now entry then
            (None, c\<lparr>rc_entries := dm_remove key (rc_entries c),
                      rc_stats := record_miss (rc_stats c)\<rparr>)
          else (Some (ce_response entry), c\<lparr>rc_stats := record_hit (rc_stats c)\<rparr>)
      | None \<Rightarrow> (None, c\<lparr>rc_stats := record_miss (rc_stats c)\<rparr>))"

definition cache_get ::
  "(key_input \<Rightarrow> u64) \<Rightarrow> nat \<Rightarrow> qtype \<Rightarrow> domain_name \<Rightarrow> route_scoped_cache \<Rightarrow>
   cached_response option \<times> route_scoped_cache" where
  "cache_get hasher now qt n c = get_scoped hasher now Route_Fallback qt n c"

text \<open>\<^verbatim>\<open>message.answers.iter().map(|rr| rr.ttl).min().unwrap_or(0)\<close>\<close>

definition extract_min_ttl :: "dns_message \<Rightarrow> u32" where
  "extract_min_ttl m =
     (case m_answers m of
        [] \<Rightarrow> 0
      | rr # rrs \<Rightarrow> fold (\<lambda>r t. min t (rr_ttl r)) rrs (rr_ttl rr))"

definition clamp_ttl :: "cache_config \<Rightarrow> u32 \<Rightarrow> u32 option" where
  "clamp_ttl config ttl =
     (if max_ttl_secs config < min_ttl_secs config then None
      else Some (if ttl < min_ttl_secs config then min_ttl_secs config
                 else if max_ttl_secs config < ttl then max_ttl_secs config else ttl))"

text \<open>The scan of \<^verbatim>\<open>evict_oldest\<close>: the oldest entry seen so far and its time.\<close>

fun scan_oldest ::
  "(cache_key \<times> cache_entry) list \<Rightarrow> cache_key option \<Rightarrow> nat \<Rightarrow> cache_key option" where
  "scan_oldest [] oldest_key oldest_time = oldest_key"
| "scan_oldest ((k, e) # es) oldest_key oldest_time =
     (if ce_inserted_at e < oldest_time then scan_oldest es (Some k) (ce_inserted_at e)
      else scan_oldest es oldest_key oldest_time)"

definition evict_oldest :: "nat \<Rightarrow> route_scoped_cache \<Rightarrow> route_scoped_cache" where
  "evict_oldest now c =
     (case scan_oldest (dm_iter (rc_entries c)) None now of
        Some key \<Rightarrow> c\<lparr>rc_entries := dm_remove key (rc_entries c),
                      rc_stats := record_eviction (rc_stats c)\<rparr>
      | None \<Rightarrow> c)"

definition set_answer_ttls :: "u32 \<Rightarrow> dns_message \<Rightarrow> dns_message" where
  "set_answer_ttls ttl m = m\<lparr>m_answers := map (\<lambda>rr. rr\<lparr>rr_ttl := ttl\<rparr>) (m_answers m)\<rparr>"

definition insert_scoped_with_ttl ::
  "(key_input \<Rightarrow> u64) \<Rightarrow> nat \<Rightarrow> route \<Rightarrow> qtype \<Rightarrow> domain_name \<Rightarrow> dns_message \<Rightarrow> u32 \<Rightarrow>
   route_scoped_cache \<Rightarrow> route_scoped_cache option" where
  "insert_scoped_with_ttl hasher now rt qt n m ttl c =
     (case clamp_ttl (rc_config c) ttl of
        None \<Rightarrow> None
      | Some ttl \<Rightarrow>
          let stored = set_answer_ttls ttl m;
              c = (if dm_len (rc_entries c) \<ge> max_entries (rc_config c)
                   then evict_oldest now c else c);
              key = cache_key_new hasher rt qt n;
              entry = \<lparr>ce_response = cached_response_new stored, ce_inserted_at = now,
                       ce_ttl_secs = ttl\<rparr>
          in Some (c\<lparr>rc_entries := dm_insert key entry (rc_entries c)\<rparr>))"

definition insert_scoped ::
  "(key_input \<Rightarrow> u64) \<Rightarrow> nat \<Rightarrow> route \<Rightarrow> qtype \<Rightarrow> domain_name \<Rightarrow> dns_message \<Rightarrow>
   route_scoped_cache \<Rightarrow> route_scoped_cache option" where
  "insert_scoped hasher now rt qt n m c =
     (case clamp_ttl (rc_config c) (extract_min_ttl m) of
        None \<Rightarrow> None
      | Some ttl \<Rightarrow> insert_scoped_with_ttl hasher now rt qt n m ttl c)"

definition cache_insert ::
  "(key_input \<Rightarrow> u64) \<Rightarrow> nat \<Rightarrow> qtype \<Rightarrow> domain_name \<Rightarrow> dns_message \<Rightarrow> route_scoped_cache \<Rightarrow>
   route_scoped_cache option" where
  "cache_insert hasher now qt n m c = insert_scoped hasher now Route_Fallback qt n m c"

definition insert_negative_scoped ::
  "(key_input \<Rightarrow> u64) \<Rightarrow> nat \<Rightarrow> route \<Rightarrow> qtype \<Rightarrow> domain_name \<Rightarrow> dns_message \<Rightarrow>
   route_scoped_cache \<Rightarrow> route_scoped_cache" where
  "insert_negative_scoped hasher now rt qt n m c =
     (let key = cache_key_new hasher rt qt n;
          entry = \<lparr>ce_response = cached_response_new m, ce_inserted_at = now,
                   ce_ttl_secs = negative_ttl_secs (rc_config c)\<rparr>
      in c\<lparr>rc_entries := dm_insert key entry (rc_entries c)\<rparr>)"

definition insert_negative ::
  "(key_input \<Rightarrow> u64) \<Rightarrow> nat \<Rightarrow> qtype \<Rightarrow> domain_name \<Rightarrow> dns_message \<Rightarrow> route_scoped_cache \<Rightarrow>
   route_scoped_cache" where
  "insert_negative hasher now qt n m c = insert_negative_scoped hasher now Route_Fallback qt n m c"

definition cache_stats_of :: "route_scoped_cache \<Rightarrow> cache_stats" where
  "cache_stats_of c =
     \<lparr>cs_hits = cm_hits (rc_stats c), cs_misses = cm_misses (rc_stats c),
      cs_evictions = cm_evictions (rc_stats c), cs_entries = dm_len (rc_entries c)\<rparr>"

definition cache_clear :: "route_scoped_cache \<Rightarrow> route_scoped_cache" where
  "cache_clear c = c\<lparr>rc_entries := dm_new\<rparr>"

section \<open>Executions\<close>

datatype cache_op =
    Op_Get route qtype domain_name
  | Op_Insert route qtype domain_name dns_message
  | Op_InsertTtl route qtype domain_name dns_message u32
  | Op_InsertNegative route qtype domain_name dns_message
  | Op_Clear

fun cache_step ::
  "(key_input \<Rightarrow> u64) \<Rightarrow> nat \<Rightarrow> cache_op \<Rightarrow> route_scoped_cache \<Rightarrow> route_scoped_cache option" where
  "cache_step hasher now (Op_Get rt qt n) c = Some (snd (get_scoped hasher now rt qt n c))"
| "cache_step hasher now (Op_Insert rt qt n m) c = insert_scoped hasher now rt qt n m c"
| "cache_step hasher now (Op_InsertTtl rt qt n m ttl) c =
     insert_scoped_with_ttl hasher now rt qt n m ttl c"
| "cache_step hasher now (Op_InsertNegative rt qt n m) c =
     Some (insert_negative_scoped hasher now rt qt n m c)"
| "cache_step hasher now Op_Clear c = Some (cache_clear c)"

inductive cache_run ::
  "(key_input \<Rightarrow> u64) \<Rightarrow> cache_config \<Rightarrow> (nat \<times> cache_op) list \<Rightarrow> route_scoped_cache \<Rightarrow> bool"
  for hasher config where
  start: "cache_run hasher config [] (cache_new config)"
| step: "cache_run hasher config hist c \<Longrightarrow> cache_step hasher now op c = Some c' \<Longrightarrow>
    cache_run hasher config (hist @ [(now, op)]) c'"

text \<open>The entry an operation stores, with the key input it is stored for.\<close>

fun op_stores :: "cache_config \<Rightarrow> nat \<Rightarrow> cache_op \<Rightarrow> (key_input \<times> cache_entry) option" where
  "op_stores config now (Op_Insert rt qt n m) =
     map_option (\<lambda>ttl. (key_input rt qt n,
       \<lparr>ce_response = cached_response_new (set_answer_ttls ttl m), ce_inserted_at = now,
        ce_ttl_secs = ttl\<rparr>)) (clamp_ttl config (extract_min_ttl m))"
| "op_stores config now (Op_InsertTtl rt qt n m ttl) =
     map_option (\<lambda>ttl. (key_input rt qt n,
       \<lparr>ce_response = cached_response_new (set_answer_ttls ttl m), ce_inserted_at = now,
        ce_ttl_secs = ttl\<rparr>)) (clamp_ttl config ttl)"
| "op_stores config now (Op_InsertNegative rt qt n m) =
     Some (key_input rt qt n,
       \<lparr>ce_response = cached_response_new m, ce_inserted_at = now,
        ce_ttl_secs = negative_ttl_secs config\<rparr>)"
| "op_stores config now _ = None"

section \<open>Lemmas\<close>

lemma clamp_ttl_bounds:
  "clamp_ttl config ttl = Some t \<Longrightarrow> min_ttl_secs config \<le> t \<and> t \<le> max_ttl_secs config"
  by (auto simp: clamp_ttl_def split: if_splits)

lemma clamp_ttl_idem: "clamp_ttl config ttl = Some t \<Longrightarrow> clamp_ttl config t = Some t"
  by (auto simp: clamp_ttl_def split: if_splits)

lemma clamp_ttl_Some: "min_ttl_secs config \<le> max_ttl_secs config \<Longrightarrow> \<exists>t. clamp_ttl config ttl = Some t"
  by (auto simp: clamp_ttl_def)

lemma min_fold: "fold (\<lambda>r t. min t (rr_ttl r)) rrs t0 = Min (insert t0 (rr_ttl ` set rrs))"
proof (induction rrs arbitrary: t0)
  case (Cons r rrs)
  then show ?case
    by (cases "rrs = []") (simp_all add: min.assoc)
qed simp

lemma extract_min_ttl_Min:
  "m_answers m \<noteq> [] \<Longrightarrow> extract_min_ttl m = Min (rr_ttl ` set (m_answers m))"
  by (cases "m_answers m") (auto simp: extract_min_ttl_def min_fold)

definition cache_wf :: "route_scoped_cache \<Rightarrow> bool" where
  "cache_wf c \<longleftrightarrow> dm_wf (rc_entries c)"

lemma cache_wf_new [simp]: "cache_wf (cache_new config)"
  by (simp add: cache_wf_def cache_new_def dm.wf_new)

lemma evict_oldest_sub:
  assumes "cache_wf c"
  shows "cache_wf (evict_oldest now c) \<and> rc_config (evict_oldest now c) = rc_config c \<and>
    (\<forall>k e. dm_get (rc_entries (evict_oldest now c)) k = Some e \<longrightarrow> dm_get (rc_entries c) k = Some e)"
  using assms by (auto simp: evict_oldest_def cache_wf_def dm.wf_rem dm.get_rem split: option.splits)

lemma insert_entries:
  assumes "insert_scoped_with_ttl hasher now rt qt n m ttl c = Some c'" "cache_wf c"
  obtains t c1 where "clamp_ttl (rc_config c) ttl = Some t" "cache_wf c1" "rc_config c1 = rc_config c"
    "\<And>k e. dm_get (rc_entries c1) k = Some e \<Longrightarrow> dm_get (rc_entries c) k = Some e"
    "c' = c1\<lparr>rc_entries := dm_insert (cache_key_new hasher rt qt n)
       \<lparr>ce_response = cached_response_new (set_answer_ttls t m), ce_inserted_at = now, ce_ttl_secs = t\<rparr>
       (rc_entries c1)\<rparr>"
    "c1 = (if dm_len (rc_entries c) \<ge> max_entries (rc_config c) then evict_oldest now c else c)"
  using assms evict_oldest_sub [OF assms(2), of now]
  by (auto simp: insert_scoped_with_ttl_def Let_def split: option.splits if_splits)

text \<open>After any step each entry was there before or is the one the operation stores.\<close>

lemma cache_step_entries:
  assumes "cache_step hasher now op c = Some c'" "cache_wf c"
  shows "cache_wf c' \<and> rc_config c' = rc_config c \<and>
    (\<forall>k e. dm_get (rc_entries c') k = Some e \<longrightarrow>
       dm_get (rc_entries c) k = Some e \<or>
       (\<exists>ki. op_stores (rc_config c) now op = Some (ki, e) \<and> k = ucast (hasher ki)))"
proof -
  have ins: ?thesis
    if i: "insert_scoped_with_ttl hasher now rt qt n m ttl c = Some c'"
      and o: "op_stores (rc_config c) now op = map_option (\<lambda>ttl. (key_input rt qt n,
       \<lparr>ce_response = cached_response_new (set_answer_ttls ttl m), ce_inserted_at = now,
        ce_ttl_secs = ttl\<rparr>)) (clamp_ttl (rc_config c) ttl)"
    for rt qt n m ttl
    using insert_entries [OF i assms(2)]
  proof cases
    case (1 t c1)
    let ?e = "\<lparr>ce_response = cached_response_new (set_answer_ttls t m), ce_inserted_at = now,
      ce_ttl_secs = t\<rparr>"
    have wf: "dm_wf (rc_entries c1)" using 1(2) by (simp add: cache_wf_def)
    have g: "dm_get (rc_entries c') k =
        (if k = ucast (hasher (key_input rt qt n)) then Some ?e else dm_get (rc_entries c1) k)" for k
      using dm.get_ins [OF wf] by (simp add: 1(5) cache_key_new_def)
    have "op_stores (rc_config c) now op = Some (key_input rt qt n, ?e)"
      using o 1(1) by simp
    moreover have "cache_wf c'" "rc_config c' = rc_config c"
      using wf 1(3) by (simp_all add: 1(5) cache_wf_def dm.wf_ins)
    ultimately show ?thesis
      using g 1(4) by (metis option.inject)
  qed
  show ?thesis
  proof (cases op)
    case (Op_Get rt qt n)
    with assms show ?thesis
      by (auto simp: get_scoped_def Let_def cache_wf_def dm.wf_rem dm.get_rem
          split: option.splits if_splits)
  next
    case (Op_Insert rt qt n m)
    with assms(1) obtain t where t: "clamp_ttl (rc_config c) (extract_min_ttl m) = Some t"
      "insert_scoped_with_ttl hasher now rt qt n m t c = Some c'"
      by (auto simp: insert_scoped_def split: option.splits)
    with Op_Insert clamp_ttl_idem [OF t(1)] show ?thesis by (intro ins) auto
  next
    case (Op_InsertTtl rt qt n m ttl)
    with assms(1) show ?thesis by (intro ins) auto
  next
    case (Op_InsertNegative rt qt n m)
    with assms show ?thesis
      by (auto simp: insert_negative_scoped_def Let_def cache_wf_def dm.wf_ins dm.get_ins
          cache_key_new_def split: if_splits)
  next
    case Op_Clear
    with assms show ?thesis
      by (auto simp: cache_clear_def cache_wf_def dm.wf_new dm.get_new)
  qed
qed

lemma cache_run_entries:
  assumes "cache_run hasher config hist c"
  shows "cache_wf c \<and> rc_config c = config \<and>
    (\<forall>k e. dm_get (rc_entries c) k = Some e \<longrightarrow>
       (\<exists>(t, op) \<in> set hist. \<exists>ki. op_stores config t op = Some (ki, e) \<and> k = ucast (hasher ki)))"
  using assms
proof induction
  case start
  then show ?case by (simp add: cache_new_def dm.get_new cache_wf_def dm.wf_new)
next
  case (step hist c now op c')
  then show ?case
    using cache_step_entries [OF step.hyps(2)] by fastforce
qed

lemma get_scoped_SomeD:
  assumes "get_scoped hasher now rt qt n c = (Some resp, c')"
  obtains e where "dm_get (rc_entries c) (cache_key_new hasher rt qt n) = Some e"
    "\<not> is_expired now e" "resp = ce_response e"
    "c' = c\<lparr>rc_stats := record_hit (rc_stats c)\<rparr>"
  using assms by (auto simp: get_scoped_def Let_def split: option.splits if_splits)

lemma ucast_u64_inj: "(ucast (a :: u64) :: cache_key) = ucast b \<longleftrightarrow> a = b"
proof
  assume "(ucast a :: cache_key) = ucast b"
  then have "unat (ucast a :: cache_key) = unat (ucast b :: cache_key)" by simp
  then show "a = b"
    using unsigned_less [of a, where ?'a = nat] unsigned_less [of b, where ?'a = nat]
    by (simp add: unsigned_ucast_eq take_bit_eq_mod word_unat_eq_iff)
qed simp

subsection \<open>Patching the identifier\<close>

lemma to_wire_id_prefix:
  assumes "message_ok m"
  shows "\<exists>xs. to_wire m = u16_to_be_bytes (h_id (m_header m)) @ xs \<and>
    to_wire (m\<lparr>m_header := (m_header m)\<lparr>h_id := i\<rparr>\<rparr>) = u16_to_be_bytes i @ xs"
proof -
  have "header_flags ((m_header m)\<lparr>h_id := i\<rparr>) = header_flags (m_header m)"
    by (simp add: header_flags_def)
  moreover have "message_ok (m\<lparr>m_header := (m_header m)\<lparr>h_id := i\<rparr>\<rparr>)"
    using assms by (simp add: message_ok_def counts_ok_def header_ok_def)
  ultimately show ?thesis
    using assms by (simp add: to_wire_eq message_wire_def header_wire_def)
qed

subsection \<open>Size\<close>

lemma scan_oldest_cases:
  "(\<forall>x \<in> set es. t \<le> ce_inserted_at (snd x)) \<and> scan_oldest es oldest t = oldest \<or>
   (\<exists>y \<in> set es. scan_oldest es oldest t = Some (fst y) \<and> ce_inserted_at (snd y) < t \<and>
      (\<forall>x \<in> set es. ce_inserted_at (snd y) \<le> ce_inserted_at (snd x)))"
proof (induction es arbitrary: oldest t)
  case (Cons a es)
  obtain k e where a: "a = (k, e)" by (cases a)
  show ?case
  proof (cases "ce_inserted_at e < t")
    case True
    from Cons.IH [of "ce_inserted_at e" "Some k"] show ?thesis
    proof
      assume "(\<forall>x \<in> set es. ce_inserted_at e \<le> ce_inserted_at (snd x)) \<and>
        scan_oldest es (Some k) (ce_inserted_at e) = Some k"
      with True a show ?thesis by simp
    next
      assume "\<exists>y \<in> set es. scan_oldest es (Some k) (ce_inserted_at e) = Some (fst y) \<and>
        ce_inserted_at (snd y) < ce_inserted_at e \<and>
        (\<forall>x \<in> set es. ce_inserted_at (snd y) \<le> ce_inserted_at (snd x))"
      then obtain y where "y \<in> set es" "scan_oldest es (Some k) (ce_inserted_at e) = Some (fst y)"
        "ce_inserted_at (snd y) < ce_inserted_at e"
        "\<forall>x \<in> set es. ce_inserted_at (snd y) \<le> ce_inserted_at (snd x)" by blast
      with True a show ?thesis by (intro disjI2 bexI [of _ y]) auto
    qed
  next
    case False
    then have sc: "scan_oldest (a # es) oldest t = scan_oldest es oldest t" "t \<le> ce_inserted_at (snd a)"
      by (simp_all add: a)
    from Cons.IH [of t oldest] show ?thesis
      unfolding sc(1) using sc(2) by (auto intro: less_imp_le less_le_trans)
  qed
qed simp

lemma scan_oldest_found:
  assumes "(k, e) \<in> set es" "ce_inserted_at e < t"
  shows "\<exists>k' e'. scan_oldest es oldest t = Some k' \<and> (k', e') \<in> set es \<and>
    (\<forall>x \<in> set es. ce_inserted_at e' \<le> ce_inserted_at (snd x))"
  using scan_oldest_cases [of es t oldest] assms
  by (metis not_less prod.collapse snd_conv)

lemma evict_oldest_shrinks:
  assumes "cache_wf c" "0 < dm_len (rc_entries c)"
    "\<forall>k e. dm_get (rc_entries c) k = Some e \<longrightarrow> ce_inserted_at e < now"
  shows "dm_len (rc_entries (evict_oldest now c)) = dm_len (rc_entries c) - 1"
proof -
  have wf: "dm_wf (rc_entries c)" using assms(1) by (simp add: cache_wf_def)
  from assms(2) obtain k e where "(k, e) \<in> set (dm_iter (rc_entries c))"
    by (metis dm.len_entries [OF wf] last_in_set length_greater_0_conv surj_pair)
  moreover from this assms(3) have "ce_inserted_at e < now"
    by (simp add: dm.entries_get [OF wf])
  ultimately obtain k' e' where "scan_oldest (dm_iter (rc_entries c)) None now = Some k'"
    "(k', e') \<in> set (dm_iter (rc_entries c))"
    using scan_oldest_found by blast
  then show ?thesis
    by (simp add: evict_oldest_def dm.len_rem [OF wf] dm.entries_get [OF wf])
qed

section \<open>Properties\<close>

text \<open>C27: route isolation and freshness. In every execution of the cache, a response returned
  for a route, query type and name was stored by an earlier insertion for exactly that route,
  that query type and those labels, and its age in whole seconds is below the TTL it was stored
  with. The hash is only required not to collide on the keys that occur in the execution and
  the query itself.\<close>

theorem cache_hit_provenance:
  assumes run: "cache_run hasher config hist c"
    and hit: "get_scoped hasher now rt qt n c = (Some resp, c')"
    and inj: "inj_on hasher (insert (key_input rt qt n)
      {ki. \<exists>(t, op) \<in> set hist. \<exists>e. op_stores config t op = Some (ki, e)})"
  shows "\<exists>(t, op) \<in> set hist. \<exists>e. op_stores config t op = Some ((rt, qt, name_labels n), e) \<and>
    resp = ce_response e \<and> (now - t) div NANOS_PER_SEC < unat (ce_ttl_secs e)"
proof -
  from hit obtain e where e: "dm_get (rc_entries c) (cache_key_new hasher rt qt n) = Some e"
    "\<not> is_expired now e" "resp = ce_response e" by (rule get_scoped_SomeD)
  from cache_run_entries [OF run] e(1) obtain t op ki where op: "(t, op) \<in> set hist"
    "op_stores config t op = Some (ki, e)" "ucast (hasher (key_input rt qt n)) = (ucast (hasher ki) :: cache_key)"
    by (fastforce simp: cache_key_new_def)
  from op(3) have "hasher (key_input rt qt n) = hasher ki" by (simp add: ucast_u64_inj)
  from inj_onD [OF inj this] op have "ki = key_input rt qt n" by blast
  moreover have "ce_inserted_at e = t"
    using op(2) by (cases op) auto
  ultimately show ?thesis
    using op e by (auto simp: key_input_def is_expired_def intro!: bexI [of _ "(t, op)"])
qed

definition sample_config :: cache_config where
  "sample_config = \<lparr>max_entries = 2, min_ttl_secs = 5, max_ttl_secs = 86400, negative_ttl_secs = 30,
     enhanced_ttl_secs = 3600\<rparr>"

definition sample_hasher :: "key_input \<Rightarrow> u64" where
  "sample_hasher = (\<lambda>(rt, qt, ls). (if rt = Route_China then 1 else 0) + 2 * of_nat (length ls))"

definition sample_answer :: dns_message where
  "sample_answer = add_answer sample_record (message_response sample_query)"

text \<open>A cache after one insertion at time 0 for the China route.\<close>

definition sample_cache :: route_scoped_cache where
  "sample_cache = the (insert_scoped sample_hasher 0 Route_China (QT_Type RT_A) sample_name
     sample_answer (cache_new sample_config))"

lemma sample_cache_run:
  "cache_run sample_hasher sample_config [(0, Op_Insert Route_China (QT_Type RT_A) sample_name sample_answer)]
     sample_cache"
proof -
  have "insert_scoped sample_hasher 0 Route_China (QT_Type RT_A) sample_name sample_answer
      (cache_new sample_config) \<noteq> None" by code_simp
  then have "cache_step sample_hasher 0 (Op_Insert Route_China (QT_Type RT_A) sample_name sample_answer)
      (cache_new sample_config) = Some sample_cache"
    by (auto simp: sample_cache_def)
  from cache_run.step [OF cache_run.start this] show ?thesis by simp
qed

lemma sample_cache_entry:
  "dm_get (rc_entries sample_cache) (cache_key_new sample_hasher Route_China (QT_Type RT_A) sample_name) =
     Some \<lparr>ce_response = cached_response_new (set_answer_ttls 300 sample_answer), ce_inserted_at = 0,
           ce_ttl_secs = 300\<rparr>"
proof -
  have "extract_min_ttl sample_answer = 300" by code_simp
  then show ?thesis
    by (simp add: sample_cache_def insert_scoped_def insert_scoped_with_ttl_def clamp_ttl_def
        sample_config_def cache_new_def Let_def dm.get_ins dm.wf_new dm.get_new)
qed

theorem cache_hit_provenance_witness:
  "\<exists>resp. fst (get_scoped sample_hasher NANOS_PER_SEC Route_China (QT_Type RT_A) sample_name sample_cache) =
      Some resp \<and>
    (\<exists>(t, op) \<in> set [(0, Op_Insert Route_China (QT_Type RT_A) sample_name sample_answer)].
      \<exists>e. op_stores sample_config t op = Some ((Route_China, QT_Type RT_A, name_labels sample_name), e) \<and>
        resp = ce_response e \<and> (NANOS_PER_SEC - t) div NANOS_PER_SEC < unat (ce_ttl_secs e))"
proof -
  have "fst (get_scoped sample_hasher NANOS_PER_SEC Route_China (QT_Type RT_A) sample_name sample_cache) \<noteq> None"
    by (simp add: get_scoped_def sample_cache_entry is_expired_def NANOS_PER_SEC_def)
  then obtain resp c' where h:
    "get_scoped sample_hasher NANOS_PER_SEC Route_China (QT_Type RT_A) sample_name sample_cache = (Some resp, c')"
    by (metis not_Some_eq prod.collapse)
  have "inj_on sample_hasher (insert (key_input Route_China (QT_Type RT_A) sample_name)
    {ki. \<exists>(t, op) \<in> set [(0, Op_Insert Route_China (QT_Type RT_A) sample_name sample_answer)].
       \<exists>e. op_stores sample_config t op = Some (ki, e)})"
    by (auto simp: inj_on_def)
  from cache_hit_provenance [OF sample_cache_run h this] h show ?thesis
    by (intro exI [of _ resp] conjI) auto
qed



text \<open>On a cache hit the stored bytes with the identifier patched are exactly the encoding of
  the stored message with that identifier, so the client decodes its own identifier and
  otherwise the stored message.\<close>

theorem wire_with_id_correct:
  assumes "message_ok m"
  shows "wire_with_id (cached_response_new m) i = to_wire (m\<lparr>m_header := (m_header m)\<lparr>h_id := i\<rparr>\<rparr>) \<and>
    from_wire (wire_with_id (cached_response_new m) i) =
      Inr (m\<lparr>m_header := (m_header m)\<lparr>h_id := i\<rparr>\<rparr>)"
proof -
  let ?m = "m\<lparr>m_header := (m_header m)\<lparr>h_id := i\<rparr>\<rparr>"
  from to_wire_id_prefix [OF assms, of i] have w: "wire_with_id (cached_response_new m) i = to_wire ?m"
    by (auto simp: wire_with_id_def cached_response_new_def u16_to_be_bytes_def ucast_and_255)
  have ok: "message_ok ?m"
    using assms by (simp add: message_ok_def counts_ok_def header_ok_def)
  from from_wire_message_wire [OF ok, of _ "[]"] w to_wire_eq [OF ok] show ?thesis by simp
qed

text \<open>C29: an insertion keeps the cache within its configured maximum, evicting an entry when it is
  full, provided the clock has moved on since every stored entry and the maximum is positive.\<close>

theorem cache_size_bound:
  assumes "cache_wf c" "dm_len (rc_entries c) \<le> max_entries (rc_config c)" "0 < max_entries (rc_config c)"
    and "list_all (\<lambda>(k, e). ce_inserted_at e < now) (dm_iter (rc_entries c))"
    and "insert_scoped_with_ttl hasher now rt qt n m ttl c = Some c'"
  shows "dm_len (rc_entries c') \<le> max_entries (rc_config c') \<and> rc_config c' = rc_config c"
  using insert_entries [OF assms(5,1)]
proof cases
  case (1 t c1)
  have wf: "dm_wf (rc_entries c)" "dm_wf (rc_entries c1)"
    using 1(2) assms(1) by (simp_all add: cache_wf_def)
  have old: "\<forall>k e. dm_get (rc_entries c) k = Some e \<longrightarrow> ce_inserted_at e < now"
    using assms(4) dm.entries_get [OF wf(1)] by (fastforce simp: list_all_iff)
  have "dm_len (rc_entries c1) < max_entries (rc_config c)"
    using 1(6) assms(2,3) evict_oldest_shrinks [OF assms(1) _ old] by (auto split: if_splits)
  then show ?thesis
    using 1(3) dm.len_ins [OF wf(2)] by (simp add: 1(5))
qed

theorem cache_size_bound_witness:
  "\<exists>c'. insert_scoped_with_ttl sample_hasher 7 Route_Foreign (QT_Type RT_A) sample_name sample_answer 60
      (sample_cache\<lparr>rc_config := sample_config\<lparr>max_entries := 1\<rparr>\<rparr>) = Some c' \<and>
    dm_len (rc_entries c') \<le> max_entries (rc_config c')"
proof -
  let ?c = "sample_cache\<lparr>rc_config := sample_config\<lparr>max_entries := 1\<rparr>\<rparr>"
  obtain c' where c': "insert_scoped_with_ttl sample_hasher 7 Route_Foreign (QT_Type RT_A) sample_name
      sample_answer 60 ?c = Some c'"
    by (auto simp: insert_scoped_with_ttl_def clamp_ttl_def Let_def sample_config_def)
  have "cache_wf ?c" "dm_len (rc_entries ?c) \<le> max_entries (rc_config ?c)"
    "0 < max_entries (rc_config ?c)" "list_all (\<lambda>(k, e). ce_inserted_at e < 7) (dm_iter (rc_entries ?c))"
    by code_simp+
  from cache_size_bound [OF this c'] c' show ?thesis by blast
qed

text \<open>The counters. Each lookup increments exactly one of the hit and miss counters, the hit
  counter exactly when a response is returned; lookups never add entries.\<close>

theorem lookup_counters:
  assumes "cache_wf c" "get_scoped hasher now rt qt n c = (res, c')"
  shows "cm_hits (rc_stats c') = cm_hits (rc_stats c) + (if res = None then 0 else 1) \<and>
    cm_misses (rc_stats c') = cm_misses (rc_stats c) + (if res = None then 1 else 0) \<and>
    cm_evictions (rc_stats c') = cm_evictions (rc_stats c) \<and>
    cs_entries (cache_stats_of c') \<le> cs_entries (cache_stats_of c)"
proof -
  have wf: "dm_wf (rc_entries c)" using assms(1) by (simp add: cache_wf_def)
  show ?thesis
    using assms(2) dm.len_rem [OF wf]
    by (auto simp: get_scoped_def Let_def record_hit_def record_miss_def cache_stats_of_def
        split: option.splits if_splits)
qed

theorem lookup_counters_witness:
  "\<exists>res c'. get_scoped sample_hasher 0 Route_China (QT_Type RT_A) sample_name (cache_new sample_config) =
      (res, c') \<and> cm_misses (rc_stats c') = 0 + (if res = None then 1 else 0)"
proof -
  obtain res c' where g: "get_scoped sample_hasher 0 Route_China (QT_Type RT_A) sample_name
      (cache_new sample_config) = (res, c')" by fastforce
  from lookup_counters [OF cache_wf_new g] g show ?thesis
    by (intro exI [of _ res] exI [of _ c']) (simp add: cache_new_def)
qed

text \<open>Negative insertions neither look at the maximum nor evict: a cache with room for one entry
  ends up with two.\<close>

lemma negative_insert_exceeds_max:
  "let c0 = cache_new (sample_config\<lparr>max_entries := 1\<rparr>);
       c1 = insert_negative_scoped sample_hasher 0 Route_China (QT_Type RT_A) sample_name sample_answer c0;
       c2 = insert_negative_scoped sample_hasher 1 Route_Foreign (QT_Type RT_A) sample_name sample_answer c1
   in dm_len (rc_entries c2) = 2 \<and> max_entries (rc_config c2) = 1"
  by code_simp

text \<open>The TTL of a stored response is the minimum over all answers, not that of the first.\<close>

lemma insert_scoped_uses_min_ttl:
  "m_answers m \<noteq> [] \<Longrightarrow> insert_scoped hasher now rt qt n m c =
     (case clamp_ttl (rc_config c) (Min (rr_ttl ` set (m_answers m))) of
        None \<Rightarrow> None | Some ttl \<Rightarrow> insert_scoped_with_ttl hasher now rt qt n m ttl c)"
  by (simp add: insert_scoped_def extract_min_ttl_Min)

end
