(* ===== verification/Transport_Layer.thy ===== *)
theory Transport_Layer
  imports Message Ip_Addr
begin

text \<open>
  The transport abstraction, \<^verbatim>\<open>dns-transport/src/lib.rs\<close>: transport kinds, request metadata, the
  errors of the listeners and the per-transport counters. The counters are atomic 64-bit integers
  that wrap around.
\<close>

datatype transport_kind = Kind_Udp | Kind_Tcp | Kind_Tls | Kind_Https | Kind_Quic | Kind_Json

fun transport_kind_as_str :: "transport_kind \<Rightarrow> string" where
  "transport_kind_as_str Kind_Udp = ''udp''"
| "transport_kind_as_str Kind_Tcp = ''tcp''"
| "transport_kind_as_str Kind_Tls = ''tls''"
| "transport_kind_as_str Kind_Https = ''https''"
| "transport_kind_as_str Kind_Quic = ''quic''"
| "transport_kind_as_str Kind_Json = ''json''"

record request_meta =
  rm_peer_addr :: "socket_addr option"
  rm_transport :: transport_kind
  rm_received_at :: nat

definition request_meta_new :: "nat \<Rightarrow> transport_kind \<Rightarrow> socket_addr option \<Rightarrow> request_meta" where
  "request_meta_new now kind peer = \<lparr>rm_peer_addr = peer, rm_transport = kind, rm_received_at = now\<rparr>"

section \<open>Results and errors\<close>

record resolved_dns =
  rd_message :: dns_message
  rd_resolve_duration :: nat
  rd_cache_hit :: bool
  rd_query_name :: string
  rd_qtype :: qtype

text \<open>The \<^verbatim>\<open>Debug\<close> output of a duration in nanoseconds: the largest unit that is not zero, with the fraction
  but without its trailing zeros. The micro sign is two bytes in UTF-8.\<close>

definition show_decimal :: "nat \<Rightarrow> nat \<Rightarrow> nat \<Rightarrow> string" where
  "show_decimal w i f =
     show_nat i @
     (if f = 0 then []
      else CHR ''.'' # trim_end_matches CHR ''0'' (map (\<lambda>k. digit_char (f div 10 ^ k mod 10)) (rev [0..<w])))"

definition show_duration :: "nat \<Rightarrow> string" where
  "show_duration ns =
     (if ns \<ge> 1000000000 then show_decimal 9 (ns div 1000000000) (ns mod 1000000000) @ ''s''
      else if ns \<ge> 1000000 then show_decimal 6 (ns div 1000000) (ns mod 1000000) @ ''ms''
      else if ns \<ge> 1000 then show_decimal 3 (ns div 1000) (ns mod 1000) @ [CHR 0xC2, CHR 0xB5, CHR ''s'']
      else show_nat ns @ ''ns'')"

datatype transport_error =
    Tr_Io string
  | Tr_TlsHandshake string
  | Tr_DoH string
  | Tr_Timeout nat
  | Tr_MalformedRequest string
  | Tr_Protocol protocol_error

fun transport_error_to_string :: "transport_error \<Rightarrow> string" where
  "transport_error_to_string (Tr_Io e) = ''transport IO error: '' @ e"
| "transport_error_to_string (Tr_TlsHandshake e) = ''TLS handshake failed: '' @ e"
| "transport_error_to_string (Tr_DoH e) = ''DoH error: '' @ e"
| "transport_error_to_string (Tr_Timeout d) = ''request timeout after '' @ show_duration d"
| "transport_error_to_string (Tr_MalformedRequest e) = ''malformed request: '' @ e"
| "transport_error_to_string (Tr_Protocol e) = ''DNS protocol error: '' @ protocol_error_to_string e"

section \<open>Counters\<close>

record transport_metrics =
  requests_total :: u64
  responses_total :: u64
  errors_total :: u64
  cache_hits_total :: u64

definition metrics_default :: transport_metrics where
  "metrics_default = \<lparr>requests_total = 0, responses_total = 0, errors_total = 0, cache_hits_total = 0\<rparr>"

definition record_request :: "transport_metrics \<Rightarrow> transport_metrics" where
  "record_request m = m\<lparr>requests_total := requests_total m + 1\<rparr>"

definition record_response :: "transport_metrics \<Rightarrow> transport_metrics" where
  "record_response m = m\<lparr>responses_total := responses_total m + 1\<rparr>"

definition record_error :: "transport_metrics \<Rightarrow> transport_metrics" where
  "record_error m = m\<lparr>errors_total := errors_total m + 1\<rparr>"

definition record_cache_hit :: "transport_metrics \<Rightarrow> transport_metrics" where
  "record_cache_hit m = m\<lparr>cache_hits_total := cache_hits_total m + 1\<rparr>"

record metrics_registry =
  mr_udp :: transport_metrics
  mr_tcp :: transport_metrics
  mr_tls :: transport_metrics
  mr_https :: transport_metrics
  mr_quic :: transport_metrics
  mr_json :: transport_metrics

definition registry_default :: metrics_registry where
  "registry_default =
     \<lparr>mr_udp = metrics_default, mr_tcp = metrics_default, mr_tls = metrics_default,
      mr_https = metrics_default, mr_quic = metrics_default, mr_json = metrics_default\<rparr>"

fun for_transport :: "metrics_registry \<Rightarrow> transport_kind \<Rightarrow> transport_metrics" where
  "for_transport m Kind_Udp = mr_udp m"
| "for_transport m Kind_Tcp = mr_tcp m"
| "for_transport m Kind_Tls = mr_tls m"
| "for_transport m Kind_Https = mr_https m"
| "for_transport m Kind_Quic = mr_quic m"
| "for_transport m Kind_Json = mr_json m"

text \<open>\<^verbatim>\<open>metrics.for_transport(kind).record_x()\<close>: the update through the shared reference.\<close>

fun record_for ::
    "transport_kind \<Rightarrow> (transport_metrics \<Rightarrow> transport_metrics) \<Rightarrow> metrics_registry \<Rightarrow> metrics_registry" where
  "record_for Kind_Udp f m = m\<lparr>mr_udp := f (mr_udp m)\<rparr>"
| "record_for Kind_Tcp f m = m\<lparr>mr_tcp := f (mr_tcp m)\<rparr>"
| "record_for Kind_Tls f m = m\<lparr>mr_tls := f (mr_tls m)\<rparr>"
| "record_for Kind_Https f m = m\<lparr>mr_https := f (mr_https m)\<rparr>"
| "record_for Kind_Quic f m = m\<lparr>mr_quic := f (mr_quic m)\<rparr>"
| "record_for Kind_Json f m = m\<lparr>mr_json := f (mr_json m)\<rparr>"

lemma for_transport_record [simp]:
  "for_transport (record_for k f m) k' = (if k' = k then f (for_transport m k) else for_transport m k')"
  by (cases k; cases k') simp_all

end
