(* ===== verification/Handler.thy ===== *)
theory Handler
  imports Local_Answers Upstream Cache Transport_Layer
begin

text \<open>
  The request handler of the running server, \<^verbatim>\<open>border-dns-runtime/src/handler.rs\<close>, and the shared
  context it works on, \<^verbatim>\<open>RuntimeContext\<close> of \<^verbatim>\<open>border-dns-runtime/src/lib.rs\<close>. Every listener hands
  its query bytes to \<open>handle_dns_query\<close>. The source repeats the answer builders of the pipeline
  here; the model repeats them too and proves them equal. The cache is used with one fixed route.
  \<open>None\<close> as response means that the task panicked.
\<close>

section \<open>Context\<close>

record runtime_context =
  ctx_config :: runtime_config
  ctx_cache :: route_scoped_cache
  ctx_metrics :: metrics_registry
  ctx_block_matcher :: block_matcher
  ctx_hosts :: hosts_table

definition build_block_matcher ::
    "(string \<Rightarrow> 'e + string option list) \<Rightarrow> runtime_config \<Rightarrow> block_matcher" where
  "build_block_matcher open_lines config =
     (let b = cfg_block config
      in if \<not> bc_enabled b then matcher_default
         else
           let suffix_patterns = map (\<lambda>s. ''**.'' @ strip_suffix_char CHR ''.'' s) (bc_suffixes b);
               m = batch_add (bc_patterns b)
                     (batch_add suffix_patterns (batch_add (bc_domains b) matcher_default))
           in fold (\<lambda>path m. case load_rules_from_file open_lines path m of Inr (m', _) \<Rightarrow> m' | Inl _ \<Rightarrow> m)
                (bc_rules_files b) m)"

definition build_hosts_table :: "file_system \<Rightarrow> runtime_config \<Rightarrow> hosts_table" where
  "build_hosts_table fs config =
     (let h = cfg_hosts config
      in if \<not> hc_enabled h then hosts_new
         else hosts_build fs
           (fold with_file (hc_files h)
             (fold (\<lambda>(domain, ips). fold (with_entry domain) ips) (hc_entries h) hosts_new)))"

definition context_new ::
    "file_system \<Rightarrow> (string \<Rightarrow> 'e + string option list) \<Rightarrow> runtime_config \<Rightarrow> runtime_context" where
  "context_new fs open_lines config =
     \<lparr>ctx_config = config, ctx_cache = cache_new (cfg_cache config), ctx_metrics = registry_default,
      ctx_block_matcher = build_block_matcher open_lines config,
      ctx_hosts = build_hosts_table fs config\<rparr>"

section \<open>Answers\<close>

record handler_response =
  hr_wire :: "u8 list"
  hr_message :: dns_message

definition respond :: "dns_message \<Rightarrow> handler_response" where
  "respond m = \<lparr>hr_wire = to_wire m, hr_message = m\<rparr>"

definition handler_malformed_response :: handler_response where
  "handler_malformed_response =
     (let header = (header_response 0 False)\<lparr>h_rcode := Rc_FormErr\<rparr>
      in respond \<lparr>m_header = header, m_questions = [], m_answers = [], m_authorities = [],
           m_additionals = []\<rparr>)"

definition handler_soa_suppress_response :: "dns_message \<Rightarrow> domain_name \<Rightarrow> dns_message" where
  "handler_soa_suppress_response resp domain =
     (let out = message_response resp;
          out = out\<lparr>m_header := (m_header out)\<lparr>h_rcode := Rc_NoError\<rparr>\<rparr>;
          soa = (case from_str ''block.borderdns.local'' of Inr n \<Rightarrow> n | Inl _ \<Rightarrow> root)
      in add_authority
           \<lparr>rr_name = domain, rr_type = RT_SOA, rr_class = RC_In, rr_ttl = 60,
            rr_rdata = RD_SOA \<lparr>soa_mname = soa, soa_rname = soa, soa_serial = 1, soa_refresh = 900,
              soa_retry = 900, soa_expire = 1800, soa_minimum = 60\<rparr>\<rparr> out)"

definition handler_block_response ::
    "runtime_context \<Rightarrow> dns_message \<Rightarrow> qtype \<Rightarrow> domain_name \<Rightarrow> dns_message" where
  "handler_block_response ctx query qt domain =
     (let b = cfg_block (ctx_config ctx);
          resp = message_response query;
          suppressed = (case as_record_type qt of
              None \<Rightarrow> False
            | Some rt \<Rightarrow> list_ex (\<lambda>s. eq_ignore_ascii_case s (record_type_as_str rt)) (bc_suppress_qtypes b))
      in if suppressed then handler_soa_suppress_response resp domain
         else
           let v4 = (case parse_ipv4 (bc_blackhole_ipv4 b) of Some a \<Rightarrow> a | None \<Rightarrow> [127, 0, 0, 1]);
               v6 = (case parse_ipv6 (bc_blackhole_ipv6 b) of Some a \<Rightarrow> a | None \<Rightarrow> replicate 16 0)
           in case qt of
                QT_Type RT_A \<Rightarrow> add_answer \<lparr>rr_name = domain, rr_type = RT_A, rr_class = RC_In,
                  rr_ttl = 60, rr_rdata = RD_A v4\<rparr> resp
              | QT_Type RT_AAAA \<Rightarrow> add_answer \<lparr>rr_name = domain, rr_type = RT_AAAA, rr_class = RC_In,
                  rr_ttl = 60, rr_rdata = RD_AAAA v6\<rparr> resp
              | _ \<Rightarrow> handler_soa_suppress_response resp domain)"

definition handler_hosts_response ::
    "u32 \<Rightarrow> dns_message \<Rightarrow> qtype \<Rightarrow> domain_name \<Rightarrow> ip_addr list \<Rightarrow> dns_message" where
  "handler_hosts_response ttl query qt domain ips =
     (let rrtype = (case as_record_type qt of Some rt \<Rightarrow> rt | None \<Rightarrow> RT_A)
      in fold (\<lambda>ip. add_answer \<lparr>rr_name = domain, rr_type = rrtype, rr_class = RC_In, rr_ttl = ttl,
             rr_rdata = (case ip of V4 v4 \<Rightarrow> RD_A v4 | V6 v6 \<Rightarrow> RD_AAAA v6)\<rparr>) ips (message_response query))"

section \<open>The handler\<close>

definition handle_miss ::
    "(key_input \<Rightarrow> u64) \<Rightarrow> (u8 list \<Rightarrow> (upstream_server \<times> u64) list \<Rightarrow> task_result list) \<Rightarrow> nat \<Rightarrow> transport_kind
     \<Rightarrow> dns_message \<Rightarrow> qtype \<Rightarrow> domain_name \<Rightarrow> runtime_context \<Rightarrow> handler_response option \<times> runtime_context" where
  "handle_miss hasher completions stored_at kind query qt domain ctx =
     (case forward completions query (default_upstreams (cfg_upstreams (ctx_config ctx)))
             (sc_default_timeout_ms (cfg_server (ctx_config ctx))) of
        Inr upstream_resp \<Rightarrow>
          let m = ur_message upstream_resp
          in (case (if h_rcode (m_header m) = Rc_NoError \<and> m_answers m \<noteq> []
                    then cache_insert hasher stored_at qt domain m (ctx_cache ctx)
                    else Some (ctx_cache ctx)) of
                None \<Rightarrow> (None, ctx)
              | Some cache \<Rightarrow>
                  (Some (respond m),
                   ctx\<lparr>ctx_cache := cache, ctx_metrics := record_for kind record_response (ctx_metrics ctx)\<rparr>))
      | Inl err \<Rightarrow>
          let resp = message_response query;
              resp = resp\<lparr>m_header := (m_header resp)\<lparr>h_rcode := Rc_ServFail\<rparr>\<rparr>
          in (Some (respond resp), ctx\<lparr>ctx_metrics := record_for kind record_error (ctx_metrics ctx)\<rparr>))"

definition handle_dns_query ::
    "(key_input \<Rightarrow> u64) \<Rightarrow> (u8 list \<Rightarrow> (upstream_server \<times> u64) list \<Rightarrow> task_result list) \<Rightarrow> nat \<Rightarrow> nat
     \<Rightarrow> u8 list \<Rightarrow> transport_kind \<Rightarrow> runtime_context \<Rightarrow> handler_response option \<times> runtime_context" where
  "handle_dns_query hasher completions lookup_at stored_at query_bytes kind ctx =
     (case from_wire query_bytes of
        Inl _ \<Rightarrow> (Some handler_malformed_response, ctx)
      | Inr query \<Rightarrow>
          (case first_question query of
             None \<Rightarrow>
               let resp = message_response query;
                   resp = resp\<lparr>m_header := (m_header resp)\<lparr>h_rcode := Rc_FormErr\<rparr>\<rparr>
               in (Some (respond resp), ctx)
           | Some q \<Rightarrow>
               let qt = q_type q; domain = q_name q; domain_str = name_to_string domain;
                   config = ctx_config ctx;
                   host_ips = (if hc_enabled (cfg_hosts config)
                               then match_domain (ctx_hosts ctx) domain_str qt else [])
               in if host_ips \<noteq> [] then
                    (Some (respond (handler_hosts_response (hc_ttl_secs (cfg_hosts config)) query qt domain host_ips)), ctx)
                  else if bc_enabled (cfg_block config) \<and> is_blocked (ctx_block_matcher ctx) domain_str then
                    (Some (respond (handler_block_response ctx query qt domain)), ctx)
                  else
                    (case cache_get hasher lookup_at qt domain (ctx_cache ctx) of
                       (Some cached, cache) \<Rightarrow>
                         (Some \<lparr>hr_wire = wire_with_id cached (h_id (m_header query)),
                                hr_message = cr_message cached\<rparr>,
                          ctx\<lparr>ctx_cache := cache,
                            ctx_metrics := record_for kind record_cache_hit (ctx_metrics ctx)\<rparr>)
                     | (None, cache) \<Rightarrow>
                         handle_miss hasher completions stored_at kind query qt domain
                           (ctx\<lparr>ctx_cache := cache\<rparr>))))"

section \<open>Writers only append\<close>

text \<open>Whatever message is encoded, each writing step keeps the bytes that are already there; the
  patched length field of a record lies behind them.\<close>

lemma prefix_writes [simp, intro]:
  "prefix b (wbuf w) \<Longrightarrow> prefix b (wbuf (write_u8 v8 w))"
  "prefix b (wbuf w) \<Longrightarrow> prefix b (wbuf (write_u16 v16 w))"
  "prefix b (wbuf w) \<Longrightarrow> prefix b (wbuf (write_u32 v32 w))"
  "prefix b (wbuf w) \<Longrightarrow> prefix b (wbuf (write_bytes bs w))"
  by (auto simp: wire_simps intro: prefix_prefix)

lemma prefix_patch [simp, intro]:
  "prefix b (wbuf w) \<Longrightarrow> length b \<le> i \<Longrightarrow> prefix b (wbuf (patch_u8 i v w))"
  by (auto simp: wire_simps prefix_def list_update_append)

lemma prefix_write_labels [simp, intro]:
  "prefix b (wbuf w) \<Longrightarrow> prefix b (wbuf (write_labels_from start ends buf w))"
  by (induction start ends buf w rule: write_labels_from.induct) simp_all

lemma prefix_write_name [simp, intro]:
  "prefix b (wbuf w) \<Longrightarrow> prefix b (wbuf (write_wire_uncompressed n w))"
  by (auto simp: write_wire_uncompressed_def)

lemma prefix_write_txt [simp, intro]: "prefix b (wbuf w) \<Longrightarrow> prefix b (wbuf (write_txt ss w))"
  by (induction ss w rule: write_txt.induct) auto

lemma prefix_rdata [simp, intro]: "prefix b (wbuf w) \<Longrightarrow> prefix b (wbuf (rdata_write_body rd w))"
  by (cases rd) (simp_all add: mx_write_def soa_write_def srv_write_def svcb_write_def Let_def)

lemma prefix_question [simp, intro]: "prefix b (wbuf w) \<Longrightarrow> prefix b (wbuf (question_write q w))"
  by (auto simp: question_write_def)

lemma prefix_rr [simp, intro]:
  assumes "prefix b (wbuf w)"
  shows "prefix b (wbuf (rr_write_to rr w))"
proof -
  let ?w = "write_u32 (rr_ttl rr) (write_u16 (record_class_as_u16 (rr_class rr))
    (write_u16 (record_type_as_u16 (rr_type rr)) (write_wire_uncompressed (rr_name rr) w)))"
  have "prefix b (wbuf ?w)" using assms by simp
  then have "length b \<le> writer_pos ?w" by (simp add: writer_pos_def prefix_length_le)
  with assms show ?thesis
    by (cases "rr_rdata rr") (simp_all add: rr_write_to_def rdata_write_def Let_def del: rdata_write_body.simps)
qed

lemma prefix_fold [simp, intro]:
  "prefix b (wbuf w) \<Longrightarrow> (\<And>x w. prefix b (wbuf w) \<Longrightarrow> prefix b (wbuf (f x w))) \<Longrightarrow> prefix b (wbuf (fold f xs w))"
  by (induction xs arbitrary: w) auto

lemma to_wire_starts_with_id: "prefix (u16_to_be_bytes (h_id (m_header m))) (to_wire m)"
proof -
  have "prefix (u16_to_be_bytes (h_id (m_header m))) (wbuf (write_u16 (h_id (m_header m)) writer_new))"
    by (simp add: wire_simps)
  then show ?thesis
    unfolding to_wire_def message_write_to_def Let_def header_write_def by simp
qed

lemma to_wire_length: "12 \<le> length (to_wire m)"
proof -
  have "prefix (wbuf (header_write (m_header m) writer_new)) (to_wire m)"
    unfolding to_wire_def message_write_to_def Let_def by simp
  from prefix_length_le [OF this] show ?thesis
    by (simp add: header_write_def Let_def wire_simps)
qed

lemma wire_with_id_prefix: "prefix (u16_to_be_bytes i) (wire_with_id (cached_response_new m) i)"
proof -
  obtain a b rest where "to_wire m = a # b # rest"
    using to_wire_length [of m] by (cases "to_wire m"; cases "tl (to_wire m)") auto
  then show ?thesis
    by (simp add: wire_with_id_def cached_response_new_def u16_to_be_bytes_def ucast_and_255)
qed

section \<open>Every response carries the client's id\<close>

text \<open>The cache of a context holds nothing but encoded messages.\<close>

definition context_ok :: "runtime_context \<Rightarrow> bool" where
  "context_ok ctx \<longleftrightarrow>
     cache_wf (ctx_cache ctx) \<and>
     (\<forall>k e. dm_get (rc_entries (ctx_cache ctx)) k = Some e \<longrightarrow> (\<exists>m. ce_response e = cached_response_new m))"

lemma context_ok_cache:
  "context_ok ctx \<Longrightarrow> cache_step h now op (ctx_cache ctx) = Some c \<Longrightarrow> context_ok (ctx\<lparr>ctx_cache := c\<rparr>)"
  using cache_step_entries [of h now op "ctx_cache ctx" c]
  by (cases op) (fastforce simp: context_ok_def)+

lemma context_ok_metrics [simp]: "context_ok (ctx\<lparr>ctx_metrics := m\<rparr>) = context_ok ctx"
  by (simp add: context_ok_def)

lemma context_ok_get:
  assumes "context_ok ctx" "cache_get h now qt n (ctx_cache ctx) = (hit, c)"
  shows "context_ok (ctx\<lparr>ctx_cache := c\<rparr>) \<and> (\<forall>r. hit = Some r \<longrightarrow> (\<exists>m. r = cached_response_new m))"
proof -
  have "cache_step h now (Op_Get Route_Fallback qt n) (ctx_cache ctx) = Some c"
    using assms(2) by (simp add: cache_get_def)
  moreover have "\<exists>m. r = cached_response_new m" if "hit = Some r" for r
    using assms that by (auto simp: context_ok_def cache_get_def get_scoped_def Let_def split: option.splits if_splits)
  ultimately show ?thesis using context_ok_cache [OF assms(1)] by blast
qed

lemma respond_prefix [simp]:
  "h_id (m_header m) = i \<Longrightarrow> prefix (u16_to_be_bytes i) (hr_wire (respond m))"
  using to_wire_starts_with_id [of m] by (auto simp: respond_def)

lemma add_answer_id [simp]: "h_id (m_header (add_answer rr m)) = h_id (m_header m)"
  by (simp add: add_answer_def Let_def)

lemma add_authority_id [simp]: "h_id (m_header (add_authority rr m)) = h_id (m_header m)"
  by (simp add: add_authority_def Let_def)

lemma message_response_id [simp]: "h_id (m_header (message_response m)) = h_id (m_header m)"
  by (simp add: message_response_def header_response_def)

lemma fold_add_answer_id [simp]: "h_id (m_header (fold (\<lambda>x. add_answer (f x)) xs m)) = h_id (m_header m)"
  by (induction xs arbitrary: m) simp_all

lemma handler_soa_id [simp]: "h_id (m_header (handler_soa_suppress_response m d)) = h_id (m_header m)"
  by (simp add: handler_soa_suppress_response_def Let_def)

lemma handler_block_id [simp]: "h_id (m_header (handler_block_response ctx m qt d)) = h_id (m_header m)"
  by (simp add: handler_block_response_def Let_def split: qtype.splits record_type.splits)

lemma handler_hosts_id [simp]: "h_id (m_header (handler_hosts_response ttl m qt d ips)) = h_id (m_header m)"
  by (simp add: handler_hosts_response_def Let_def)

lemma handle_miss_ok:
  assumes "context_ok ctx" "handle_miss h cs t kind query qt domain ctx = (Some r, ctx')"
    "\<And>u. forward cs query (default_upstreams (cfg_upstreams (ctx_config ctx)))
       (sc_default_timeout_ms (cfg_server (ctx_config ctx))) = Inr u \<Longrightarrow>
       h_id (m_header (ur_message u)) = h_id (m_header query)"
  shows "prefix (u16_to_be_bytes (h_id (m_header query))) (hr_wire r) \<and> context_ok ctx'"
proof (cases "forward cs query (default_upstreams (cfg_upstreams (ctx_config ctx)))
    (sc_default_timeout_ms (cfg_server (ctx_config ctx)))")
  case (Inl e)
  with assms(1,2) show ?thesis by (auto simp: handle_miss_def Let_def)
next
  case (Inr u)
  have keep: "context_ok (ctx\<lparr>ctx_cache := c\<rparr>)" if "cache_insert h t qt domain (ur_message u) (ctx_cache ctx) = Some c" for c
    using context_ok_cache [OF assms(1), of h t "Op_Insert Route_Fallback qt domain (ur_message u)"] that
    by (simp add: cache_insert_def)
  have "context_ok (ctx\<lparr>ctx_cache := c, ctx_metrics := m\<rparr>) = context_ok (ctx\<lparr>ctx_cache := c\<rparr>)" for c m
    by (simp add: context_ok_def)
  with assms(1,2) assms(3) [OF Inr] keep Inr show ?thesis
    by (auto simp: handle_miss_def Let_def split: option.splits if_splits)
qed

lemma handled_query_id:
  assumes "context_ok ctx" "from_wire bytes = Inr query"
    and "handle_dns_query h cs lookup_at stored_at bytes kind ctx = (Some r, ctx')"
    and "\<And>u. forward cs query (default_upstreams (cfg_upstreams (ctx_config ctx)))
       (sc_default_timeout_ms (cfg_server (ctx_config ctx))) = Inr u \<Longrightarrow>
       h_id (m_header (ur_message u)) = h_id (m_header query)"
  shows "prefix (u16_to_be_bytes (h_id (m_header query))) (hr_wire r) \<and> context_ok ctx'"
proof (cases "first_question query")
  case None
  with assms(1-3) show ?thesis by (auto simp: handle_dns_query_def Let_def)
next
  case (Some q)
  obtain hit c where g: "cache_get h lookup_at (q_type q) (q_name q) (ctx_cache ctx) = (hit, c)" by force
  note ok = context_ok_get [OF assms(1) g]
  have met: "context_ok (ctx\<lparr>ctx_cache := c, ctx_metrics := m\<rparr>)" for m
    using ok by (simp add: context_ok_def)
  consider (local) m where "r = respond m" "h_id (m_header m) = h_id (m_header query)" "ctx' = ctx"
    | (hit) cached m where "hit = Some cached" "hr_wire r = wire_with_id cached (h_id (m_header query))"
        "ctx' = ctx\<lparr>ctx_cache := c, ctx_metrics := m\<rparr>"
    | (miss) "handle_miss h cs stored_at kind query (q_type q) (q_name q) (ctx\<lparr>ctx_cache := c\<rparr>) = (Some r, ctx')"
    using assms(2,3) Some g
    by (auto simp: handle_dns_query_def Let_def split: if_splits option.splits)
  then show ?thesis
  proof cases
    case miss
    with handle_miss_ok [OF conjunct1 [OF ok] this] assms(4) show ?thesis by simp
  qed (use assms(1) ok met in \<open>auto simp: wire_with_id_prefix\<close>)
qed

text \<open>The handler can only panic in \<^verbatim>\<open>u32::clamp\<close>, on TTL bounds out of order; it never changes the bounds.\<close>

definition ttl_ordered :: "runtime_context \<Rightarrow> bool" where
  "ttl_ordered ctx \<longleftrightarrow> min_ttl_secs (rc_config (ctx_cache ctx)) \<le> max_ttl_secs (rc_config (ctx_cache ctx))"

lemma cache_get_config: "cache_get h now qt n c = (hit, c') \<Longrightarrow> rc_config c' = rc_config c"
  by (auto simp: cache_get_def get_scoped_def Let_def split: option.splits if_splits)

lemma evict_oldest_config [simp]: "rc_config (evict_oldest now c) = rc_config c"
  by (simp add: evict_oldest_def Let_def split: option.split)

lemma cache_insert_ordered:
  assumes "min_ttl_secs (rc_config c) \<le> max_ttl_secs (rc_config c)"
  shows "\<exists>c'. cache_insert h now qt n m c = Some c' \<and> rc_config c' = rc_config c"
proof -
  from clamp_ttl_Some [OF assms] obtain t where t: "clamp_ttl (rc_config c) (extract_min_ttl m) = Some t" by blast
  show ?thesis
    using t clamp_ttl_idem [OF t] by (simp add: cache_insert_def insert_scoped_def insert_scoped_with_ttl_def Let_def)
qed

lemma handle_miss_responds:
  assumes "ttl_ordered ctx"
  shows "\<exists>r ctx'. handle_miss h cs t kind query qt domain ctx = (Some r, ctx') \<and> ttl_ordered ctx'"
proof (cases "forward cs query (default_upstreams (cfg_upstreams (ctx_config ctx)))
    (sc_default_timeout_ms (cfg_server (ctx_config ctx)))")
  case (Inl e)
  with assms show ?thesis by (simp add: handle_miss_def ttl_ordered_def Let_def)
next
  case (Inr u)
  obtain c where "cache_insert h t qt domain (ur_message u) (ctx_cache ctx) = Some c" "rc_config c = rc_config (ctx_cache ctx)"
    using cache_insert_ordered [of "ctx_cache ctx" h t qt domain "ur_message u"] assms by (auto simp: ttl_ordered_def)
  with assms Inr show ?thesis by (simp add: handle_miss_def ttl_ordered_def Let_def)
qed

lemma handled_query_responds:
  assumes "ttl_ordered ctx"
  shows "\<exists>r ctx'. handle_dns_query h cs lookup_at stored_at bytes kind ctx = (Some r, ctx') \<and> ttl_ordered ctx'"
proof (cases "from_wire bytes")
  case (Inl e)
  with assms show ?thesis by (simp add: handle_dns_query_def)
next
  case (Inr query)
  show ?thesis
  proof (cases "first_question query")
    case None
    with assms Inr show ?thesis by (simp add: handle_dns_query_def Let_def)
  next
    case (Some q)
    obtain hit c where g: "cache_get h lookup_at (q_type q) (q_name q) (ctx_cache ctx) = (hit, c)" by force
    have "ttl_ordered (ctx\<lparr>ctx_cache := c\<rparr>)"
      using assms cache_get_config [OF g] by (simp add: ttl_ordered_def)
    from handle_miss_responds [OF this, of h cs stored_at kind query "q_type q" "q_name q"] this assms Inr Some g show ?thesis
      by (cases hit) (auto simp: handle_dns_query_def Let_def ttl_ordered_def)
  qed
qed

text \<open>A server that answers echoes the id the query bytes start with.\<close>

definition ids_echoed :: "(u8 list \<Rightarrow> (upstream_server \<times> u64) list \<Rightarrow> task_result list) \<Rightarrow> bool" where
  "ids_echoed completions \<longleftrightarrow>
     (\<forall>wire tasks u. Inr (Inr u) \<in> set (completions wire tasks) \<longrightarrow>
        prefix (u16_to_be_bytes (h_id (m_header (ur_message u)))) wire)"

lemma be_bytes_prefix_inject:
  assumes "prefix (u16_to_be_bytes a) xs" "prefix (u16_to_be_bytes b) xs"
  shows "a = b"
proof -
  from assms obtain ys zs where "u16_to_be_bytes a @ ys = u16_to_be_bytes b @ zs"
    by (auto elim!: prefixE)
  then have eq: "ucast (drop_bit 8 a) = (ucast (drop_bit 8 b) :: u8)" "ucast a = (ucast b :: u8)"
    unfolding u16_to_be_bytes_def by (simp_all only: append.simps list.inject)
  have "a = u16_from_be_bytes (ucast (drop_bit 8 a)) (ucast a)" by (rule u16_be_roundtrip [symmetric])
  also have "\<dots> = b" unfolding eq by (rule u16_be_roundtrip)
  finally show ?thesis .
qed

lemma forward_echoes:
  assumes "ids_echoed cs" "forward cs query upstreams d = Inr u"
  shows "h_id (m_header (ur_message u)) = h_id (m_header query)"
proof -
  have "first_success (cs (to_wire query) (race_tasks upstreams d)) u"
    using assms(2) by (auto simp: forward_def forward_loop_Inr split: if_splits)
  then have "Inr (Inr u) \<in> set (cs (to_wire query) (race_tasks upstreams d))"
    by (auto simp: first_success_def)
  with assms(1) have "prefix (u16_to_be_bytes (h_id (m_header (ur_message u)))) (to_wire query)"
    unfolding ids_echoed_def by blast
  then show ?thesis using to_wire_starts_with_id by (rule be_bytes_prefix_inject)
qed

text \<open>C8: whatever listener delivers a parseable query, the bytes sent back start with the query's own
  id: in local answers, in \<^verbatim>\<open>SERVFAIL\<close>, in answers patched from the cache whatever id they were
  stored with, and in upstream answers whenever the server echoes the id; and the cache goes on to hold
  encoded messages only.\<close>

theorem handler_echoes_id:
  assumes "context_ok ctx" "from_wire bytes = Inr query"
    and "handle_dns_query h cs lookup_at stored_at bytes kind ctx = (Some r, ctx')"
    and "\<And>u. forward cs query (default_upstreams (cfg_upstreams (ctx_config ctx)))
       (sc_default_timeout_ms (cfg_server (ctx_config ctx))) = Inr u \<Longrightarrow>
       h_id (m_header (ur_message u)) = h_id (m_header query)"
  shows "prefix (u16_to_be_bytes (h_id (m_header query))) (hr_wire r) \<and> context_ok ctx'"
  by (rule handled_query_id [OF assms])

definition handler_sample_context :: runtime_context where
  "handler_sample_context = context_new sample_fs (\<lambda>_. Inl ''missing'' :: string + string option list)
     (minimal_config ''223.5.5.5:53'')"

theorem handler_echoes_id_witness:
  "\<exists>r ctx'. handle_dns_query sample_hasher (\<lambda>_ _. []) 0 0 (to_wire sample_query) Kind_Udp handler_sample_context
      = (Some r, ctx') \<and>
    prefix (u16_to_be_bytes (h_id (m_header sample_query))) (hr_wire r) \<and> context_ok ctx'"
proof -
  have ok: "context_ok handler_sample_context"
    by (simp add: handler_sample_context_def context_new_def context_ok_def)
      (simp add: cache_new_def dm.get_new)
  have w: "from_wire (to_wire sample_query) = Inr sample_query"
    using from_wire_message_wire [OF sample_query_ok, of _ "[]"] by (simp add: to_wire_eq [OF sample_query_ok])
  have fail: "forward (\<lambda>_ _. []) query ups d = Inr u \<longleftrightarrow> False" for query ups d u
    by (simp add: forward_def)
  have some: "fst (handle_dns_query sample_hasher (\<lambda>_ _. []) 0 0 (to_wire sample_query) Kind_Udp handler_sample_context) \<noteq> None"
    using w by (auto simp: handle_dns_query_def handle_miss_def Let_def fail split: option.splits prod.splits sum.splits)
  obtain r ctx' where run: "handle_dns_query sample_hasher (\<lambda>_ _. []) 0 0 (to_wire sample_query) Kind_Udp handler_sample_context
      = (Some r, ctx')"
    using some by (cases "handle_dns_query sample_hasher (\<lambda>_ _. []) 0 0 (to_wire sample_query) Kind_Udp handler_sample_context") auto
  from handler_echoes_id [OF ok w run] run show ?thesis by (auto simp: fail)
qed

section \<open>Where code and documentation part\<close>

text \<open>The bytes of a cached answer get the client's id, the parsed message returned beside them keeps the
  id of the query that filled the cache.\<close>

theorem cached_message_keeps_old_id:
  assumes "from_wire bytes = Inr query" "first_question query = Some q"
    "\<not> hc_enabled (cfg_hosts (ctx_config ctx))" "\<not> bc_enabled (cfg_block (ctx_config ctx))"
    "cache_get h lookup_at (q_type q) (q_name q) (ctx_cache ctx) = (Some (cached_response_new m), c)"
  shows "\<exists>r ctx'. handle_dns_query h cs lookup_at stored_at bytes kind ctx = (Some r, ctx') \<and>
    prefix (u16_to_be_bytes (h_id (m_header query))) (hr_wire r) \<and>
    h_id (m_header (hr_message r)) = h_id (m_header m)"
  using assms by (simp add: handle_dns_query_def Let_def wire_with_id_prefix)
    (simp add: cached_response_new_def)

end
