(* ===== verification/Server.thy ===== *)
theory Server
  imports Handler
begin

text \<open>
  The socket listeners of \<^verbatim>\<open>border-dns-runtime/src/server.rs\<close>: socket set-up, the rebind loop, and the UDP,
  TCP and DoT servers. The HTTP listeners are in the theory \<open>Http_Listeners\<close>.

  The rebind loop is a state machine over what it can observe. The shutdown signal is
  \<^verbatim>\<open>Notify::notify_waiters\<close>, which wakes the tasks that wait at that moment and is not remembered.

  A TCP or DoT connection is the list of results of its reads. What the outside world contributes to
  the \<open>n\<close>-th query of a connection, clock readings, upstream completions, the changes other tasks have
  made to the shared context, and whether the write succeeds, is the record \<open>stream_env\<close>.
\<close>

section \<open>Sockets\<close>

datatype sock_call = Sys_Socket | Sys_OnlyV6 | Sys_ReuseAddress | Sys_Nodelay | Sys_Bind | Sys_Listen | Sys_Nonblocking
  | Sys_Recv_Buffer | Sys_Send_Buffer | Sys_Register

record listen_socket =
  ls_ipv6 :: bool
  ls_stream :: bool
  ls_only_v6 :: "bool option"
  ls_reuse_address :: bool
  ls_nodelay :: bool
  ls_addr :: "socket_addr option"
  ls_backlog :: "nat option"
  ls_nonblocking :: bool
  ls_recv_buffer :: "nat option"
  ls_send_buffer :: "nat option"

definition sock_try :: "(sock_call \<Rightarrow> string option) \<Rightarrow> sock_call \<Rightarrow> listen_socket \<Rightarrow> string + listen_socket" where
  "sock_try sys call s = (case sys call of Some e \<Rightarrow> Inl e | None \<Rightarrow> Inr s)"

text \<open>\<^verbatim>\<open>let _ = sock.set_x(..)\<close>: a failure leaves the option as it is.\<close>

definition sock_attempt ::
    "(sock_call \<Rightarrow> string option) \<Rightarrow> sock_call \<Rightarrow> (listen_socket \<Rightarrow> listen_socket) \<Rightarrow> listen_socket \<Rightarrow> listen_socket" where
  "sock_attempt sys call f s = (case sys call of Some e \<Rightarrow> s | None \<Rightarrow> f s)"

definition socket_new :: "socket_addr \<Rightarrow> bool \<Rightarrow> listen_socket" where
  "socket_new addr stream =
     \<lparr>ls_ipv6 = socket_is_ipv6 addr, ls_stream = stream, ls_only_v6 = None, ls_reuse_address = False,
      ls_nodelay = False, ls_addr = None, ls_backlog = None, ls_nonblocking = False,
      ls_recv_buffer = None, ls_send_buffer = None\<rparr>"

definition set_dual_stack ::
    "(sock_call \<Rightarrow> string option) \<Rightarrow> socket_addr \<Rightarrow> bool option \<Rightarrow> listen_socket \<Rightarrow> string + listen_socket" where
  "set_dual_stack sys addr ipv6_only s =
     (if socket_is_ipv6 addr
      then let only_v6 = (case ipv6_only of Some b \<Rightarrow> b | None \<Rightarrow> False)
        in sock_try sys Sys_OnlyV6 (s\<lparr>ls_only_v6 := Some only_v6\<rparr>)
      else Inr s)"

definition bind_udp ::
    "(sock_call \<Rightarrow> string option) \<Rightarrow> socket_addr \<Rightarrow> bool option \<Rightarrow> string + listen_socket" where
  "bind_udp sys addr ipv6_only =
     rbind (sock_try sys Sys_Socket (socket_new addr False)) (\<lambda>s.
     rbind (set_dual_stack sys addr ipv6_only s) (\<lambda>s.
     rbind (sock_try sys Sys_ReuseAddress (s\<lparr>ls_reuse_address := True\<rparr>)) (\<lambda>s.
     rbind (sock_try sys Sys_Bind (s\<lparr>ls_addr := Some addr\<rparr>)) (\<lambda>s.
     rbind (sock_try sys Sys_Nonblocking (s\<lparr>ls_nonblocking := True\<rparr>)) (\<lambda>s.
     let s = sock_attempt sys Sys_Recv_Buffer (\<lambda>s. s\<lparr>ls_recv_buffer := Some (256 * 1024)\<rparr>) s;
         s = sock_attempt sys Sys_Send_Buffer (\<lambda>s. s\<lparr>ls_send_buffer := Some (256 * 1024)\<rparr>) s
     in sock_try sys Sys_Register s)))))"

definition bind_tcp ::
    "(sock_call \<Rightarrow> string option) \<Rightarrow> socket_addr \<Rightarrow> bool option \<Rightarrow> string + listen_socket" where
  "bind_tcp sys addr ipv6_only =
     rbind (sock_try sys Sys_Socket (socket_new addr True)) (\<lambda>s.
     rbind (set_dual_stack sys addr ipv6_only s) (\<lambda>s.
     rbind (sock_try sys Sys_ReuseAddress (s\<lparr>ls_reuse_address := True\<rparr>)) (\<lambda>s.
     rbind (sock_try sys Sys_Nodelay (s\<lparr>ls_nodelay := True\<rparr>)) (\<lambda>s.
     rbind (sock_try sys Sys_Bind (s\<lparr>ls_addr := Some addr\<rparr>)) (\<lambda>s.
     rbind (sock_try sys Sys_Listen (s\<lparr>ls_backlog := Some 128\<rparr>)) (\<lambda>s.
     rbind (sock_try sys Sys_Nonblocking (s\<lparr>ls_nonblocking := True\<rparr>)) (\<lambda>s.
     sock_try sys Sys_Register s)))))))"

section \<open>The rebind loop\<close>

definition MIN_REBIND_BACKOFF :: nat where "MIN_REBIND_BACKOFF = 1"

definition MAX_REBIND_BACKOFF :: nat where "MAX_REBIND_BACKOFF = 60"

text \<open>Where the loop waits: on \<^verbatim>\<open>bind_fn\<close>, inside \<^verbatim>\<open>on_ready\<close>, in the backoff sleep, or no longer.\<close>

datatype server_phase = Binding | Serving | Backing_Off | Stopped

record rebind_state =
  rb_phase :: server_phase
  rb_backoff :: nat

datatype rebind_event = Ev_Bound | Ev_Bind_Failed | Ev_Server_Error | Ev_Slept | Ev_Shutdown

definition rebind_start :: rebind_state where
  "rebind_start = \<lparr>rb_phase = Binding, rb_backoff = MIN_REBIND_BACKOFF\<rparr>"

text \<open>The server closures answer the signal with \<^verbatim>\<open>Ok(())\<close>, so for the loop it is a clean exit.\<close>

inductive rebind_step :: "rebind_state \<Rightarrow> rebind_event \<Rightarrow> rebind_state \<Rightarrow> bool" where
  bound: "rb_phase s = Binding \<Longrightarrow>
    rebind_step s Ev_Bound (s\<lparr>rb_phase := Serving, rb_backoff := MIN_REBIND_BACKOFF\<rparr>)"
| bind_failed: "rb_phase s = Binding \<Longrightarrow> rebind_step s Ev_Bind_Failed (s\<lparr>rb_phase := Backing_Off\<rparr>)"
| stop_binding: "rb_phase s = Binding \<Longrightarrow> rebind_step s Ev_Shutdown (s\<lparr>rb_phase := Stopped\<rparr>)"
| server_error: "rb_phase s = Serving \<Longrightarrow> rebind_step s Ev_Server_Error (s\<lparr>rb_phase := Backing_Off\<rparr>)"
| server_exit: "rb_phase s = Serving \<Longrightarrow> rebind_step s Ev_Shutdown (s\<lparr>rb_phase := Backing_Off\<rparr>)"
| stop_backoff: "rb_phase s = Backing_Off \<Longrightarrow> rebind_step s Ev_Shutdown (s\<lparr>rb_phase := Stopped\<rparr>)"
| slept: "rb_phase s = Backing_Off \<Longrightarrow>
    rebind_step s Ev_Slept (s\<lparr>rb_phase := Binding, rb_backoff := min (rb_backoff s * 2) MAX_REBIND_BACKOFF\<rparr>)"

inductive_cases rebind_stepE: "rebind_step s e s'"

inductive rebind_runs :: "rebind_state \<Rightarrow> rebind_event list \<Rightarrow> rebind_state \<Rightarrow> bool" where
  rebind_done: "rebind_runs s [] s"
| rebind_more: "rebind_step s e s1 \<Longrightarrow> rebind_runs s1 es s' \<Longrightarrow> rebind_runs s (e # es) s'"

inductive_simps rebind_runs_simps: "rebind_runs s [] s'" "rebind_runs s (e # es) s'"

section \<open>Stream connections\<close>

datatype write_result = Wrote | Write_Error | Write_Timeout

text \<open>\<^verbatim>\<open>timeout(dur, stream.read(&mut buf))\<close>: no bytes at the end of the stream.\<close>

datatype stream_read = Chunk "u8 list" | Stream_Error string | Stream_Timeout

record stream_env =
  se_hasher :: "key_input \<Rightarrow> u64"
  se_completions :: "nat \<Rightarrow> u8 list \<Rightarrow> (upstream_server \<times> u64) list \<Rightarrow> task_result list"
  se_lookup_at :: "nat \<Rightarrow> nat"
  se_stored_at :: "nat \<Rightarrow> nat"
  se_others :: "nat \<Rightarrow> runtime_context \<Rightarrow> runtime_context"
  se_write :: "nat \<Rightarrow> write_result"

record connection =
  cn_decoder :: tcp_frame_decoder
  cn_context :: runtime_context
  cn_sent :: "u8 list list"
  cn_count :: nat

datatype conn_end = Conn_Ok | Conn_Err string | Conn_Panicked

definition connection_new :: "runtime_context \<Rightarrow> connection" where
  "connection_new ctx = \<lparr>cn_decoder = decoder_new, cn_context = ctx, cn_sent = [], cn_count = 0\<rparr>"

definition answer_query ::
    "stream_env \<Rightarrow> transport_kind \<Rightarrow> nat \<Rightarrow> u8 list \<Rightarrow> runtime_context \<Rightarrow> handler_response option \<times> runtime_context" where
  "answer_query env kind n msg ctx =
     handle_dns_query (se_hasher env) (se_completions env n) (se_lookup_at env n) (se_stored_at env n) msg kind
       (se_others env n ctx)"

lemma try_decode_shrinks:
  "try_decode d = (Inr (Some r), d') \<Longrightarrow> buffered d' < buffered d"
  by (auto simp: try_decode_def compact_def buffered_def Let_def split: if_splits)

text \<open>The inner loop: decode, answer, write, until no complete frame is buffered. Only a write timeout ends
  the connection; the result of the write itself is not looked at.\<close>

function serve_buffered :: "stream_env \<Rightarrow> transport_kind \<Rightarrow> connection \<Rightarrow> conn_end option \<times> connection" where
  "serve_buffered env kind c =
     (case try_decode (cn_decoder c) of
        (Inr (Some (msg_bytes, _)), d) \<Rightarrow>
          (case answer_query env kind (cn_count c) msg_bytes (cn_context c) of
             (None, ctx) \<Rightarrow> (Some Conn_Panicked, c\<lparr>cn_decoder := d, cn_context := ctx\<rparr>)
           | (Some resp, ctx) \<Rightarrow>
               let frame = encode_tcp_frame (hr_wire resp);
                   c' = c\<lparr>cn_decoder := d, cn_context := ctx, cn_count := Suc (cn_count c)\<rparr>
               in (case se_write env (cn_count c) of
                     Write_Timeout \<Rightarrow> (Some Conn_Ok, c')
                   | Write_Error \<Rightarrow> serve_buffered env kind c'
                   | Wrote \<Rightarrow> serve_buffered env kind (c'\<lparr>cn_sent := cn_sent c' @ [frame]\<rparr>)))
      | (Inr None, d) \<Rightarrow> (None, c\<lparr>cn_decoder := d\<rparr>)
      | (Inl e, d) \<Rightarrow> (None, c\<lparr>cn_decoder := decoder_reset d\<rparr>))"
  by pat_completeness auto
termination
  by (relation "measure (\<lambda>(env, kind, c). buffered (cn_decoder c))") (auto dest: try_decode_shrinks [OF sym])

declare serve_buffered.simps [simp del]

text \<open>The outer loop over the reads; \<open>None\<close> while the connection is still open.\<close>

fun serve_stream ::
    "stream_env \<Rightarrow> transport_kind \<Rightarrow> stream_read list \<Rightarrow> connection \<Rightarrow> conn_end option \<times> connection" where
  "serve_stream env kind [] c = (None, c)"
| "serve_stream env kind (Chunk data # reads) c =
     (if data = [] then (Some Conn_Ok, c)
      else case serve_buffered env kind (c\<lparr>cn_decoder := feed data (cn_decoder c)\<rparr>) of
        (Some e, c') \<Rightarrow> (Some e, c')
      | (None, c') \<Rightarrow> serve_stream env kind reads c')"
| "serve_stream env kind (Stream_Error e # reads) c = (Some (Conn_Err e), c)"
| "serve_stream env kind (Stream_Timeout # reads) c = (Some Conn_Ok, c)"

definition handle_tcp_connection ::
    "stream_env \<Rightarrow> stream_read list \<Rightarrow> runtime_context \<Rightarrow> conn_end option \<times> connection" where
  "handle_tcp_connection env reads ctx = serve_stream env Kind_Tcp reads (connection_new ctx)"

definition handle_tls_connection ::
    "stream_env \<Rightarrow> string + unit \<Rightarrow> stream_read list \<Rightarrow> runtime_context \<Rightarrow> conn_end option \<times> connection" where
  "handle_tls_connection env handshake reads ctx =
     (case handshake of
        Inl e \<Rightarrow> (Some (Conn_Err (''TLS handshake failed: '' @ e)), connection_new ctx)
      | Inr _ \<Rightarrow> serve_stream env Kind_Tls reads (connection_new ctx))"

section \<open>Accept loops\<close>

datatype 'a listen_event = Accepted_Conn 'a | Listen_Error string | Listen_Shutdown

text \<open>The loop of a listener: every accepted item is handed to a task of its own, an error of the socket ends
  the loop with it, the signal ends it cleanly. \<open>None\<close> while it still waits.\<close>

fun listen_loop :: "'a listen_event list \<Rightarrow> 'a list \<times> (string + unit) option" where
  "listen_loop [] = ([], None)"
| "listen_loop (Accepted_Conn x # es) = (case listen_loop es of (xs, r) \<Rightarrow> (x # xs, r))"
| "listen_loop (Listen_Error e # es) = ([], Some (Inl e))"
| "listen_loop (Listen_Shutdown # es) = ([], Some (Inr ()))"

definition record_connection :: "transport_kind \<Rightarrow> runtime_context \<Rightarrow> runtime_context" where
  "record_connection kind ctx = ctx\<lparr>ctx_metrics := record_for kind record_request (ctx_metrics ctx)\<rparr>"

text \<open>The task of an accepted connection; its error is only logged.\<close>

definition tcp_task :: "stream_env \<Rightarrow> stream_read list \<Rightarrow> runtime_context \<Rightarrow> conn_end option \<times> connection" where
  "tcp_task env reads ctx = handle_tcp_connection env reads (record_connection Kind_Tcp ctx)"

definition dot_task ::
    "stream_env \<Rightarrow> string + unit \<Rightarrow> stream_read list \<Rightarrow> runtime_context \<Rightarrow> conn_end option \<times> connection" where
  "dot_task env handshake reads ctx = handle_tls_connection env handshake reads (record_connection Kind_Tls ctx)"

definition UDP_BUFFER :: nat where "UDP_BUFFER = 4096"

text \<open>\<^verbatim>\<open>recv_from\<close> keeps what fits into the buffer of a datagram.\<close>

definition udp_receive :: "(u8 list \<times> socket_addr) listen_event list \<Rightarrow> (u8 list \<times> socket_addr) list \<times> (string + unit) option" where
  "udp_receive es = (case listen_loop es of (qs, r) \<Rightarrow> (map (\<lambda>(q, peer). (take UDP_BUFFER q, peer)) qs, r))"

text \<open>The task of the \<open>n\<close>-th datagram: the reply and where it goes, \<open>None\<close> when the task panicked.\<close>

definition udp_task ::
    "stream_env \<Rightarrow> nat \<Rightarrow> u8 list \<times> socket_addr \<Rightarrow> runtime_context \<Rightarrow> (u8 list \<times> socket_addr) option \<times> runtime_context" where
  "udp_task env n q ctx =
     (case answer_query env Kind_Udp n (fst q) (record_connection Kind_Udp ctx) of
        (Some resp, ctx') \<Rightarrow> (Some (hr_wire resp, snd q), ctx')
      | (None, ctx') \<Rightarrow> (None, ctx'))"

text \<open>The start of each listener task: the configured address has to parse; the task then runs the rebind loop
  with its way of binding.\<close>

record server_task =
  tk_addr :: socket_addr
  tk_bind :: "(sock_call \<Rightarrow> string option) \<Rightarrow> string + listen_socket"
  tk_state :: rebind_state

definition listener_start ::
    "string \<Rightarrow> ((sock_call \<Rightarrow> string option) \<Rightarrow> socket_addr \<Rightarrow> bool option \<Rightarrow> string + listen_socket) \<Rightarrow> string
     \<Rightarrow> bool option \<Rightarrow> string + server_task" where
  "listener_start what bind addr ipv6_only =
     (case parse_sockaddr addr of
        Some a \<Rightarrow> Inr \<lparr>tk_addr = a, tk_bind = (\<lambda>sys. bind sys a ipv6_only), tk_state = rebind_start\<rparr>
      | None \<Rightarrow> Inl (''invalid '' @ what @ '' listen address '' @ addr))"

definition run_udp :: "string \<Rightarrow> runtime_context \<Rightarrow> string + server_task" where
  "run_udp addr ctx =
     listener_start ''UDP'' bind_udp addr
       (case lc_udp (cfg_listeners (ctx_config ctx)) of Some u \<Rightarrow> ul_ipv6_only u | None \<Rightarrow> None)"

definition run_tcp :: "string \<Rightarrow> runtime_context \<Rightarrow> string + server_task" where
  "run_tcp addr ctx =
     listener_start ''TCP'' bind_tcp addr
       (case lc_tcp (cfg_listeners (ctx_config ctx)) of Some t \<Rightarrow> tl_ipv6_only t | None \<Rightarrow> None)"

text \<open>The TLS set-up of the encrypted listeners. File access, PEM parsing and the rustls builder are
  arguments.\<close>

record ('c, 'k) tls_io =
  ti_read :: "string \<Rightarrow> string + u8 list"
  ti_certs :: "u8 list \<Rightarrow> string + 'c list"
  ti_private_key :: "u8 list \<Rightarrow> string + 'k option"
  ti_single_cert :: "'c list \<Rightarrow> 'k \<Rightarrow> string + unit"

record ('c, 'k) tls_server_config =
  tsc_cert_chain :: "'c list"
  tsc_key :: 'k
  tsc_alpn_protocols :: "string list"

definition map_err :: "('e \<Rightarrow> 'f) \<Rightarrow> 'e + 'a \<Rightarrow> 'f + 'a" where
  "map_err f r = (case r of Inl e \<Rightarrow> Inl (f e) | Inr x \<Rightarrow> Inr x)"

definition load_tls_config ::
    "('c, 'k) tls_io \<Rightarrow> string \<Rightarrow> string \<Rightarrow> string list \<Rightarrow> string + ('c, 'k) tls_server_config" where
  "load_tls_config io cert_file key_file alpn =
     rbind (map_err (\<lambda>e. ''failed to read TLS cert: '' @ e) (ti_read io cert_file)) (\<lambda>cert_data.
     rbind (map_err (\<lambda>e. ''failed to read TLS key: '' @ e) (ti_read io key_file)) (\<lambda>key_data.
     rbind (map_err (\<lambda>e. ''failed to parse TLS certs: '' @ e) (ti_certs io cert_data)) (\<lambda>cert_chain.
     if cert_chain = [] then Inl (''no TLS certificates found in '' @ cert_file)
     else
       rbind (map_err (\<lambda>e. ''failed to parse TLS key: '' @ e) (ti_private_key io key_data)) (\<lambda>key.
       case key of
         None \<Rightarrow> Inl (''no private key found in '' @ key_file)
       | Some key_der \<Rightarrow>
           rbind (map_err (\<lambda>e. ''TLS config error: '' @ e) (ti_single_cert io cert_chain key_der)) (\<lambda>_.
           Inr \<lparr>tsc_cert_chain = cert_chain, tsc_key = key_der, tsc_alpn_protocols = alpn\<rparr>)))))"

definition load_tls_server_config ::
    "('c, 'k) tls_io \<Rightarrow> string \<Rightarrow> string \<Rightarrow> string + ('c, 'k) tls_server_config" where
  "load_tls_server_config io cert_file key_file = load_tls_config io cert_file key_file [''dns'']"

definition load_doh_tls_config ::
    "('c, 'k) tls_io \<Rightarrow> string \<Rightarrow> string \<Rightarrow> string + ('c, 'k) tls_server_config" where
  "load_doh_tls_config io cert_file key_file = load_tls_config io cert_file key_file [''h2'', ''http/1.1'']"

definition run_dot ::
    "('c, 'k) tls_io \<Rightarrow> tls_listener_config \<Rightarrow> string + ('c, 'k) tls_server_config \<times> server_task" where
  "run_dot io cfg =
     rbind (load_tls_server_config io (dot_cert_file cfg) (dot_key_file cfg)) (\<lambda>tls.
     rbind (listener_start ''DoT'' bind_tcp (dot_listen cfg) (dot_ipv6_only cfg)) (\<lambda>task. Inr (tls, task)))"

section \<open>The rebind loop: invariant and runs\<close>

lemmas backoff_limits = MIN_REBIND_BACKOFF_def MAX_REBIND_BACKOFF_def

definition rebind_ok :: "rebind_state \<Rightarrow> bool" where
  "rebind_ok s \<longleftrightarrow>
     1 \<le> rb_backoff s \<and> rb_backoff s \<le> MAX_REBIND_BACKOFF \<and> (rb_phase s = Serving \<longrightarrow> rb_backoff s = 1)"

lemma rebind_step_ok: "rebind_step s e s' \<Longrightarrow> rebind_ok s \<Longrightarrow> rebind_ok s'"
  by (induction rule: rebind_step.induct) (auto simp: rebind_ok_def backoff_limits)

lemma rebind_runs_ok: "rebind_runs s es s' \<Longrightarrow> rebind_ok s \<Longrightarrow> rebind_ok s'"
  by (induction rule: rebind_runs.induct) (auto intro: rebind_step_ok)

lemma rebind_runs_append:
  "rebind_runs s es s1 \<Longrightarrow> rebind_runs s1 es' s' \<Longrightarrow> rebind_runs s (es @ es') s'"
  by (induction rule: rebind_runs.induct) (auto intro: rebind_more)

lemma rebind_step_det: "rebind_step s e s1 \<Longrightarrow> rebind_step s e s2 \<Longrightarrow> s1 = s2"
  by (auto elim!: rebind_stepE)

lemma rebind_runs_det: "rebind_runs s es s1 \<Longrightarrow> rebind_runs s es s2 \<Longrightarrow> s1 = s2"
proof (induction arbitrary: s2 rule: rebind_runs.induct)
  case (rebind_more s e s1 es s')
  then show ?case by (metis rebind_runs_simps(2) rebind_step_det)
qed (simp add: rebind_runs_simps)

text \<open>Only the signal stops the loop, and not while the server runs.\<close>

lemma stopped_only_by_signal:
  "rebind_step s e s' \<Longrightarrow> rb_phase s' = Stopped \<Longrightarrow> e = Ev_Shutdown \<and> rb_phase s \<in> {Binding, Backing_Off}"
  by (auto elim!: rebind_stepE)

lemma runs_without_signal:
  "rebind_runs s es s' \<Longrightarrow> Ev_Shutdown \<notin> set es \<Longrightarrow> rb_phase s \<noteq> Stopped \<Longrightarrow> rb_phase s' \<noteq> Stopped"
  by (induction rule: rebind_runs.induct) (auto dest: stopped_only_by_signal)

lemma failures_run:
  "rebind_runs \<lparr>rb_phase = Binding, rb_backoff = min (2 ^ k) 60\<rparr>
     (concat (replicate n [Ev_Bind_Failed, Ev_Slept])) \<lparr>rb_phase = Binding, rb_backoff = min (2 ^ (k + n)) 60\<rparr>"
proof (induction n arbitrary: k)
  case 0
  then show ?case by (simp add: rebind_done)
next
  case (Suc n)
  let ?s = "\<lparr>rb_phase = Binding, rb_backoff = min (2 ^ k) 60\<rparr>"
  have "rebind_step ?s Ev_Bind_Failed (?s\<lparr>rb_phase := Backing_Off\<rparr>)"
    by (rule bind_failed) simp
  moreover have "rebind_step (?s\<lparr>rb_phase := Backing_Off\<rparr>) Ev_Slept
      \<lparr>rb_phase = Binding, rb_backoff = min (2 ^ Suc k) 60\<rparr>"
  proof -
    have "min (min (2 ^ k) 60 * 2) MAX_REBIND_BACKOFF = min (2 ^ Suc k) (60 :: nat)"
      by (simp add: MAX_REBIND_BACKOFF_def min_def)
    then show ?thesis
      using slept [of "?s\<lparr>rb_phase := Backing_Off\<rparr>"] by simp
  qed
  ultimately show ?case using Suc.IH [of "Suc k"] by (auto intro: rebind_more)
qed

section \<open>Stream connections against the frames of the stream\<close>

text \<open>The answers to a list of messages, one after the other; \<open>None\<close> when one of the calls panics.\<close>

fun answers ::
    "(nat \<Rightarrow> u8 list \<Rightarrow> 'c \<Rightarrow> handler_response option \<times> 'c) \<Rightarrow> nat \<Rightarrow> u8 list list \<Rightarrow> 'c
     \<Rightarrow> (u8 list list \<times> 'c) option" where
  "answers answer n [] ctx = Some ([], ctx)"
| "answers answer n (m # ms) ctx =
     (case answer n m ctx of
        (None, _) \<Rightarrow> None
      | (Some r, ctx') \<Rightarrow> map_option (\<lambda>(ws, c). (hr_wire r # ws, c)) (answers answer (Suc n) ms ctx'))"

lemma answers_append:
  "answers answer n (xs @ ys) ctx =
     (case answers answer n xs ctx of
        None \<Rightarrow> None
      | Some (ws, ctx1) \<Rightarrow> map_option (\<lambda>(vs, c). (ws @ vs, c)) (answers answer (n + length xs) ys ctx1))"
proof (induction xs arbitrary: n ctx)
  case Nil
  then show ?case by (simp add: case_prod_beta option.map_id0)
next
  case (Cons x xs)
  obtain r ctx1 where "answer n x ctx = (r, ctx1)" by fastforce
  then show ?case
    by (cases r; cases "answers answer (Suc n) xs ctx1")
      (auto simp: Cons.IH option.map_comp comp_def case_prod_beta intro!: option.map_cong0)
qed

text \<open>A connection whose decoder holds \<open>p\<close> and accepts every frame length.\<close>

definition conn_holds :: "u8 list \<Rightarrow> connection \<Rightarrow> bool" where
  "conn_holds p c \<longleftrightarrow>
     decoder_ok (cn_decoder c) \<and> decoder_pending (cn_decoder c) = p \<and>
     fd_max_frame_size (cn_decoder c) = DEFAULT_MAX_TCP_FRAME"

lemma no_oversized: "fst (next_frame DEFAULT_MAX_TCP_FRAME xs) \<noteq> Inl e"
proof -
  have "\<not> (DEFAULT_MAX_TCP_FRAME < w)" for w :: u16
    using u16_unat_less [of w] by (simp add: DEFAULT_MAX_TCP_FRAME_def word_less_nat_alt del: u16_unat_less)
  then show ?thesis by (auto simp: next_frame_def Let_def split: list.split)
qed

lemma conn_step:
  assumes "conn_holds p c"
  obtains d where "try_decode (cn_decoder c) = (fst (next_frame DEFAULT_MAX_TCP_FRAME p), d)"
    "\<And>ctx sent n. conn_holds (snd (next_frame DEFAULT_MAX_TCP_FRAME p))
       (c\<lparr>cn_decoder := d, cn_context := ctx, cn_count := n, cn_sent := sent\<rparr>)"
proof -
  obtain res d where td: "try_decode (cn_decoder c) = (res, d)" by fastforce
  from assms try_decode_next [OF _ td] have "(res, decoder_pending d) = next_frame DEFAULT_MAX_TCP_FRAME p"
    "decoder_ok d" "fd_max_frame_size d = DEFAULT_MAX_TCP_FRAME"
    by (auto simp: conn_holds_def)
  moreover from this(1) have "res = fst (next_frame DEFAULT_MAX_TCP_FRAME p)"
      "decoder_pending d = snd (next_frame DEFAULT_MAX_TCP_FRAME p)"
    by (metis fst_conv, metis snd_conv)
  ultimately show thesis using td that by (simp add: conn_holds_def)
qed

lemma serve_buffered_frames:
  assumes "conn_holds p c" "frames DEFAULT_MAX_TCP_FRAME p = (ms, remains)" "\<And>n. se_write env n = Wrote"
    "answers (answer_query env kind) (cn_count c) ms (cn_context c) = Some (ws, ctx)"
  shows "\<exists>c'. serve_buffered env kind c = (None, c') \<and> conn_holds remains c' \<and> cn_context c' = ctx \<and>
    cn_sent c' = cn_sent c @ map encode_tcp_frame ws \<and> cn_count c' = cn_count c + length ms"
  using assms(1,2,4)
proof (induction ms arbitrary: p c ws)
  case Nil
  from conn_step [OF Nil.prems(1)] obtain d where d: "try_decode (cn_decoder c) = (fst (next_frame DEFAULT_MAX_TCP_FRAME p), d)"
      "\<And>ctx sent n. conn_holds (snd (next_frame DEFAULT_MAX_TCP_FRAME p))
         (c\<lparr>cn_decoder := d, cn_context := ctx, cn_count := n, cn_sent := sent\<rparr>)" by blast
  have nf: "next_frame DEFAULT_MAX_TCP_FRAME p = (Inr None, p)" "remains = p"
    using Nil.prems(2) no_oversized [of p] next_frame_not_Some [of DEFAULT_MAX_TCP_FRAME p]
    by (subst (asm) frames.simps, auto split: prod.splits sum.splits option.splits)+
  with d(1) have "serve_buffered env kind c = (None, c\<lparr>cn_decoder := d\<rparr>)" by (subst serve_buffered.simps) simp
  moreover have "conn_holds p (c\<lparr>cn_decoder := d\<rparr>)"
    using d(2) [where ctx = "cn_context c" and sent = "cn_sent c" and n = "cn_count c"] nf by simp
  ultimately show ?case using nf Nil.prems(3) by simp
next
  case (Cons m ms)
  from conn_step [OF Cons.prems(1)] obtain d where d: "try_decode (cn_decoder c) = (fst (next_frame DEFAULT_MAX_TCP_FRAME p), d)"
      "\<And>ctx sent n. conn_holds (snd (next_frame DEFAULT_MAX_TCP_FRAME p))
         (c\<lparr>cn_decoder := d, cn_context := ctx, cn_count := n, cn_sent := sent\<rparr>)" by blast
  obtain k q where nf: "next_frame DEFAULT_MAX_TCP_FRAME p = (Inr (Some (m, k)), q)" "frames DEFAULT_MAX_TCP_FRAME q = (ms, remains)"
    using Cons.prems(2) by (subst (asm) frames.simps) (auto split: prod.splits sum.splits option.splits)
  obtain r ctx1 ws1 where a: "answer_query env kind (cn_count c) m (cn_context c) = (Some r, ctx1)"
      "answers (answer_query env kind) (Suc (cn_count c)) ms ctx1 = Some (ws1, ctx)" "ws = hr_wire r # ws1"
    using Cons.prems(3) by (auto split: prod.splits option.splits)
  let ?c = "c\<lparr>cn_decoder := d, cn_context := ctx1, cn_count := Suc (cn_count c),
      cn_sent := cn_sent c @ [encode_tcp_frame (hr_wire r)]\<rparr>"
  have "serve_buffered env kind c = serve_buffered env kind ?c"
    using d(1) nf(1) a(1) assms(3) by (subst serve_buffered.simps) (simp add: Let_def)
  moreover have "conn_holds q ?c" using d(2) nf(1) by simp
  ultimately show ?case using Cons.IH [of q ?c ws1] nf(2) a by simp
qed

lemma serve_stream_frames:
  assumes "conn_holds p c" "frames DEFAULT_MAX_TCP_FRAME p = ([], p)" "[] \<notin> set cs" "\<And>n. se_write env n = Wrote"
    "frames DEFAULT_MAX_TCP_FRAME (p @ concat cs) = (ms, remains)"
    "answers (answer_query env kind) (cn_count c) ms (cn_context c) = Some (ws, ctx)"
  shows "\<exists>c'. serve_stream env kind (map Chunk cs @ [Chunk []]) c = (Some Conn_Ok, c') \<and> cn_context c' = ctx \<and>
    cn_sent c' = cn_sent c @ map encode_tcp_frame ws"
  using assms(1-3,5,6)
proof (induction cs arbitrary: p c ms ws)
  case Nil
  then show ?case by simp
next
  case (Cons x cs)
  let ?c = "c\<lparr>cn_decoder := feed x (cn_decoder c)\<rparr>"
  obtain ms1 q where f1: "frames DEFAULT_MAX_TCP_FRAME (p @ x) = (ms1, q)" by fastforce
  note split = frames_append [OF f1]
  have q: "frames DEFAULT_MAX_TCP_FRAME q = ([], q)"
    using split [of "[]"] f1 by (cases "frames DEFAULT_MAX_TCP_FRAME q") simp
  obtain ms2 where f2: "frames DEFAULT_MAX_TCP_FRAME (q @ concat cs) = (ms2, remains)" "ms = ms1 @ ms2"
    using Cons.prems(4) split [of "concat cs"] by (cases "frames DEFAULT_MAX_TCP_FRAME (q @ concat cs)") simp
  obtain ws1 ctx1 ws2 where a: "answers (answer_query env kind) (cn_count c) ms1 (cn_context c) = Some (ws1, ctx1)"
      "answers (answer_query env kind) (cn_count c + length ms1) ms2 ctx1 = Some (ws2, ctx)" "ws = ws1 @ ws2"
    using Cons.prems(5) unfolding f2(2) answers_append by (auto split: option.splits)
  have "conn_holds (p @ x) ?c"
    using Cons.prems(1) tcp_decoder.feed_inv tcp_decoder.feed_pending tcp_decoder.feed_limit by (simp add: conn_holds_def)
  from serve_buffered_frames [OF this f1 assms(4), of kind ws1 ctx1] a(1) obtain c1 where
    c1: "serve_buffered env kind ?c = (None, c1)" "conn_holds q c1" "cn_context c1 = ctx1"
      "cn_sent c1 = cn_sent c @ map encode_tcp_frame ws1" "cn_count c1 = cn_count c + length ms1"
    by auto
  from Cons.IH [OF c1(2) q _ f2(1), of ws2] Cons.prems(3) a c1 show ?case by auto
qed

text \<open>However the network cuts a stream of framed queries into reads, the connection sends exactly the framed
  answers of the handler to those queries, each computed on the context the previous one left, and ends
  cleanly with the stream. The same loop serves TCP and DoT.\<close>

lemma framed_queries_served:
  assumes "list_all (\<lambda>q. length q \<le> 65535) queries"
    and "concat chunks = concat (map encode_tcp_frame queries)" "[] \<notin> set chunks"
    and "\<And>n. se_write env n = Wrote" "answers (answer_query env kind) 0 queries ctx = Some (replies, ctx')"
  shows "\<exists>c. serve_stream env kind (map Chunk chunks @ [Chunk []]) (connection_new ctx) = (Some Conn_Ok, c) \<and>
    cn_sent c = map encode_tcp_frame replies \<and> cn_context c = ctx'"
proof -
  have "conn_holds [] (connection_new ctx)"
    by (simp add: conn_holds_def connection_new_def decoder_new_def decoder_ok_def decoder_pending_def)
  moreover have "frames DEFAULT_MAX_TCP_FRAME [] = ([], [])"
    by (subst frames.simps) (simp add: next_frame_def)
  moreover have "frames DEFAULT_MAX_TCP_FRAME ([] @ concat chunks) = (queries, [])"
    using frames_encode [of DEFAULT_MAX_TCP_FRAME queries] assms(1,2) by (simp add: DEFAULT_MAX_TCP_FRAME_def)
  ultimately show ?thesis
    using serve_stream_frames [of "[]" "connection_new ctx" chunks env queries "[]" kind replies ctx'] assms(3-5)
    by (auto simp: connection_new_def)
qed

section \<open>What the listeners rely on\<close>

text \<open>The contract between the listeners and the handler: a call always responds and keeps the context in
  order, and its reply starts with the id of a query that parses.\<close>

definition carries_id :: "u8 list \<Rightarrow> u8 list \<Rightarrow> bool" where
  "carries_id query reply \<longleftrightarrow>
     (case from_wire query of
        Inl _ \<Rightarrow> True
      | Inr m \<Rightarrow> prefix (u16_to_be_bytes (h_id (m_header m))) reply)"

locale dns_service =
  fixes answer :: "nat \<Rightarrow> u8 list \<Rightarrow> 'c \<Rightarrow> handler_response option \<times> 'c"
    and inv :: "'c \<Rightarrow> bool"
  assumes responds: "inv c \<Longrightarrow> \<exists>r c'. answer n q c = (Some r, c') \<and> inv c'"
    and echoes: "inv c \<Longrightarrow> answer n q c = (Some r, c') \<Longrightarrow> carries_id q (hr_wire r)"
begin

lemma reply:
  assumes "inv c"
  obtains r c' where "answer n q c = (Some r, c')" "inv c'" "carries_id q (hr_wire r)"
  using responds [OF assms] echoes [OF assms] by blast

lemma replies:
  "inv c \<Longrightarrow> \<exists>ws c'. answers answer n qs c = Some (ws, c') \<and> inv c' \<and> list_all2 carries_id qs ws"
proof (induction qs arbitrary: n c)
  case (Cons q qs)
  obtain r c1 where r: "answer n q c = (Some r, c1)" "inv c1" "carries_id q (hr_wire r)"
    using reply [OF Cons.prems] .
  from Cons.IH [OF r(2), of "Suc n"] obtain ws c' where
    "answers answer (Suc n) qs c1 = Some (ws, c')" "inv c'" "list_all2 carries_id qs ws" by blast
  with r show ?case by simp
qed simp

end

text \<open>The handler keeps the contract as long as the other tasks leave the context in order and the servers
  echo the id they were asked with.\<close>

definition context_ready :: "runtime_context \<Rightarrow> bool" where
  "context_ready ctx \<longleftrightarrow> context_ok ctx \<and> ttl_ordered ctx"

definition env_ok :: "stream_env \<Rightarrow> bool" where
  "env_ok env \<longleftrightarrow>
     (\<forall>n. ids_echoed (se_completions env n)) \<and> (\<forall>n ctx. context_ready ctx \<longrightarrow> context_ready (se_others env n ctx))"

lemma context_ready_record [simp]: "context_ready (record_connection kind ctx) = context_ready ctx"
  by (simp add: context_ready_def record_connection_def context_ok_def ttl_ordered_def)

lemma answer_query_ready:
  assumes "env_ok env" "context_ready ctx" "answer_query env kind n q ctx = (Some r, ctx')"
  shows "carries_id q (hr_wire r) \<and> context_ok ctx'"
proof -
  have ready: "context_ok (se_others env n ctx)" "ids_echoed (se_completions env n)"
    using assms(1,2) by (auto simp: env_ok_def context_ready_def)
  note run = assms(3) [unfolded answer_query_def]
  show ?thesis
  proof (cases "from_wire q")
    case (Inl e)
    with run ready show ?thesis by (simp add: carries_id_def handle_dns_query_def)
  next
    case (Inr m)
    from handled_query_id [OF ready(1) Inr run forward_echoes [OF ready(2)]] Inr show ?thesis
      by (simp add: carries_id_def)
  qed
qed

interpretation handler_service: dns_service "answer_query env kind" "\<lambda>ctx. env_ok env \<and> context_ready ctx" for env kind
proof
  fix ctx n q
  assume ok: "env_ok env \<and> context_ready ctx"
  then have "ttl_ordered (se_others env n ctx)" by (auto simp: env_ok_def context_ready_def)
  from handled_query_responds [OF this] obtain r ctx' where
    run: "answer_query env kind n q ctx = (Some r, ctx')" and "ttl_ordered ctx'"
    unfolding answer_query_def by blast
  with ok answer_query_ready [OF _ _ run] show "\<exists>r c'. answer_query env kind n q ctx = (Some r, c') \<and> env_ok env \<and> context_ready c'"
    by (simp add: context_ready_def)
next
  fix ctx n q r ctx'
  assume "env_ok env \<and> context_ready ctx" "answer_query env kind n q ctx = (Some r, ctx')"
  then show "carries_id q (hr_wire r)" using answer_query_ready by blast
qed

section \<open>Properties\<close>

definition stream_sample_env :: stream_env where
  "stream_sample_env = \<lparr>se_hasher = sample_hasher, se_completions = (\<lambda>_ _ _. []), se_lookup_at = (\<lambda>_. 0),
     se_stored_at = (\<lambda>_. 0), se_others = (\<lambda>_ ctx. ctx), se_write = (\<lambda>_. Wrote)\<rparr>"

text \<open>The backoff of the rebind loop stays between one and sixty seconds in every reachable state, is one
  second after every successful bind, and after \<open>n\<close> failed binds in a row it is \<open>2\<close> to the power \<open>n\<close> seconds,
  capped at sixty.\<close>

theorem rebind_backoff_bounded:
  assumes "rebind_runs rebind_start es s"
  shows "1 \<le> rb_backoff s \<and> rb_backoff s \<le> 60 \<and> (rb_phase s = Serving \<longrightarrow> rb_backoff s = 1) \<and>
    (es = concat (replicate n [Ev_Bind_Failed, Ev_Slept]) \<longrightarrow> s = \<lparr>rb_phase = Binding, rb_backoff = min (2 ^ n) 60\<rparr>)"
proof -
  have "rebind_ok rebind_start" by (simp add: rebind_ok_def rebind_start_def backoff_limits)
  from rebind_runs_ok [OF assms this] have "rebind_ok s" .
  moreover have "s = \<lparr>rb_phase = Binding, rb_backoff = min (2 ^ n) 60\<rparr>"
    if "es = concat (replicate n [Ev_Bind_Failed, Ev_Slept])"
    using rebind_runs_det [OF assms] failures_run [of 0 n] that
    by (simp add: rebind_start_def MIN_REBIND_BACKOFF_def)
  ultimately show ?thesis by (auto simp: rebind_ok_def MAX_REBIND_BACKOFF_def)
qed



text \<open>A datagram that fits the receive buffer is answered to its sender with the handler's bytes.\<close>

theorem udp_datagram_answered:
  assumes "listen_loop es = (qs, r)" "i < length qs" "length (fst (qs ! i)) \<le> UDP_BUFFER"
    "answer_query env Kind_Udp n (fst (qs ! i)) (record_connection Kind_Udp ctx) = (Some resp, ctx')"
  shows "udp_task env n (fst (udp_receive es) ! i) ctx = (Some (hr_wire resp, snd (qs ! i)), ctx')"
  using assms by (simp add: udp_receive_def udp_task_def case_prod_beta)

text \<open>An IPv6 socket is dual-stack unless the configuration says otherwise, and the option is not touched for
  an IPv4 address.\<close>

theorem bound_socket_options:
  assumes "bind_tcp sys addr v6 = Inr s"
  shows "ls_only_v6 s = (if socket_is_ipv6 addr then Some (v6 = Some True) else None) \<and> ls_addr s = Some addr \<and>
    ls_nonblocking s \<and> ls_nodelay s \<and> ls_backlog s = Some 128"
  using assms by (auto simp: bind_tcp_def sock_try_def set_dual_stack_def socket_new_def Let_def result_simps
      split: option.splits if_splits)

end
