(* ===== verification/Transport.thy ===== *)
theory Transport
  imports Tcp_Frame
begin

text \<open>
  Payload encodings per transport, \<^verbatim>\<open>dns-protocol/src/transport.rs\<close>: DNS over HTTPS (the
  hand-written base64url codec for GET, the raw body for POST), DNS over TLS (TCP framing) and
  DNS over QUIC (raw). A Rust string is the list of its bytes; the codec only meets ASCII, and
  any other byte is refused by the decoder.
\<close>

section \<open>The base64url codec\<close>

definition B64URL_CHARSET :: string where
  "B64URL_CHARSET = ''ABCDEFGHIJKLMNOPQRSTUVWXYZabcdefghijklmnopqrstuvwxyz0123456789-_''"

datatype b64url_error = B64_InvalidLength | B64_InvalidChar u8

definition b64_triple :: "u8 \<Rightarrow> u8 \<Rightarrow> u8 \<Rightarrow> u32" where
  "b64_triple b0 b1 b2 = push_bit 16 (ucast b0) OR push_bit 8 (ucast b1) OR ucast b2"

definition b64_char :: "u32 \<Rightarrow> char" where
  "b64_char v = B64URL_CHARSET ! unat (v AND 0x3F)"

text \<open>The loop over \<^verbatim>\<open>data.chunks(3)\<close>; the last chunk may hold one or two bytes.\<close>

fun b64url_encode :: "u8 list \<Rightarrow> string" where
  "b64url_encode [] = []"
| "b64url_encode [b0] =
     (let triple = b64_triple b0 0 0 in
      [b64_char (drop_bit 18 triple), b64_char (drop_bit 12 triple)])"
| "b64url_encode [b0, b1] =
     (let triple = b64_triple b0 b1 0 in
      [b64_char (drop_bit 18 triple), b64_char (drop_bit 12 triple),
       b64_char (drop_bit 6 triple)])"
| "b64url_encode (b0 # b1 # b2 # rest) =
     (let triple = b64_triple b0 b1 b2 in
      [b64_char (drop_bit 18 triple), b64_char (drop_bit 12 triple),
       b64_char (drop_bit 6 triple), b64_char triple] @ b64url_encode rest)"

text \<open>\<^verbatim>\<open>(encoded.len() + 3) & !3\<close>\<close>

definition b64_padded_len :: "nat \<Rightarrow> nat" where
  "b64_padded_len n = (n + 3) div 4 * 4"

definition b64_pad :: "string \<Rightarrow> string" where
  "b64_pad encoded =
     encoded @ replicate (b64_padded_len (length encoded) - length encoded) CHR ''=''"

definition b64_standard_char :: "char \<Rightarrow> char" where
  "b64_standard_char c = (if c = CHR ''-'' then CHR ''+'' else if c = CHR ''_'' then CHR ''/'' else c)"

text \<open>The \<^verbatim>\<open>match\<close> that fills \<^verbatim>\<open>values\<close>; \<^verbatim>\<open>'='\<close> leaves the initial zero.\<close>

definition b64_value :: "char \<Rightarrow> b64url_error + u32" where
  "b64_value ch =
     (let c = (of_char ch :: nat) in
      if 65 \<le> c \<and> c \<le> 90 then Inr (of_nat (c - 65))
      else if 97 \<le> c \<and> c \<le> 122 then Inr (of_nat (c - 97 + 26))
      else if 48 \<le> c \<and> c \<le> 57 then Inr (of_nat (c - 48 + 52))
      else if c = 43 then Inr 62
      else if c = 47 then Inr 63
      else if c = 61 then Inr 0
      else Inl (B64_InvalidChar (of_nat c)))"

fun b64_decode_chunks :: "string \<Rightarrow> b64url_error + u8 list" where
  "b64_decode_chunks [] = Inr []"
| "b64_decode_chunks (c0 # c1 # c2 # c3 # rest) =
     rbind (b64_value c0) (\<lambda>v0. rbind (b64_value c1) (\<lambda>v1.
     rbind (b64_value c2) (\<lambda>v2. rbind (b64_value c3) (\<lambda>v3.
     let triple = push_bit 18 v0 OR push_bit 12 v1 OR push_bit 6 v2 OR v3;
         chunk_bytes = [ucast (drop_bit 16 triple AND 0xFF)]
           @ (if c2 \<noteq> CHR ''='' then [ucast (drop_bit 8 triple AND 0xFF)] else [])
           @ (if c3 \<noteq> CHR ''='' then [ucast (triple AND 0xFF)] else [])
     in rbind (b64_decode_chunks rest) (\<lambda>bytes. Inr (chunk_bytes @ bytes))))))"
| "b64_decode_chunks _ = Inl B64_InvalidLength"

definition b64url_decode :: "string \<Rightarrow> b64url_error + u8 list" where
  "b64url_decode encoded = b64_decode_chunks (map b64_standard_char (b64_pad encoded))"

section \<open>Payload contracts\<close>

datatype doh_error = InvalidBase64Url | EmptyBody

definition doh_encode_get :: "u8 list \<Rightarrow> string" where
  "doh_encode_get dns_message = b64url_encode dns_message"

definition doh_decode_get :: "string \<Rightarrow> doh_error + u8 list" where
  "doh_decode_get encoded =
     (case b64url_decode encoded of Inl _ \<Rightarrow> Inl InvalidBase64Url | Inr b \<Rightarrow> Inr b)"

definition doh_encode_post :: "u8 list \<Rightarrow> u8 list" where
  "doh_encode_post dns_message = dns_message"

definition doh_decode_post :: "u8 list \<Rightarrow> doh_error + u8 list" where
  "doh_decode_post body = (if body = [] then Inl EmptyBody else Inr body)"

definition dot_encode_frame :: "u8 list \<Rightarrow> u8 list" where
  "dot_encode_frame dns_message = encode_tcp_frame dns_message"

definition dot_decode_frame :: "u8 list \<Rightarrow> u16 \<Rightarrow> protocol_error + u8 list \<times> nat" where
  "dot_decode_frame data max_frame_size = decode_tcp_frame data max_frame_size"

definition doq_encode :: "u8 list \<Rightarrow> u8 list" where
  "doq_encode dns_message = dns_message"

definition doq_decode :: "u8 list \<Rightarrow> doh_error + u8 list" where
  "doq_decode data = (if data = [] then Inl EmptyBody else Inr data)"

section \<open>Characters and values\<close>

lemma b64_alphabet_values:
  "map (\<lambda>c. b64_value (b64_standard_char c)) B64URL_CHARSET = map (\<lambda>i. Inr (of_nat i)) [0..<64]"
  by (simp add: B64URL_CHARSET_def b64_value_def b64_standard_char_def upt_rec)

lemma b64_alphabet_no_pad: "CHR ''='' \<notin> b64_standard_char ` set B64URL_CHARSET"
  by code_simp

lemma length_charset [simp]: "length B64URL_CHARSET = 64"
  by (simp add: B64URL_CHARSET_def)

lemma b64_alphabet:
  assumes "i < 64"
  shows "b64_value (b64_standard_char (B64URL_CHARSET ! i)) = Inr (of_nat i)"
    "b64_standard_char (B64URL_CHARSET ! i) \<noteq> CHR ''=''"
proof -
  from arg_cong [OF b64_alphabet_values, of "\<lambda>xs. xs ! i"] assms
  show "b64_value (b64_standard_char (B64URL_CHARSET ! i)) = Inr (of_nat i)" by simp
  from b64_alphabet_no_pad assms show "b64_standard_char (B64URL_CHARSET ! i) \<noteq> CHR ''=''"
    by (metis image_eqI length_charset nth_mem)
qed

lemma unat_and_63_less: "unat (v AND 0x3F :: u32) < 64"
  using word_and_le1 [of v "0x3F"] by (simp add: word_le_nat_alt)

lemma b64_value_char [simp]:
  "b64_value (b64_standard_char (b64_char v)) = Inr (v AND 0x3F)"
  "b64_standard_char (b64_char v) \<noteq> CHR ''=''"
  using b64_alphabet [OF unat_and_63_less, of v] by (simp_all add: b64_char_def)

lemma b64_value_pad [simp]:
  "b64_standard_char CHR ''='' = CHR ''=''" "b64_value CHR ''='' = Inr 0"
  by code_simp+

section \<open>One group\<close>

lemma bit_and_63: "bit (v AND 0x3F :: u32) n \<longleftrightarrow> bit v n \<and> n < 6"
proof -
  have mask: "(0x3F :: u32) = mask 6" by (simp add: mask_eq_exp_minus_1)
  show ?thesis unfolding mask by (auto simp: bit_simps)
qed

lemma bit_b64_triple:
  "bit (b64_triple b0 b1 b2) n \<longleftrightarrow>
     16 \<le> n \<and> bit b0 (n - 16) \<or> 8 \<le> n \<and> n < 16 \<and> bit b1 (n - 8) \<or> n < 8 \<and> bit b2 n"
  by (auto simp: b64_triple_def bit_simps dest: bit_imp_le_length)

lemma b64_triple_split:
  "push_bit 18 (drop_bit 18 (b64_triple b0 b1 b2) AND 0x3F) OR
   push_bit 12 (drop_bit 12 (b64_triple b0 b1 b2) AND 0x3F) OR
   push_bit 6 (drop_bit 6 (b64_triple b0 b1 b2) AND 0x3F) OR
   (b64_triple b0 b1 b2 AND 0x3F) = b64_triple b0 b1 b2"
proof (rule bit_word_eqI)
  fix n :: nat
  let ?t = "b64_triple b0 b1 b2"
  have hi: "\<not> bit ?t n" if "24 \<le> n" for n
    using that by (auto simp: bit_b64_triple dest: bit_imp_le_length)
  assume n: "n < LENGTH(32)"
  have "bit (push_bit 18 (drop_bit 18 ?t AND 0x3F) OR push_bit 12 (drop_bit 12 ?t AND 0x3F) OR
      push_bit 6 (drop_bit 6 ?t AND 0x3F) OR (?t AND 0x3F)) n \<longleftrightarrow>
    18 \<le> n \<and> n < 24 \<and> bit ?t n \<or> 12 \<le> n \<and> n < 18 \<and> bit ?t n \<or>
    6 \<le> n \<and> n < 12 \<and> bit ?t n \<or> n < 6 \<and> bit ?t n"
    unfolding bit_or_iff bit_push_bit_iff bit_and_63 bit_drop_bit_eq
    using n by auto
  also have "\<dots> \<longleftrightarrow> bit ?t n"
    using hi [of n] by auto
  finally show "bit (push_bit 18 (drop_bit 18 ?t AND 0x3F) OR push_bit 12 (drop_bit 12 ?t AND 0x3F) OR
      push_bit 6 (drop_bit 6 ?t AND 0x3F) OR (?t AND 0x3F)) n = bit ?t n" .
qed

lemma b64_triple_bytes:
  "ucast (drop_bit 16 (b64_triple b0 b1 b2) AND 0xFF) = b0"
  "ucast (drop_bit 8 (b64_triple b0 b1 b2) AND 0xFF) = b1"
  "ucast (b64_triple b0 b1 b2 AND 0xFF) = b2"
proof -
  have mask: "(0xFF :: u32) = mask 8" by (simp add: mask_eq_exp_minus_1)
  show "ucast (drop_bit 16 (b64_triple b0 b1 b2) AND 0xFF) = b0"
    "ucast (drop_bit 8 (b64_triple b0 b1 b2) AND 0xFF) = b1"
    "ucast (b64_triple b0 b1 b2 AND 0xFF) = b2"
    unfolding mask by (rule bit_word_eqI; auto simp: bit_simps bit_b64_triple)+
qed

text \<open>The low digits of a short last group are zero, as the padding supplies them.\<close>

lemma b64_triple_low:
  "b64_triple b0 b1 0 AND 0x3F = 0" "drop_bit 6 (b64_triple b0 0 0) AND 0x3F = 0"
  "b64_triple b0 0 0 AND 0x3F = 0"
  by (rule bit_word_eqI; auto simp: bit_and_63 bit_b64_triple bit_drop_bit_eq)+

section \<open>Round trip\<close>

lemma b64_padded_len_simps:
  "b64_padded_len 0 = 0" "b64_padded_len (Suc (Suc 0)) = 4" "b64_padded_len (Suc (Suc (Suc 0))) = 4"
  "b64_padded_len (Suc (Suc (Suc (Suc n)))) = b64_padded_len n + 4"
proof -
  have "Suc (Suc (Suc (Suc n))) + 3 = n + 3 + 4" by simp
  then show "b64_padded_len (Suc (Suc (Suc (Suc n)))) = b64_padded_len n + 4"
    unfolding b64_padded_len_def by (simp only: div_add_self2 add_mult_distrib)
qed (simp_all add: b64_padded_len_def)

lemma b64_pad_group: "b64_pad (c0 # c1 # c2 # c3 # s) = c0 # c1 # c2 # c3 # b64_pad s"
  by (simp add: b64_pad_def b64_padded_len_simps)

lemma b64_pad_short:
  "b64_pad [] = []" "b64_pad [c0, c1] = [c0, c1, CHR ''='', CHR ''='']"
  "b64_pad [c0, c1, c2] = [c0, c1, c2, CHR ''='']"
  by (simp_all add: b64_pad_def b64_padded_len_simps numeral_2_eq_2)

lemma b64_group:
  fixes b0 b1 b2 :: u8
  defines "t \<equiv> b64_triple b0 b1 b2"
  shows "b64_decode_chunks (map b64_standard_char
      (b64_char (drop_bit 18 t) # b64_char (drop_bit 12 t) # b64_char (drop_bit 6 t) # b64_char t # s)) =
    rbind (b64_decode_chunks (map b64_standard_char s)) (\<lambda>bytes. Inr ([b0, b1, b2] @ bytes))"
  unfolding t_def
  by (simp only: list.map b64_decode_chunks.simps b64_value_char rbind_Inr Let_def b64_triple_split
      b64_triple_bytes if_True not_False_eq_True append.simps)

lemma b64_group2:
  fixes b0 b1 :: u8
  defines "t \<equiv> b64_triple b0 b1 0"
  shows "b64_decode_chunks (map b64_standard_char
      [b64_char (drop_bit 18 t), b64_char (drop_bit 12 t), b64_char (drop_bit 6 t), CHR ''='']) =
    Inr [b0, b1]"
  using b64_triple_split [of b0 b1 0] unfolding t_def b64_triple_low
  by (simp only: list.map b64_decode_chunks.simps b64_value_char b64_value_pad rbind_Inr Let_def
      b64_triple_bytes if_True if_False not_True_eq_False not_False_eq_True append.simps simp_thms)

lemma b64_group1:
  fixes b0 :: u8
  defines "t \<equiv> b64_triple b0 0 0"
  shows "b64_decode_chunks (map b64_standard_char
      [b64_char (drop_bit 18 t), b64_char (drop_bit 12 t), CHR ''='', CHR ''='']) = Inr [b0]"
  using b64_triple_split [of b0 0 0] unfolding t_def b64_triple_low
  by (simp only: list.map b64_decode_chunks.simps b64_value_char b64_value_pad rbind_Inr Let_def
      b64_triple_bytes if_True if_False not_True_eq_False not_False_eq_True append.simps simp_thms)

lemma b64url_roundtrip: "b64url_decode (b64url_encode bs) = Inr bs"
proof (induction bs rule: b64url_encode.induct)
  case (2 b0)
  show ?case using b64_group1 [of b0] by (simp add: b64url_decode_def b64_pad_short Let_def)
next
  case (3 b0 b1)
  show ?case using b64_group2 [of b0 b1] by (simp add: b64url_decode_def b64_pad_short Let_def)
next
  case (4 b0 b1 b2 rest)
  then show ?case
    using b64_group [of b0 b1 b2 "b64_pad (b64url_encode rest)"]
    by (simp add: b64url_decode_def b64_pad_group Let_def)
qed (simp add: b64url_decode_def b64_pad_short)

lemma b64_char_in_charset: "b64_char v \<in> set B64URL_CHARSET"
  using unat_and_63_less [of v] by (simp add: b64_char_def)

lemma b64url_encode_charset: "set (b64url_encode bs) \<subseteq> set B64URL_CHARSET"
  by (induction bs rule: b64url_encode.induct) (auto simp: Let_def b64_char_in_charset)

lemma length_b64url_encode: "length (b64url_encode bs) = (length bs * 4 + 2) div 3"
  by (induction bs rule: b64url_encode.induct) (auto simp: Let_def)

section \<open>Properties\<close>

text \<open>A DNS message encoded for a DoH GET request is decoded back exactly, for every message;
  the encoding uses only the 64 characters of the base64url alphabet, without padding, and has
  the length RFC 4648 prescribes.\<close>

theorem doh_get_roundtrip:
  "doh_decode_get (doh_encode_get m) = Inr m \<and> set (doh_encode_get m) \<subseteq> set B64URL_CHARSET \<and>
   length (doh_encode_get m) = (length m * 4 + 2) div 3"
  by (simp add: doh_decode_get_def doh_encode_get_def b64url_roundtrip b64url_encode_charset
      length_b64url_encode)

text \<open>DoH POST, DoQ and DoT payloads: a non-empty message comes back unchanged from the POST
  body and the QUIC stream, an empty one is refused, and a DoT frame is a TCP frame.\<close>

theorem transport_payloads:
  assumes "length m \<le> 65535"
  shows "doh_decode_post (doh_encode_post m) = (if m = [] then Inl EmptyBody else Inr m) \<and>
    doq_decode (doq_encode m) = (if m = [] then Inl EmptyBody else Inr m) \<and>
    dot_decode_frame (dot_encode_frame m @ trailing) DEFAULT_MAX_TCP_FRAME = Inr (m, 2 + length m)"
  using assms decode_tcp_frame_encode [of m DEFAULT_MAX_TCP_FRAME trailing]
  by (simp add: doh_decode_post_def doh_encode_post_def doq_decode_def doq_encode_def
      dot_decode_frame_def dot_encode_frame_def DEFAULT_MAX_TCP_FRAME_def encode_tcp_frame_def)

theorem transport_payloads_witness:
  "doq_decode (doq_encode [1, 2]) = Inr [1, 2] \<and>
   dot_decode_frame (dot_encode_frame [1, 2] @ []) DEFAULT_MAX_TCP_FRAME = Inr ([1, 2], 2 + length [1, 2 :: u8])"
  using transport_payloads [of "[1, 2]" "[]"] by simp

text \<open>The decoder is laxer than the format: padding in the middle and a single left-over digit
  are accepted.\<close>

lemma b64url_decode_lax:
  "b64url_decode ''QQ==QQ'' = Inr [0x41, 0x41] \<and> b64url_decode ''Q'' = Inr [0x40]"
  by code_simp

end
