(* ===== verification/Http_Listeners.thy ===== *)
theory Http_Listeners
  imports Server Transport
begin

text \<open>
  The HTTP listeners of \<^verbatim>\<open>border-dns-runtime/src/server.rs\<close>: DNS over HTTPS and the JSON facade. The HTTP
  server, its routing and its header parsing belong to axum; the model starts where axum calls the
  handlers, with the decoded query parameters, the content type and the body as arguments.
  The JSON answer is the record the source hands to serde.
\<close>

section \<open>DNS over HTTPS\<close>

type_synonym http_error = "nat \<times> string"

fun doh_error_to_string :: "doh_error \<Rightarrow> string" where
  "doh_error_to_string InvalidBase64Url = ''invalid base64url encoding''"
| "doh_error_to_string EmptyBody = ''empty DoH body''"

text \<open>The common end of the DoH handlers; a panicking task shows as \<open>None\<close>.\<close>

definition doh_answer ::
    "stream_env \<Rightarrow> nat \<Rightarrow> u8 list \<Rightarrow> runtime_context \<Rightarrow> (http_error + u8 list) option \<times> runtime_context" where
  "doh_answer env n query_bytes ctx =
     (case answer_query env Kind_Https n query_bytes (record_connection Kind_Https ctx) of
        (Some resp, ctx') \<Rightarrow> (Some (Inr (hr_wire resp)), ctx')
      | (None, ctx') \<Rightarrow> (None, ctx'))"

definition doh_get_handler ::
    "stream_env \<Rightarrow> nat \<Rightarrow> (string \<rightharpoonup> string) \<Rightarrow> runtime_context \<Rightarrow> (http_error + u8 list) option \<times> runtime_context" where
  "doh_get_handler env n params ctx =
     (case params ''dns'' of
        None \<Rightarrow> (Some (Inl (400, ''missing 'dns' query parameter'')), ctx)
      | Some dns_b64 \<Rightarrow>
          (case doh_decode_get dns_b64 of
             Inl e \<Rightarrow> (Some (Inl (400, ''invalid dns parameter: '' @ doh_error_to_string e)), ctx)
           | Inr query_bytes \<Rightarrow> doh_answer env n query_bytes ctx))"

fun str_contains :: "'a list \<Rightarrow> 'a list \<Rightarrow> bool" where
  "str_contains pat [] = (pat = [])"
| "str_contains pat (x # xs) = (prefix pat (x # xs) \<or> str_contains pat xs)"

text \<open>The content type: absent, or its text, which is absent when the header is not visible ASCII.\<close>

definition doh_post_handler ::
    "stream_env \<Rightarrow> nat \<Rightarrow> string option option \<Rightarrow> u8 list \<Rightarrow> runtime_context
     \<Rightarrow> (http_error + u8 list) option \<times> runtime_context" where
  "doh_post_handler env n content_type body ctx =
     (let rejected = (case content_type of
            None \<Rightarrow> None
          | Some ct \<Rightarrow>
              let ct_str = (case ct of Some s \<Rightarrow> s | None \<Rightarrow> []) in
              if \<not> str_contains ''application/dns-message'' ct_str
              then Some (415, ''expected application/dns-message, got '' @ ct_str) else None)
      in case rejected of
           Some e \<Rightarrow> (Some (Inl e), ctx)
         | None \<Rightarrow>
             (case doh_decode_post body of
                Inl e \<Rightarrow> (Some (Inl (400, ''invalid DoH body: '' @ doh_error_to_string e)), ctx)
              | Inr query_bytes \<Rightarrow> doh_answer env n query_bytes ctx))"

definition doh_options_handler :: nat where
  "doh_options_handler = 204"

text \<open>The routing table of \<^verbatim>\<open>run_doh\<close>: one path, three methods.\<close>

datatype http_method = Get | Post | Options | Other_Method

datatype doh_route = Route_Get | Route_Post | Route_Options | Method_Not_Allowed | Not_Found

definition doh_router :: "doh_listener_config \<Rightarrow> string \<Rightarrow> http_method \<Rightarrow> doh_route" where
  "doh_router cfg path meth =
     (if path = doh_path cfg then
        (case meth of Get \<Rightarrow> Route_Get | Post \<Rightarrow> Route_Post | Options \<Rightarrow> Route_Options | Other_Method \<Rightarrow> Method_Not_Allowed)
      else Not_Found)"

section \<open>DNS over JSON\<close>

record doj_question_entry =
  jq_name :: string
  jq_type :: u16

record doj_answer =
  ja_name :: string
  ja_type :: u16
  ja_ttl :: u32
  ja_data :: string

record doj_response =
  jr_status :: u16
  jr_tc :: bool
  jr_rd :: bool
  jr_ra :: bool
  jr_ad :: "bool option"
  jr_cd :: "bool option"
  jr_question :: "doj_question_entry list"
  jr_answer :: "doj_answer list"

definition doj_error_response :: doj_response where
  "doj_error_response =
     \<lparr>jr_status = 1, jr_tc = False, jr_rd = False, jr_ra = False, jr_ad = None, jr_cd = None,
      jr_question = [], jr_answer = []\<rparr>"

text \<open>\<^verbatim>\<open>str::parse::<u16>\<close>: an optional plus sign, then at least one digit, below \<^verbatim>\<open>2^16\<close>.\<close>

definition is_digit :: "char \<Rightarrow> bool" where
  "is_digit c \<longleftrightarrow> 48 \<le> (of_char c :: int) \<and> (of_char c :: int) \<le> 57"

definition parse_u16 :: "string \<Rightarrow> u16 option" where
  "parse_u16 s =
     (let digits = (case s of [] \<Rightarrow> [] | c # cs \<Rightarrow> if c = CHR ''+'' then cs else s) in
      if digits = [] \<or> \<not> list_all is_digit digits then None
      else let v = foldl (\<lambda>a c. a * 10 + (of_char c - 48)) (0 :: int) digits in
        if v < 2 ^ 16 then Some (word_of_int v) else None)"

definition ascii_upper :: "char \<Rightarrow> char" where
  "ascii_upper c = (let n = (of_char c :: int) in if 97 \<le> n \<and> n \<le> 122 then char_of (n - 32) else c)"

text \<open>\<^verbatim>\<open>to_uppercase\<close> on ASCII, as for lower-casing.\<close>

definition qtype_value :: "string \<Rightarrow> u16" where
  "qtype_value qtype_str =
     (case parse_u16 qtype_str of
        Some n \<Rightarrow> n
      | None \<Rightarrow>
          let u = map ascii_upper qtype_str in
          if u = ''A'' then 1 else if u = ''NS'' then 2 else if u = ''CNAME'' then 5 else if u = ''SOA'' then 6
          else if u = ''PTR'' then 12 else if u = ''MX'' then 15 else if u = ''TXT'' then 16
          else if u = ''AAAA'' then 28 else if u = ''SRV'' then 33 else if u = ''HTTPS'' then 65
          else if u = ''SVCB'' then 64 else 1)"

definition ensure_trailing_dot :: "string \<Rightarrow> string" where
  "ensure_trailing_dot name = (if suffix ''.'' name then name else name @ ''.'')"

text \<open>The message id is an argument; the source draws it from a seeded hasher.\<close>

definition build_wire_query :: "u16 \<Rightarrow> string \<Rightarrow> u16 \<Rightarrow> string + u8 list" where
  "build_wire_query rand_id name qt =
     (case from_str name of
        Inl e \<Rightarrow> Inl (''invalid domain: '' @ protocol_error_to_string e)
      | Inr domain \<Rightarrow>
          let q = question_new domain (QT_Type (record_type_from_u16 qt)) (QC_Class RC_In);
              msg = message_query rand_id q;
              msg = msg\<lparr>m_header := (m_header msg)\<lparr>h_rd := True\<rparr>\<rparr>
          in Inr (to_wire msg))"

text \<open>\<^verbatim>\<open>String::from_utf8_lossy\<close>: maximal valid prefixes are kept, each maximal ill-formed part becomes the
  replacement character. The first component says whether the bytes at the front are a character, the second
  how many bytes are taken.\<close>

definition continuation :: "u8 \<Rightarrow> u8 \<Rightarrow> u8 list \<Rightarrow> nat \<Rightarrow> bool" where
  "continuation lo hi bs i \<longleftrightarrow> i < length bs \<and> lo \<le> bs ! i \<and> bs ! i \<le> hi"

definition utf8_front :: "u8 list \<Rightarrow> bool \<times> nat" where
  "utf8_front bs =
     (let b = hd bs;
          second3 = (if b = 0xE0 then continuation 0xA0 0xBF bs 1
                     else if b = 0xED then continuation 0x80 0x9F bs 1 else continuation 0x80 0xBF bs 1);
          second4 = (if b = 0xF0 then continuation 0x90 0xBF bs 1
                     else if b = 0xF4 then continuation 0x80 0x8F bs 1 else continuation 0x80 0xBF bs 1)
      in if b < 0x80 then (True, 1)
         else if 0xC2 \<le> b \<and> b \<le> 0xDF then (if continuation 0x80 0xBF bs 1 then (True, 2) else (False, 1))
         else if 0xE0 \<le> b \<and> b \<le> 0xEF then
           (if \<not> second3 then (False, 1) else if continuation 0x80 0xBF bs 2 then (True, 3) else (False, 2))
         else if 0xF0 \<le> b \<and> b \<le> 0xF4 then
           (if \<not> second4 then (False, 1) else if \<not> continuation 0x80 0xBF bs 2 then (False, 2)
            else if continuation 0x80 0xBF bs 3 then (True, 4) else (False, 3))
         else (False, 1))"

lemma utf8_front_pos: "(valid, n) = utf8_front bs \<Longrightarrow> 0 < n"
  by (auto simp: utf8_front_def Let_def split: if_splits)

function from_utf8_lossy :: "u8 list \<Rightarrow> string" where
  "from_utf8_lossy bs =
     (if bs = [] then []
      else case utf8_front bs of (valid, n) \<Rightarrow>
        (if valid then map byte_char (take n bs) else map byte_char [0xEF, 0xBF, 0xBD])
          @ from_utf8_lossy (drop n bs))"
  by pat_completeness auto
termination
  by (relation "measure length") (auto dest: utf8_front_pos)

declare from_utf8_lossy.simps [simp del]

fun join_spaces :: "string list \<Rightarrow> string" where
  "join_spaces [] = []"
| "join_spaces [x] = x"
| "join_spaces (x # xs) = x @ '' '' @ join_spaces xs"

definition show_word :: "'a::len word \<Rightarrow> string" where
  "show_word w = show_nat (unat w)"

definition quote_char :: char where "quote_char = char_of (34 :: nat)"

fun format_rr_data :: "rdata \<Rightarrow> string" where
  "format_rr_data (RD_A ip) = show_ipv4 ip"
| "format_rr_data (RD_AAAA ip) = show_ipv6 ip"
| "format_rr_data (RD_CNAME name) = name_to_string name"
| "format_rr_data (RD_NS name) = name_to_string name"
| "format_rr_data (RD_PTR name) = name_to_string name"
| "format_rr_data (RD_MX mx) = join_spaces [show_word (mx_preference mx), name_to_string (mx_exchange mx)]"
| "format_rr_data (RD_TXT txts) = join_spaces (map (\<lambda>s. [quote_char] @ from_utf8_lossy s @ [quote_char]) txts)"
| "format_rr_data (RD_SOA soa) =
     join_spaces [name_to_string (soa_mname soa), name_to_string (soa_rname soa), show_word (soa_serial soa),
       show_word (soa_refresh soa), show_word (soa_retry soa), show_word (soa_expire soa), show_word (soa_minimum soa)]"
| "format_rr_data (RD_SRV srv) =
     join_spaces [show_word (srv_priority srv), show_word (srv_weight srv), show_word (srv_port srv),
       name_to_string (srv_target srv)]"
| "format_rr_data (RD_SVCB svcb) = join_spaces [show_word (svcb_priority svcb), name_to_string (svcb_target svcb)]"
| "format_rr_data (RD_HTTPS svcb) = join_spaces [show_word (svcb_priority svcb), name_to_string (svcb_target svcb)]"
| "format_rr_data (RD_OPT _) = []"
| "format_rr_data (RD_Unknown _ _) = []"

definition doj_status :: "response_code \<Rightarrow> u16" where
  "doj_status rcode =
     (case rcode of Rc_NoError \<Rightarrow> 0 | Rc_FormErr \<Rightarrow> 1 | Rc_ServFail \<Rightarrow> 2 | Rc_NXDomain \<Rightarrow> 3 | Rc_NotImp \<Rightarrow> 4
      | Rc_Refused \<Rightarrow> 5 | _ \<Rightarrow> 2)"

definition wire_to_json_response :: "string \<Rightarrow> u16 \<Rightarrow> dns_message \<Rightarrow> doj_response" where
  "wire_to_json_response name qt resp =
     (let answer = map (\<lambda>rr. \<lparr>ja_name = name_to_string (rr_name rr), ja_type = record_type_as_u16 (rr_type rr),
                ja_ttl = rr_ttl rr, ja_data = format_rr_data (rr_rdata rr)\<rparr>) (m_answers resp)
      in \<lparr>jr_status = doj_status (h_rcode (m_header resp)), jr_tc = h_tc (m_header resp),
          jr_rd = h_rd (m_header resp), jr_ra = h_ra (m_header resp), jr_ad = None, jr_cd = None,
          jr_question = [\<lparr>jq_name = name, jq_type = qt\<rparr>], jr_answer = answer\<rparr>)"

definition doj_resolve_handler ::
    "stream_env \<Rightarrow> nat \<Rightarrow> u16 \<Rightarrow> (string \<rightharpoonup> string) \<Rightarrow> runtime_context
     \<Rightarrow> (nat \<times> doj_response) option \<times> runtime_context" where
  "doj_resolve_handler env n rand_id params ctx =
     (let ctx = record_connection Kind_Json ctx in
      case params ''name'' of
        None \<Rightarrow> (Some (400, doj_error_response), ctx)
      | Some name \<Rightarrow>
          let qtype_str = (case params ''type'' of Some t \<Rightarrow> t | None \<Rightarrow> ''A'');
              qtype_val = qtype_value qtype_str;
              dns_name = ensure_trailing_dot name
          in (case build_wire_query rand_id dns_name qtype_val of
                Inl _ \<Rightarrow> (Some (400, doj_error_response), ctx)
              | Inr wire_query \<Rightarrow>
                  (case answer_query env Kind_Json n wire_query ctx of
                     (Some resp, ctx') \<Rightarrow> (Some (200, wire_to_json_response dns_name qtype_val (hr_message resp)), ctx')
                   | (None, ctx') \<Rightarrow> (None, ctx'))))"

section \<open>Listener start\<close>

definition run_doh ::
    "(string \<Rightarrow> string \<Rightarrow> string + unit) \<Rightarrow> doh_listener_config \<Rightarrow> string + socket_addr" where
  "run_doh from_pem_file cfg =
     (case parse_sockaddr (doh_listen cfg) of
        None \<Rightarrow> Inl (''invalid DoH listen address '' @ doh_listen cfg)
      | Some addr \<Rightarrow>
          rbind (map_err (\<lambda>e. ''failed to load TLS config: '' @ e)
                  (from_pem_file (doh_cert_file cfg) (doh_key_file cfg))) (\<lambda>_. Inr addr))"

definition run_doj :: "doj_listener_config \<Rightarrow> string + server_task" where
  "run_doj cfg = listener_start ''DoJ'' bind_tcp (doj_listen cfg) (doj_ipv6_only cfg)"

section \<open>Lemmas\<close>

lemma from_str_name_ok:
  assumes "from_str s = Inr n"
  shows "name_ok n"
proof -
  have "name_ok root" using name_ok_of_labels [of "[]"] by (simp add: root_of_labels)
  moreover have "from_labels (map as_bytes (split_on CHR ''.'' (trim_end_matches CHR ''.'' s))) = Inr n"
    if "n \<noteq> root"
    using assms that by (auto simp: from_str_def from_labels_def Let_def split: if_splits)
  ultimately show ?thesis using from_labels_name_ok by blast
qed

text \<open>On the wire the type is a number: a type with a meta code is read back as the meta type.\<close>

definition doj_query :: "u16 \<Rightarrow> domain_name \<Rightarrow> u16 \<Rightarrow> dns_message" where
  "doj_query i domain qt = message_query i (question_new domain (qtype_from_u16 qt) (QC_Class RC_In))"

lemma build_wire_query_read_back:
  assumes "build_wire_query i name qt = Inr wire" "from_str name = Inr domain"
  shows "from_wire wire = Inr (doj_query i domain qt)"
proof -
  let ?q = "question_new domain (qtype_from_u16 qt) (QC_Class RC_In)"
  have "qclass_ok (QC_Class RC_In)" by code_simp
  then have ok: "message_ok (doj_query i domain qt)"
    using message_query_ok [of ?q i] from_str_name_ok [OF assms(2)]
    by (simp add: doj_query_def question_ok_def question_new_def)
  have rd: "(message_query i q)\<lparr>m_header := (m_header (message_query i q))\<lparr>h_rd := True\<rparr>\<rparr> = message_query i q" for q
    by (simp add: message_query_def header_query_def)
  have "wire = to_wire (message_query i (question_new domain (QT_Type (record_type_from_u16 qt)) (QC_Class RC_In)))"
    using assms rd by (simp add: build_wire_query_def Let_def)
  also have "\<dots> = to_wire (doj_query i domain qt)"
    by (simp add: to_wire_def message_write_to_def message_query_def doj_query_def question_write_def question_new_def)
  finally show ?thesis
    using from_wire_message_wire [OF ok, of wire "[]"] by (simp add: to_wire_eq [OF ok])
qed

lemma ensure_trailing_dot_idem [simp]: "ensure_trailing_dot (ensure_trailing_dot s) = ensure_trailing_dot s"
  by (simp add: ensure_trailing_dot_def)

section \<open>Properties\<close>


lemma sample_ready: "env_ok stream_sample_env" "context_ready handler_sample_context"
proof -
  show "env_ok stream_sample_env" by (simp add: env_ok_def stream_sample_env_def ids_echoed_def)
  show "context_ready handler_sample_context"
    by (simp add: handler_sample_context_def context_new_def context_ready_def context_ok_def ttl_ordered_def)
      (simp add: cache_new_def dm.get_new minimal_config_def cache_config_default_def default_min_ttl_def default_max_ttl_def)
qed


text \<open>Both DoH methods are the same service: a query sent as the base64url parameter of a \<^verbatim>\<open>GET\<close> gets the
  same response and leaves the same context as the query sent as the body of a \<^verbatim>\<open>POST\<close>, namely the bytes the
  handler answers with; and a parameter or body the handlers cannot use is refused without touching the
  context.\<close>

theorem doh_get_post_agree:
  assumes "query \<noteq> []" "content_type \<in> {None, Some (Some ''application/dns-message'')}"
  shows "doh_get_handler env n [''dns'' \<mapsto> doh_encode_get query] ctx = doh_answer env n query ctx \<and>
    doh_post_handler env n content_type query ctx = doh_answer env n query ctx \<and>
    doh_get_handler env n Map.empty ctx = (Some (Inl (400, ''missing 'dns' query parameter'')), ctx) \<and>
    doh_post_handler env n content_type [] ctx = (Some (Inl (400, ''invalid DoH body: empty DoH body'')), ctx)"
  using assms b64url_roundtrip [of query]
  by (auto simp: doh_get_handler_def doh_post_handler_def doh_decode_get_def doh_encode_get_def doh_decode_post_def
      Let_def)



text \<open>Type names are read without regard to case, and numbers name their own type.\<close>

theorem qtype_value_names:
  "qtype_value ''aaaa'' = 28 \<and> qtype_value ''Https'' = 65 \<and> qtype_value ''257'' = 257 \<and> qtype_value ''65536'' = 1 \<and>
   qtype_value ''DS'' = 1"
  by code_simp

section \<open>Where code and documentation part\<close>

text \<open>The comment beside the error reply calls its status \<^verbatim>\<open>SERVFAIL\<close>; it is the code of \<^verbatim>\<open>FORMERR\<close>.\<close>

theorem error_reply_is_formerr:
  "jr_status doj_error_response = doj_status Rc_FormErr \<and> jr_status doj_error_response \<noteq> doj_status Rc_ServFail"
  by (simp add: doj_error_response_def doj_status_def)

text \<open>The configuration can switch the two methods off; the router does not look at it.\<close>

theorem doh_method_switches_ignored:
  "doh_router (cfg\<lparr>doh_allow_get := False, doh_allow_post := False\<rparr>) (doh_path cfg) Get = Route_Get \<and>
   doh_router (cfg\<lparr>doh_allow_get := False, doh_allow_post := False\<rparr>) (doh_path cfg) Post = Route_Post"
  by (simp add: doh_router_def)

end
