(* ===== verification/Blackhole.thy ===== *)
theory Blackhole
  imports Config
begin

text \<open>
  The blackhole HTTP acceptor, \<^verbatim>\<open>border-dns-runtime/src/blackhole.rs\<close>: it reads what a client sends until
  a limit and answers \<^verbatim>\<open>202 Accepted\<close>.

  A connection is the endless sequence of the results its reads would have; every read returns
  because of its two second timeout. The loop is a partial function: \<open>None\<close> would mean that it never
  ends, and \<open>headers_drained\<close> shows that it always does.
\<close>

definition RESPONSE_202 :: string where
  "RESPONSE_202 = (let crlf = map char_of [13 :: nat, 10] in
     ''HTTP/1.1 202 Accepted'' @ crlf @ ''Content-Length: 0'' @ crlf @ ''Connection: close'' @ crlf @ crlf)"

section \<open>One connection\<close>

text \<open>The result of \<^verbatim>\<open>timeout(2s, stream.read(&mut buf))\<close>: bytes, at most 1024 of them and none at the end
  of the stream, or an I/O error or timeout.\<close>

datatype read_result = Got "u8 list" | Read_Failed

definition BLACKHOLE_BUF :: nat where "BLACKHOLE_BUF = 1024"

definition windows :: "nat \<Rightarrow> 'a list \<Rightarrow> 'a list list" where
  "windows n xs = map (\<lambda>i. take n (drop i xs)) [0 ..< Suc (length xs) - n]"

fun position :: "('a \<Rightarrow> bool) \<Rightarrow> 'a list \<Rightarrow> nat option" where
  "position P [] = None"
| "position P (x # xs) = (if P x then Some 0 else map_option Suc (position P xs))"

text \<open>The loop, from the \<open>k\<close>-th read on; the result is the number of bytes read and of reads made.\<close>

partial_function (option) drain_headers ::
    "(nat \<Rightarrow> read_result) \<Rightarrow> nat \<Rightarrow> nat \<Rightarrow> nat \<Rightarrow> (nat \<times> nat) option" where
  "drain_headers reads max_header_bytes k total_read =
     (case reads k of
        Read_Failed \<Rightarrow> Some (total_read, Suc k)
      | Got buf \<Rightarrow>
          if length buf = 0 then Some (total_read, Suc k)
          else let total_read = total_read + length buf in
            if total_read > max_header_bytes then Some (total_read, Suc k)
            else if position (\<lambda>w. w = [13, 10, 13, 10]) (windows 2 buf) \<noteq> None then Some (total_read, Suc k)
            else drain_headers reads max_header_bytes (Suc k) total_read)"

definition handle_connection :: "(nat \<Rightarrow> read_result) \<Rightarrow> nat \<Rightarrow> ((nat \<times> nat) \<times> string) option" where
  "handle_connection reads max_header_bytes =
     (case drain_headers reads max_header_bytes 0 0 of
        Some r \<Rightarrow> Some (r, RESPONSE_202)
      | None \<Rightarrow> None)"

section \<open>Listeners\<close>

datatype accept_event = Accept "nat \<Rightarrow> read_result" | Accept_Failed | Shutdown

text \<open>The accept loop over the events it sees; the result lists the connections it handled.\<close>

fun run_listener :: "nat \<Rightarrow> accept_event list \<Rightarrow> (((nat \<times> nat) \<times> string) option) list" where
  "run_listener max_header_bytes [] = []"
| "run_listener max_header_bytes (Accept reads # es) =
     handle_connection reads max_header_bytes # run_listener max_header_bytes es"
| "run_listener max_header_bytes (Accept_Failed # es) = run_listener max_header_bytes es"
| "run_listener max_header_bytes (Shutdown # es) = []"

text \<open>\<^verbatim>\<open>BlackholeAcceptor::start\<close>: the addresses on which a listener runs. A port that cannot be bound is
  skipped; \<open>bind\<close> says which ones can.\<close>

definition socket_addr_new :: "ip_addr \<Rightarrow> u16 \<Rightarrow> socket_addr" where
  "socket_addr_new ip port = (case ip of V4 os \<Rightarrow> Sock_V4 os port | V6 os \<Rightarrow> Sock_V6 os 0 port)"

definition blackhole_start :: "(socket_addr \<Rightarrow> bool) \<Rightarrow> blackhole_config \<Rightarrow> string + socket_addr list" where
  "blackhole_start bind config =
     (if \<not> bh_enabled config then Inr []
      else case parse_ip_addr (bh_listen config) of
        None \<Rightarrow> Inl ''invalid blackhole listen address''
      | Some listen_addr \<Rightarrow> Inr (filter bind (map (socket_addr_new listen_addr) (bh_ports config))))"

section \<open>Lemmas\<close>

lemma windows_length: "w \<in> set (windows n xs) \<Longrightarrow> length w = n"
  by (auto simp: windows_def)

lemma position_None: "(\<And>x. x \<in> set xs \<Longrightarrow> \<not> P x) \<Longrightarrow> position P xs = None"
  by (induction xs) auto

text \<open>A window of two bytes never equals the four bytes it is compared with.\<close>

lemma end_of_headers_not_found: "position (\<lambda>w. w = [13, 10, 13, 10 :: u8]) (windows 2 buf) = None"
  using windows_length [of _ 2 buf] by (intro position_None) fastforce

lemma drain_headers_step:
  "drain_headers reads m k acc =
     (case reads k of
        Read_Failed \<Rightarrow> Some (acc, Suc k)
      | Got buf \<Rightarrow>
          if buf = [] then Some (acc, Suc k)
          else if acc + length buf > m then Some (acc + length buf, Suc k)
          else drain_headers reads m (Suc k) (acc + length buf))"
  by (subst drain_headers.simps) (simp add: end_of_headers_not_found split: read_result.split)

definition bounded_reads :: "(nat \<Rightarrow> read_result) \<Rightarrow> bool" where
  "bounded_reads reads \<longleftrightarrow> (\<forall>k buf. reads k = Got buf \<longrightarrow> length buf \<le> BLACKHOLE_BUF)"

lemma drain_headers_total:
  assumes "acc \<le> m"
  shows "\<exists>n j. drain_headers reads m k acc = Some (n, j) \<and> j \<le> k + (m - acc) + 1 \<and>
    (bounded_reads reads \<longrightarrow> n \<le> m + BLACKHOLE_BUF)"
  using assms
proof (induction "m - acc" arbitrary: k acc rule: less_induct)
  case less
  show ?case
  proof (cases "reads k")
    case Read_Failed
    with less.prems show ?thesis by (simp add: drain_headers_step [of reads m k])
  next
    case (Got buf)
    consider "buf = []" | "buf \<noteq> []" "m < acc + length buf" | "buf \<noteq> []" "acc + length buf \<le> m" by linarith
    then show ?thesis
    proof cases
      case 2
      with Got less.prems show ?thesis
        by (auto simp: drain_headers_step [of reads m k] bounded_reads_def dest!: spec [of _ k])
    next
      case 3
      then have "m - (acc + length buf) < m - acc" by (cases buf) auto
      from less.hyps [OF this] 3 obtain n j where "drain_headers reads m (Suc k) (acc + length buf) = Some (n, j)"
          "j \<le> Suc k + (m - (acc + length buf)) + 1" "bounded_reads reads \<longrightarrow> n \<le> m + BLACKHOLE_BUF"
        by blast
      moreover have "Suc k + (m - (acc + length buf)) + 1 \<le> k + (m - acc) + 1"
        using 3 by (cases buf) auto
      ultimately show ?thesis using 3 Got by (auto simp: drain_headers_step [of reads m k])
    qed (use Got less.prems in \<open>simp add: drain_headers_step [of reads m k]\<close>)
  qed
qed

section \<open>Properties\<close>

text \<open>C26: whatever a client sends and however long it goes on, the acceptor stops reading and answers: it
  makes at most one read more than the header limit has bytes, takes in at most the limit and one
  buffer, and then sends the fixed \<^verbatim>\<open>202\<close> response.\<close>

theorem headers_drained:
  "\<exists>n j. handle_connection reads m = Some ((n, j), RESPONSE_202) \<and> j \<le> m + 1 \<and>
     (bounded_reads reads \<longrightarrow> n \<le> m + BLACKHOLE_BUF)"
  using drain_headers_total [of 0 m reads 0] by (auto simp: handle_connection_def)

theorem headers_drained_witness:
  "\<exists>n j. handle_connection (\<lambda>_. Got [71, 69, 84]) 4 = Some ((n, j), RESPONSE_202) \<and> j \<le> 5 \<and> n \<le> 4 + 1024"
  using headers_drained [of "\<lambda>_. Got [71, 69, 84]" 4] by (simp add: bounded_reads_def BLACKHOLE_BUF_def)

section \<open>Where code and documentation part\<close>

text \<open>The comment says that a double CRLF ends the headers. It is looked for among windows of two bytes, so a
  client that has sent a complete request and waits for the answer gets it only after the read timeout.\<close>

theorem complete_request_waits_for_timeout:
  assumes "reads 0 = Got request" "request \<noteq> []" "length request \<le> m" "reads 1 = Read_Failed"
  shows "handle_connection reads m = Some ((length request, 2), RESPONSE_202)"
  using assms by (simp add: handle_connection_def drain_headers_step [of reads m 0] drain_headers_step [of reads m "Suc 0"])

end
