(* ===== verification/Facts_Schema.thy ===== *)
theory Facts_Schema
  imports Prelude
begin

text \<open>
  The enumerations of \<^verbatim>\<open>border-dns-facts/src/schema/enums.rs\<close> with their string forms, and the
  threshold records of \<^verbatim>\<open>thresholds/thresholds.rs\<close> with their default values.

  The string forms are what is written to the fact store and what the scoring input carries for
  a route; they are injective, so a stored value determines the variant.
\<close>

section \<open>Enumerations\<close>

datatype governance_phase =
    Phase_New | Phase_Learning | Phase_Suggested | Phase_Stable | Phase_Review
  | Phase_Fallback

fun phase_as_str :: "governance_phase \<Rightarrow> string" where
  "phase_as_str Phase_New = ''new''"
| "phase_as_str Phase_Learning = ''learning''"
| "phase_as_str Phase_Suggested = ''suggested''"
| "phase_as_str Phase_Stable = ''stable''"
| "phase_as_str Phase_Review = ''review''"
| "phase_as_str Phase_Fallback = ''fallback''"

definition governance_phase_default :: governance_phase where
  "governance_phase_default = Phase_New"

datatype observer_scope =
    Scope_Local | Scope_ThirdParty | Scope_Peer | Scope_Synthetic

fun observer_scope_as_str :: "observer_scope \<Rightarrow> string" where
  "observer_scope_as_str Scope_Local = ''local''"
| "observer_scope_as_str Scope_ThirdParty = ''third_party''"
| "observer_scope_as_str Scope_Peer = ''peer''"
| "observer_scope_as_str Scope_Synthetic = ''synthetic''"

definition observer_scope_default :: observer_scope where
  "observer_scope_default = Scope_Local"

datatype observer_location =
    Observer_China | Observer_Foreign | Observer_Unknown

fun observer_location_as_str :: "observer_location \<Rightarrow> string" where
  "observer_location_as_str Observer_China = ''china''"
| "observer_location_as_str Observer_Foreign = ''foreign''"
| "observer_location_as_str Observer_Unknown = ''unknown''"

definition observer_location_default :: observer_location where
  "observer_location_default = Observer_Unknown"

datatype domain_intent =
    ChinaIntent | ForeignIntent | GlobalIntent | MixedIntent | UnknownIntent

fun domain_intent_as_str :: "domain_intent \<Rightarrow> string" where
  "domain_intent_as_str ChinaIntent = ''china_intent''"
| "domain_intent_as_str ForeignIntent = ''foreign_intent''"
| "domain_intent_as_str GlobalIntent = ''global_intent''"
| "domain_intent_as_str MixedIntent = ''mixed_intent''"
| "domain_intent_as_str UnknownIntent = ''unknown_intent''"

definition domain_intent_default :: domain_intent where
  "domain_intent_default = UnknownIntent"

datatype cname_scope =
    Cname_None | Cname_SameSite | Cname_CnProvider | Cname_ForeignProvider | Cname_GlobalCdn
  | Cname_CdnLike | Cname_ThirdParty | Cname_MixedChain | Cname_Unknown

fun cname_scope_as_str :: "cname_scope \<Rightarrow> string" where
  "cname_scope_as_str Cname_None = ''none''"
| "cname_scope_as_str Cname_SameSite = ''same_site''"
| "cname_scope_as_str Cname_CnProvider = ''cn_provider''"
| "cname_scope_as_str Cname_ForeignProvider = ''foreign_provider''"
| "cname_scope_as_str Cname_GlobalCdn = ''global_cdn''"
| "cname_scope_as_str Cname_CdnLike = ''cdn_like''"
| "cname_scope_as_str Cname_ThirdParty = ''third_party''"
| "cname_scope_as_str Cname_MixedChain = ''mixed_chain''"
| "cname_scope_as_str Cname_Unknown = ''unknown''"

definition cname_scope_default :: cname_scope where
  "cname_scope_default = Cname_Unknown"

datatype tls_identity_status =
    Tls_ExactMatch | Tls_CnameMatch | Tls_Mismatch | Tls_ProbeFailed | Tls_NotApplicable
  | Tls_Unknown

fun tls_identity_status_as_str :: "tls_identity_status \<Rightarrow> string" where
  "tls_identity_status_as_str Tls_ExactMatch = ''exact_match''"
| "tls_identity_status_as_str Tls_CnameMatch = ''cname_match''"
| "tls_identity_status_as_str Tls_Mismatch = ''mismatch''"
| "tls_identity_status_as_str Tls_ProbeFailed = ''probe_failed''"
| "tls_identity_status_as_str Tls_NotApplicable = ''not_applicable''"
| "tls_identity_status_as_str Tls_Unknown = ''unknown''"

definition tls_identity_status_default :: tls_identity_status where
  "tls_identity_status_default = Tls_Unknown"

datatype probe_quality =
    Probe_Good | Probe_Acceptable | Probe_Poor | Probe_Failed | Probe_Unstable
  | Probe_Unknown

fun probe_quality_as_str :: "probe_quality \<Rightarrow> string" where
  "probe_quality_as_str Probe_Good = ''good''"
| "probe_quality_as_str Probe_Acceptable = ''acceptable''"
| "probe_quality_as_str Probe_Poor = ''poor''"
| "probe_quality_as_str Probe_Failed = ''failed''"
| "probe_quality_as_str Probe_Unstable = ''unstable''"
| "probe_quality_as_str Probe_Unknown = ''unknown''"

definition probe_quality_default :: probe_quality where
  "probe_quality_default = Probe_Unknown"

datatype evidence_strength =
    Evidence_None | Evidence_Weak | Evidence_Moderate | Evidence_Strong | Evidence_Conflicting

fun evidence_strength_as_str :: "evidence_strength \<Rightarrow> string" where
  "evidence_strength_as_str Evidence_None = ''none''"
| "evidence_strength_as_str Evidence_Weak = ''weak''"
| "evidence_strength_as_str Evidence_Moderate = ''moderate''"
| "evidence_strength_as_str Evidence_Strong = ''strong''"
| "evidence_strength_as_str Evidence_Conflicting = ''conflicting''"

definition evidence_strength_default :: evidence_strength where
  "evidence_strength_default = Evidence_None"

datatype conflict_kind =
    MixedGeoSoft | RouteOppositeHard | TlsIdentityMismatchHard | ThirdPartyMismatchSoft | ProbeQualityWeak

fun conflict_kind_as_str :: "conflict_kind \<Rightarrow> string" where
  "conflict_kind_as_str MixedGeoSoft = ''mixed_geo_soft''"
| "conflict_kind_as_str RouteOppositeHard = ''route_opposite_hard''"
| "conflict_kind_as_str TlsIdentityMismatchHard = ''tls_identity_mismatch_hard''"
| "conflict_kind_as_str ThirdPartyMismatchSoft = ''third_party_mismatch_soft''"
| "conflict_kind_as_str ProbeQualityWeak = ''probe_quality_weak''"

fun is_hard :: "conflict_kind \<Rightarrow> bool" where
  "is_hard RouteOppositeHard = True"
| "is_hard TlsIdentityMismatchHard = True"
| "is_hard _ = False"

datatype meaningful_event_kind =
    Event_FirstSeenDomain | Event_RouteDecisionChanged | Event_PhaseChanged | Event_SuggestedPromoted | Event_StablePromoted
  | Event_ReviewEntered | Event_FallbackEntered | Event_MixedGeoObserved | Event_TlsIdentityMismatch | Event_ThirdPartyAlignment
  | Event_ThirdPartyMismatch | Event_CnameChainChanged | Event_GeoScopeChanged | Event_UpstreamRepeatedFailure | Event_ManualCorrection

fun event_kind_as_str :: "meaningful_event_kind \<Rightarrow> string" where
  "event_kind_as_str Event_FirstSeenDomain = ''first_seen_domain''"
| "event_kind_as_str Event_RouteDecisionChanged = ''route_decision_changed''"
| "event_kind_as_str Event_PhaseChanged = ''phase_changed''"
| "event_kind_as_str Event_SuggestedPromoted = ''suggested_promoted''"
| "event_kind_as_str Event_StablePromoted = ''stable_promoted''"
| "event_kind_as_str Event_ReviewEntered = ''review_entered''"
| "event_kind_as_str Event_FallbackEntered = ''fallback_entered''"
| "event_kind_as_str Event_MixedGeoObserved = ''mixed_geo_observed''"
| "event_kind_as_str Event_TlsIdentityMismatch = ''tls_identity_mismatch''"
| "event_kind_as_str Event_ThirdPartyAlignment = ''third_party_alignment''"
| "event_kind_as_str Event_ThirdPartyMismatch = ''third_party_mismatch''"
| "event_kind_as_str Event_CnameChainChanged = ''cname_chain_changed''"
| "event_kind_as_str Event_GeoScopeChanged = ''geo_scope_changed''"
| "event_kind_as_str Event_UpstreamRepeatedFailure = ''upstream_repeated_failure''"
| "event_kind_as_str Event_ManualCorrection = ''manual_correction''"

datatype third_party_mode =
    ThirdParty_Disabled | ThirdParty_Enabled

fun third_party_mode_as_str :: "third_party_mode \<Rightarrow> string" where
  "third_party_mode_as_str ThirdParty_Disabled = ''disabled''"
| "third_party_mode_as_str ThirdParty_Enabled = ''enabled''"

definition third_party_mode_default :: third_party_mode where
  "third_party_mode_default = ThirdParty_Disabled"

fun third_party_is_enabled :: "third_party_mode \<Rightarrow> bool" where
  "third_party_is_enabled ThirdParty_Enabled = True"
| "third_party_is_enabled ThirdParty_Disabled = False"

datatype fact_status =
    Fact_Observed | Fact_Candidate | Fact_Promoted | Fact_Rejected | Fact_Expired
  | Fact_Degraded | Fact_Conflicting

fun fact_status_as_str :: "fact_status \<Rightarrow> string" where
  "fact_status_as_str Fact_Observed = ''observed''"
| "fact_status_as_str Fact_Candidate = ''candidate''"
| "fact_status_as_str Fact_Promoted = ''promoted''"
| "fact_status_as_str Fact_Rejected = ''rejected''"
| "fact_status_as_str Fact_Expired = ''expired''"
| "fact_status_as_str Fact_Degraded = ''degraded''"
| "fact_status_as_str Fact_Conflicting = ''conflicting''"

definition fact_status_default :: fact_status where
  "fact_status_default = Fact_Observed"

section \<open>String forms determine the variant\<close>

lemma as_str_injective:
  "inj phase_as_str" "inj observer_scope_as_str" "inj observer_location_as_str" "inj domain_intent_as_str"
  "inj cname_scope_as_str" "inj tls_identity_status_as_str" "inj probe_quality_as_str"
  "inj evidence_strength_as_str" "inj conflict_kind_as_str" "inj event_kind_as_str"
  "inj third_party_mode_as_str" "inj fact_status_as_str"
proof -
  show "inj phase_as_str"
    by (rule injI, case_tac x; case_tac y) simp_all
  show "inj observer_scope_as_str"
    by (rule injI, case_tac x; case_tac y) simp_all
  show "inj observer_location_as_str"
    by (rule injI, case_tac x; case_tac y) simp_all
  show "inj domain_intent_as_str"
    by (rule injI, case_tac x; case_tac y) simp_all
  show "inj cname_scope_as_str"
    by (rule injI, case_tac x; case_tac y) simp_all
  show "inj tls_identity_status_as_str"
    by (rule injI, case_tac x; case_tac y) simp_all
  show "inj probe_quality_as_str"
    by (rule injI, case_tac x; case_tac y) simp_all
  show "inj evidence_strength_as_str"
    by (rule injI, case_tac x; case_tac y) simp_all
  show "inj conflict_kind_as_str"
    by (rule injI, case_tac x; case_tac y) simp_all
  show "inj event_kind_as_str"
    by (rule injI, case_tac x; case_tac y) simp_all
  show "inj third_party_mode_as_str"
    by (rule injI, case_tac x; case_tac y) simp_all
  show "inj fact_status_as_str"
    by (rule injI, case_tac x; case_tac y) simp_all
qed

section \<open>Thresholds\<close>

record mixed_evidence_thresholds =
  me_mixed_freeze_threshold :: u32
  me_mixed_degrade_threshold :: u32
  me_mixed_window_hours :: u32

definition mixed_evidence_thresholds_default :: mixed_evidence_thresholds where
  "mixed_evidence_thresholds_default =
     \<lparr>me_mixed_freeze_threshold = 3,
      me_mixed_degrade_threshold = 10,
      me_mixed_window_hours = 24\<rparr>"

record stable_promotion_thresholds =
  sp_min_observations :: u32
  sp_min_local_alignment :: u32
  sp_min_third_party_alignment :: u32
  sp_min_distinct_third_party :: u32
  sp_max_mixed_24h :: u32
  sp_max_hard_conflict_24h :: u32
  sp_min_no_conflict_streak :: u32

definition stable_promotion_thresholds_default :: stable_promotion_thresholds where
  "stable_promotion_thresholds_default =
     \<lparr>sp_min_observations = 20,
      sp_min_local_alignment = 5,
      sp_min_third_party_alignment = 2,
      sp_min_distinct_third_party = 2,
      sp_max_mixed_24h = 2,
      sp_max_hard_conflict_24h = 0,
      sp_min_no_conflict_streak = 10\<rparr>"

record local_only_stable_thresholds =
  lo_min_observations :: u32
  lo_min_local_alignment :: u32
  lo_max_mixed_24h :: u32
  lo_max_hard_conflict_24h :: u32
  lo_min_no_conflict_streak :: u32

definition local_only_stable_thresholds_default :: local_only_stable_thresholds where
  "local_only_stable_thresholds_default =
     \<lparr>lo_min_observations = 50,
      lo_min_local_alignment = 15,
      lo_max_mixed_24h = 2,
      lo_max_hard_conflict_24h = 0,
      lo_min_no_conflict_streak = 20\<rparr>"

record review_thresholds =
  rv_hard_conflict_threshold :: u32
  rv_tls_mismatch_threshold :: u32
  rv_route_opposite_threshold :: u32
  rv_mixed_degrade_threshold :: u32
  rv_consecutive_failure_threshold :: u32

definition review_thresholds_default :: review_thresholds where
  "review_thresholds_default =
     \<lparr>rv_hard_conflict_threshold = 3,
      rv_tls_mismatch_threshold = 2,
      rv_route_opposite_threshold = 3,
      rv_mixed_degrade_threshold = 10,
      rv_consecutive_failure_threshold = 5\<rparr>"

record fallback_thresholds =
  fb_review_max_duration_hours :: u32
  fb_fallback_hard_conflict_threshold :: u32
  fb_fallback_route_opposite_threshold :: u32

definition fallback_thresholds_default :: fallback_thresholds where
  "fallback_thresholds_default =
     \<lparr>fb_review_max_duration_hours = 6,
      fb_fallback_hard_conflict_threshold = 5,
      fb_fallback_route_opposite_threshold = 5\<rparr>"

record governance_thresholds =
  th_mixed_evidence :: mixed_evidence_thresholds
  th_stable_with_third_party :: stable_promotion_thresholds
  th_stable_local_only :: local_only_stable_thresholds
  th_review :: review_thresholds
  th_fallback :: fallback_thresholds
  th_third_party_mode :: third_party_mode

definition governance_thresholds_default :: governance_thresholds where
  "governance_thresholds_default =
     \<lparr>th_mixed_evidence = mixed_evidence_thresholds_default,
      th_stable_with_third_party = stable_promotion_thresholds_default,
      th_stable_local_only = local_only_stable_thresholds_default,
      th_review = review_thresholds_default,
      th_fallback = fallback_thresholds_default,
      th_third_party_mode = third_party_mode_default\<rparr>"

lemmas thresholds_default_defs =
  governance_thresholds_default_def mixed_evidence_thresholds_default_def
  stable_promotion_thresholds_default_def local_only_stable_thresholds_default_def
  review_thresholds_default_def fallback_thresholds_default_def third_party_mode_default_def

end
