(* ===== verification/Float32.thy ===== *)
theory Float32
  imports Complex_Main
begin

text \<open>
  The binary floating point arithmetic the scoring code uses. A finite \<^verbatim>\<open>f32\<close> or \<^verbatim>\<open>f64\<close> is the
  rational number it stands for; every operation is the exact operation followed by rounding to
  the nearest representable number, ties to even. Overflow, infinities and not-a-number do not
  arise: the program only adds, scales and compares small non-negative scores.
\<close>

type_synonym f32 = rat
type_synonym f64 = rat

definition pow2 :: "int \<Rightarrow> rat" where
  "pow2 e = (if 0 \<le> e then 2 ^ nat e else 1 / 2 ^ nat (- e))"

text \<open>The number of binary digits of a positive integer.\<close>

function bit_len :: "int \<Rightarrow> nat" where
  "bit_len a = (if a \<le> 0 then 0 else Suc (bit_len (a div 2)))"
  by pat_completeness auto
termination
  by (relation "measure nat") auto

declare bit_len.simps [simp del]

text \<open>The exponent of a positive number: \<open>2\<^sup>e \<le> x < 2\<^sup>e\<^sup>+\<^sup>1\<close>.\<close>

definition binary_exponent :: "rat \<Rightarrow> int" where
  "binary_exponent x =
     (let (a, b) = quotient_of x;
          k = int (bit_len a) - int (bit_len b)
      in if pow2 k \<le> x then k else k - 1)"

definition round_half_even :: "rat \<Rightarrow> int" where
  "round_half_even x =
     (let f = \<lfloor>x\<rfloor>; r = x - of_int f in
      if r < 1 / 2 then f else if 1 / 2 < r then f + 1 else if even f then f else f + 1)"

text \<open>Rounding to a significand of \<open>p\<close> bits with smallest exponent \<open>emin\<close>.\<close>

definition float_round :: "nat \<Rightarrow> int \<Rightarrow> rat \<Rightarrow> rat" where
  "float_round p emin x =
     (if x = 0 then 0
      else let e = max (binary_exponent \<bar>x\<bar>) emin; q = pow2 (e - int p + 1)
        in of_int (round_half_even (x / q)) * q)"

definition f32_round :: "rat \<Rightarrow> f32" where
  "f32_round = float_round 24 (-126)"

definition f64_round :: "rat \<Rightarrow> f64" where
  "f64_round = float_round 53 (-1022)"

text \<open>\<^verbatim>\<open>f32::round\<close> and \<^verbatim>\<open>f64::round\<close>: the nearest integer, halves away from zero.\<close>

definition float_to_nearest :: "rat \<Rightarrow> rat" where
  "float_to_nearest x = (if 0 \<le> x then of_int \<lfloor>x + 1 / 2\<rfloor> else - of_int \<lfloor>- x + 1 / 2\<rfloor>)"

section \<open>Laws of rounding\<close>

lemma pow2_pos [simp]: "0 < pow2 e"
  by (simp add: pow2_def)

lemma pow2_neq_0 [simp]: "pow2 e \<noteq> 0"
  using pow2_pos [of e] by linarith

lemma pow2_add: "pow2 (a + int n) = pow2 a * 2 ^ n"
proof -
  have "pow2 a * 2 ^ n = 2 ^ n / 2 ^ nat (- a)" if "a < 0"
    using that by (simp add: pow2_def)
  moreover have "(2 :: rat) ^ n / 2 ^ m = (if m \<le> n then 2 ^ (n - m) else 1 / 2 ^ (m - n))" for m
    by (simp add: power_diff)
  moreover have "nat (a + int n) = n - nat (- a)" "nat (- (a + int n)) = nat (- a) - n" if "a < 0"
    using that by auto
  ultimately show ?thesis
    by (auto simp: pow2_def nat_add_distrib power_add not_le)
qed

lemma pow2_mono: "a \<le> b \<Longrightarrow> pow2 a \<le> pow2 b"
  using pow2_add [of a "nat (b - a)"] mult_left_mono [of 1 "2 ^ nat (b - a)" "pow2 a"]
  by (simp add: less_imp_le)

lemma round_half_even_mono: "x \<le> y \<Longrightarrow> round_half_even x \<le> round_half_even y"
proof -
  assume "x \<le> y"
  then have f: "\<lfloor>x\<rfloor> \<le> \<lfloor>y\<rfloor>" by (rule floor_mono)
  show ?thesis
  proof (cases "\<lfloor>x\<rfloor> = \<lfloor>y\<rfloor>")
    case True
    with \<open>x \<le> y\<close> show ?thesis by (auto simp: round_half_even_def Let_def)
  next
    case False
    with f have "\<lfloor>x\<rfloor> + 1 \<le> \<lfloor>y\<rfloor>" by simp
    then show ?thesis by (auto simp: round_half_even_def Let_def)
  qed
qed

lemma round_half_even_of_int [simp]: "round_half_even (of_int n) = n"
  by (simp add: round_half_even_def)

lemma round_half_even_0 [simp]: "round_half_even 0 = 0"
  using round_half_even_of_int [of 0] by simp

lemma round_half_even_nonneg: "0 \<le> x \<Longrightarrow> 0 \<le> round_half_even x"
  using round_half_even_mono [of 0 x] by simp

lemma bit_len_bounds: "0 < a \<Longrightarrow> 0 < bit_len a \<and> 2 ^ (bit_len a - 1) \<le> a \<and> a < 2 ^ bit_len a"
proof (induction a rule: bit_len.induct)
  case (1 a)
  show ?case
  proof (cases "a div 2 \<le> 0")
    case True
    with "1.prems" have "a = 1" by simp
    then show ?thesis by (simp add: bit_len.simps [of 1] bit_len.simps [of 0])
  next
    case False
    then have IH: "0 < bit_len (a div 2)" "2 ^ (bit_len (a div 2) - 1) \<le> a div 2" "a div 2 < 2 ^ bit_len (a div 2)"
      using "1.IH" "1.prems" by auto
    moreover have "bit_len a = Suc (bit_len (a div 2))"
      using "1.prems" by (simp add: bit_len.simps [of a])
    moreover have "(2 :: int) ^ bit_len (a div 2) = 2 * 2 ^ (bit_len (a div 2) - 1)"
      using IH(1) by (simp add: power_eq_if)
    moreover have "2 * (a div 2) \<le> a" "a < 2 * (a div 2) + 2" by auto
    ultimately show ?thesis by simp
  qed
qed

lemma binary_exponent_bounds:
  assumes "0 < x"
  shows "pow2 (binary_exponent x) \<le> x" "x < pow2 (binary_exponent x + 1)"
proof -
  obtain a b where q: "quotient_of x = (a, b)" by fastforce
  then have x: "x = of_int a / of_int b" "0 < b" by (auto dest: quotient_of_div quotient_of_denom_pos)
  with assms have a: "0 < a" by (simp add: zero_less_divide_iff)
  define m n where "m = bit_len a" and "n = bit_len b"
  have ub: "a < 2 ^ m" "2 ^ (m - 1) \<le> a" "b < 2 ^ n" "2 ^ (n - 1) \<le> b" and pos: "0 < m" "0 < n"
    using bit_len_bounds [OF a] bit_len_bounds [OF x(2)] by (auto simp: m_def n_def)
  have "(of_int a :: rat) < 2 ^ m" "2 ^ (m - 1) \<le> (of_int a :: rat)"
      "(of_int b :: rat) < 2 ^ n" "2 ^ (n - 1) \<le> (of_int b :: rat)"
    using ub by (metis of_int_less_iff of_int_le_iff of_int_numeral of_int_power)+
  note r = this
  have p: "pow2 (int i - int j) = 2 ^ i / 2 ^ j" for i j
    using pow2_add [of "- int j" i] by (simp add: pow2_def field_simps)
  have k1: "x < pow2 (int m - int n + 1)"
  proof -
    have "x \<le> of_int a / 2 ^ (n - 1)"
      unfolding x(1) using r(4) a x(2) by (intro divide_left_mono) auto
    also have "\<dots> < 2 ^ m / 2 ^ (n - 1)"
      using r(1) by (simp add: divide_strict_right_mono)
    also have "\<dots> = pow2 (int m - int n + 1)"
      using p [of m "n - 1"] pos by (simp add: algebra_simps)
    finally show ?thesis .
  qed
  have k2: "pow2 (int m - int n - 1) \<le> x"
  proof -
    have "pow2 (int m - int n - 1) = 2 ^ (m - 1) / 2 ^ n"
      using p [of "m - 1" n] pos by (simp add: algebra_simps)
    also have "\<dots> \<le> of_int a / 2 ^ n"
      using r(2) by (simp add: divide_right_mono)
    also have "\<dots> \<le> x"
      unfolding x(1) using r(3) a x(2) by (intro divide_left_mono) auto
    finally show ?thesis .
  qed
  show "pow2 (binary_exponent x) \<le> x" "x < pow2 (binary_exponent x + 1)"
    using k1 k2 by (auto simp: binary_exponent_def q Let_def m_def [symmetric] n_def [symmetric])
qed

text \<open>On non-negative numbers a rounded value is the quotient by the quantum, rounded, times the
  quantum; the quantum depends only on the exponent.\<close>

definition quantum :: "nat \<Rightarrow> int \<Rightarrow> rat \<Rightarrow> rat" where
  "quantum p emin x = pow2 (max (binary_exponent x) emin - int p + 1)"

lemma quantum_pos [simp]: "0 < quantum p emin x"
  by (simp add: quantum_def)

lemma float_round_pos:
  "0 < x \<Longrightarrow> float_round p emin x = of_int (round_half_even (x / quantum p emin x)) * quantum p emin x"
  by (simp add: float_round_def quantum_def Let_def)

lemma float_round_0 [simp]: "float_round p emin 0 = 0"
  by (simp add: float_round_def)

lemma binary_exponent_mono: "0 < x \<Longrightarrow> x \<le> y \<Longrightarrow> binary_exponent x \<le> binary_exponent y"
proof (rule ccontr)
  assume xy: "0 < x" "x \<le> y" "\<not> binary_exponent x \<le> binary_exponent y"
  then have "pow2 (binary_exponent y + 1) \<le> pow2 (binary_exponent x)"
    by (intro pow2_mono) simp
  with binary_exponent_bounds(1) [of x] binary_exponent_bounds(2) [of y] xy show False by simp
qed

lemma pow2_quantum:
  assumes "0 < p"
  shows "pow2 (max (binary_exponent x) emin) = 2 ^ (p - 1) * quantum p emin x"
    and "pow2 (max (binary_exponent x) emin + 1) = 2 ^ p * quantum p emin x"
proof -
  let ?e = "max (binary_exponent x) emin - int p + 1"
  have "pow2 (?e + int (p - 1)) = pow2 ?e * 2 ^ (p - 1)" "pow2 (?e + int p) = pow2 ?e * 2 ^ p"
    by (rule pow2_add)+
  moreover have "?e + int (p - 1) = max (binary_exponent x) emin"
      "?e + int p = max (binary_exponent x) emin + 1"
    using assms by (simp_all add: of_nat_diff)
  ultimately show "pow2 (max (binary_exponent x) emin) = 2 ^ (p - 1) * quantum p emin x"
      "pow2 (max (binary_exponent x) emin + 1) = 2 ^ p * quantum p emin x"
    by (simp_all add: quantum_def mult.commute)
qed

text \<open>A positive number rounds to at most the power of two above it, and to at least the one
  below it unless it is subnormal.\<close>

lemma float_round_upper:
  assumes "0 < p" "0 < x"
  shows "float_round p emin x \<le> pow2 (max (binary_exponent x) emin + 1)"
proof -
  let ?q = "quantum p emin x"
  have "x < pow2 (max (binary_exponent x) emin + 1)"
    using binary_exponent_bounds(2) [OF assms(2)] pow2_mono [of "binary_exponent x + 1"]
    by (meson add_le_cancel_right less_le_trans max.cobounded1)
  then have "x / ?q \<le> of_int (2 ^ p)"
    unfolding pow2_quantum(2) [OF assms(1)] by (simp add: pos_divide_le_eq)
  from round_half_even_mono [OF this] have "round_half_even (x / ?q) \<le> 2 ^ p"
    by (simp del: of_int_power)
  then have "of_int (round_half_even (x / ?q)) \<le> (2 ^ p :: rat)"
    by (metis of_int_le_iff of_int_numeral of_int_power)
  then show ?thesis
    unfolding pow2_quantum(2) [OF assms(1)] float_round_pos [OF assms(2)]
    by (simp add: mult_right_mono less_imp_le)
qed

lemma float_round_lower:
  assumes "0 < p" "0 < x" "emin \<le> binary_exponent x"
  shows "pow2 (binary_exponent x) \<le> float_round p emin x"
proof -
  let ?q = "quantum p emin x"
  have m: "max (binary_exponent x) emin = binary_exponent x" using assms(3) by simp
  have "of_int (2 ^ (p - 1)) \<le> x / ?q"
    using binary_exponent_bounds(1) [OF assms(2)] pow2_quantum(1) [OF assms(1), of x emin]
    by (simp add: pos_le_divide_eq m)
  from round_half_even_mono [OF this] have "2 ^ (p - 1) \<le> round_half_even (x / ?q)"
    by (simp del: of_int_power)
  then have "(2 ^ (p - 1) :: rat) \<le> of_int (round_half_even (x / ?q))"
    by (metis of_int_le_iff of_int_numeral of_int_power)
  then show ?thesis
    using pow2_quantum(1) [OF assms(1), of x emin]
    unfolding float_round_pos [OF assms(2)] m by (simp add: mult_right_mono less_imp_le)
qed

lemma float_round_nonneg: "0 \<le> x \<Longrightarrow> 0 \<le> float_round p emin x"
proof (cases "x = 0")
  case False
  assume "0 \<le> x"
  with False show ?thesis
    by (simp add: float_round_pos less_imp_le round_half_even_nonneg)
qed simp

lemma float_round_mono:
  assumes "0 < p" "0 \<le> x" "x \<le> y"
  shows "float_round p emin x \<le> float_round p emin y"
proof (cases "x = 0")
  case True
  with assms float_round_nonneg [of y] show ?thesis by simp
next
  case False
  with assms have x: "0 < x" "0 < y" by auto
  note mono = binary_exponent_mono [OF x(1) assms(3)]
  show ?thesis
  proof (cases "max (binary_exponent x) emin = max (binary_exponent y) emin")
    case True
    then have "quantum p emin x = quantum p emin y" by (simp add: quantum_def)
    moreover have "round_half_even (x / quantum p emin y) \<le> round_half_even (y / quantum p emin y)"
      using assms(3) by (intro round_half_even_mono divide_right_mono) (simp_all add: less_imp_le)
    ultimately show ?thesis
      by (simp add: float_round_pos x mult_right_mono less_imp_le)
  next
    case False
    with mono have e: "max (binary_exponent x) emin + 1 \<le> binary_exponent y" "emin \<le> binary_exponent y"
      by linarith+
    have "float_round p emin x \<le> pow2 (max (binary_exponent x) emin + 1)"
      by (rule float_round_upper [OF assms(1) x(1)])
    also have "\<dots> \<le> pow2 (binary_exponent y)" using e(1) by (rule pow2_mono)
    also have "\<dots> \<le> float_round p emin y" by (rule float_round_lower [OF assms(1) x(2) e(2)])
    finally show ?thesis .
  qed
qed

lemma round_half_even_minus: "round_half_even (- x) = - round_half_even x"
proof -
  define f r where "f = \<lfloor>x\<rfloor>" and "r = x - of_int f"
  have x: "x = of_int f + r" "0 \<le> r" "r < 1"
    using floor_correct [of x] by (auto simp: f_def r_def)
  show ?thesis
  proof (cases "r = 0")
    case True
    with x have "x = of_int f" by simp
    then show ?thesis using round_half_even_of_int [of "- f"] by simp
  next
    case False
    have "\<lfloor>- x\<rfloor> = - f - 1"
      using x False by (intro floor_unique) auto
    moreover have "\<lfloor>x\<rfloor> = f" by (simp add: f_def)
    moreover have "even (- f - 1) \<longleftrightarrow> odd f" by simp
    ultimately show ?thesis
      using x by (auto simp: round_half_even_def Let_def)
  qed
qed

lemma float_round_minus: "float_round p emin (- x) = - float_round p emin x"
  by (simp add: float_round_def Let_def round_half_even_minus)

lemmas f32_round_minus = float_round_minus [of 24 "-126", folded f32_round_def]
lemmas f32_round_mono = float_round_mono [of 24 _ _ "-126", folded f32_round_def, simplified]
lemmas f32_round_nonneg = float_round_nonneg [of _ 24 "-126", folded f32_round_def]

end
