(* ===== verification/Governance.thy ===== *)
theory Governance
  imports Facts_Schema Float32 Dash_Map
begin

text \<open>
  The governance of a domain: the state kept per domain (\<^verbatim>\<open>border-dns-facts/src/review/
  governance_state.rs\<close>), the store of these states (\<^verbatim>\<open>store/governance_store.rs\<close>) and the phase
  transition (\<^verbatim>\<open>border-dns-route-policy/src/governance_transition.rs\<close>).

  The clock is a parameter: a \<^verbatim>\<open>DateTime<Utc>\<close> is an integer number of nanoseconds. Counters
  keep their widths. The phase graph of the documentation is the relation \<open>phase_edge\<close>; every
  transition follows it, and each guard of the code is characterised.
\<close>

type_synonym datetime = int

definition nanos_per_hour :: int where
  "nanos_per_hour = 3600 * 1000000000"

text \<open>\<^verbatim>\<open>Duration::num_hours\<close>: whole hours, truncated towards zero.\<close>

definition num_hours :: "int \<Rightarrow> int" where
  "num_hours d = (if 0 \<le> d then d div nanos_per_hour else - ((- d) div nanos_per_hour))"

section \<open>State\<close>

record third_party_evidence_summary =
  tp_enabled :: bool
  tp_distinct_observers :: u32
  tp_china_observer_count :: u32
  tp_foreign_observer_count :: u32
  tp_unknown_observer_count :: u32
  tp_china_observer_china_aligned :: u32
  tp_china_observer_foreign_aligned :: u32
  tp_foreign_observer_china_aligned :: u32
  tp_foreign_observer_foreign_aligned :: u32
  tp_cross_location_divergence_count :: u32
  tp_same_location_conflict_count :: u32
  tp_tls_mismatch_count :: u32

definition third_party_summary_default :: third_party_evidence_summary where
  "third_party_summary_default =
     \<lparr>tp_enabled = False, tp_distinct_observers = 0, tp_china_observer_count = 0,
      tp_foreign_observer_count = 0, tp_unknown_observer_count = 0,
      tp_china_observer_china_aligned = 0, tp_china_observer_foreign_aligned = 0,
      tp_foreign_observer_china_aligned = 0, tp_foreign_observer_foreign_aligned = 0,
      tp_cross_location_divergence_count = 0, tp_same_location_conflict_count = 0,
      tp_tls_mismatch_count = 0\<rparr>"

record domain_governance_state =
  gs_domain :: string
  phase :: governance_phase
  current_route :: string
  prior_route :: string
  suggested_route :: string
  gs_china_score :: f32
  gs_foreign_score :: f32
  gs_score_margin :: f32
  observation_count :: u64
  meaningful_event_count :: u64
  local_alignment_count :: u32
  third_party_alignment_count :: u32
  distinct_third_party_observers :: u32
  mixed_count_24h :: u32
  soft_conflict_count_24h :: u32
  hard_conflict_count_24h :: u32
  tls_mismatch_count_24h :: u32
  route_opposite_count_24h :: u32
  consecutive_no_conflict_count :: u32
  consecutive_failure_count :: u32
  gs_can_promote :: bool
  promotion_frozen :: bool
  third_party_summary :: third_party_evidence_summary
  last_observed_at :: datetime
  last_transition_at :: datetime
  last_mixed_at :: "datetime option"
  last_hard_conflict_at :: "datetime option"
  last_tls_mismatch_at :: "datetime option"
  last_route_opposite_at :: "datetime option"
  last_soft_conflict_at :: "datetime option"
  state_version :: u64

definition governance_state_new :: "string \<Rightarrow> string \<Rightarrow> datetime \<Rightarrow> domain_governance_state" where
  "governance_state_new domain prior now =
     \<lparr>gs_domain = domain, phase = Phase_New, current_route = prior, prior_route = prior,
      suggested_route = [], gs_china_score = 0, gs_foreign_score = 0, gs_score_margin = 0,
      observation_count = 0, meaningful_event_count = 0, local_alignment_count = 0,
      third_party_alignment_count = 0, distinct_third_party_observers = 0, mixed_count_24h = 0,
      soft_conflict_count_24h = 0, hard_conflict_count_24h = 0, tls_mismatch_count_24h = 0,
      route_opposite_count_24h = 0, consecutive_no_conflict_count = 0,
      consecutive_failure_count = 0, gs_can_promote = False, promotion_frozen = False,
      third_party_summary = third_party_summary_default, last_observed_at = now,
      last_transition_at = now, last_mixed_at = None, last_hard_conflict_at = None,
      last_tls_mismatch_at = None, last_route_opposite_at = None, last_soft_conflict_at = None,
      state_version = 1\<rparr>"

text \<open>\<^verbatim>\<open>is_some_and(|t| now - t > window)\<close> for the 24 hour window.\<close>

definition outside_window :: "datetime \<Rightarrow> datetime option \<Rightarrow> bool" where
  "outside_window now stamp =
     (case stamp of Some t \<Rightarrow> now - t > 24 * nanos_per_hour | None \<Rightarrow> False)"

definition decay_24h_counters :: "datetime \<Rightarrow> domain_governance_state \<Rightarrow> domain_governance_state" where
  "decay_24h_counters now s0 =
     (let s1 = (if outside_window now (last_mixed_at s0) then s0\<lparr>mixed_count_24h := 0\<rparr> else s0);
          s2 = (if outside_window now (last_soft_conflict_at s1)
                then s1\<lparr>soft_conflict_count_24h := 0\<rparr> else s1);
          s3 = (if outside_window now (last_hard_conflict_at s2)
                then s2\<lparr>hard_conflict_count_24h := 0\<rparr> else s2);
          s4 = (if outside_window now (last_tls_mismatch_at s3)
                then s3\<lparr>tls_mismatch_count_24h := 0\<rparr> else s3)
      in if outside_window now (last_route_opposite_at s4)
         then s4\<lparr>route_opposite_count_24h := 0\<rparr> else s4)"

section \<open>Transition\<close>

record governance_transition_input =
  in_state :: domain_governance_state
  latest_can_promote :: bool
  latest_is_mixed :: bool
  latest_tls_mismatch :: bool
  latest_hard_conflict :: bool
  latest_soft_conflict :: bool
  latest_local_aligned :: bool
  latest_third_party_aligned :: bool
  is_first_seen :: bool
  upstream_failure :: bool
  in_thresholds :: governance_thresholds

datatype transition_reason =
    FirstSeen | NoChange | LocalEvidencePromote | ThirdPartyAlignmentPromote
  | StablePromotionWithPeers | StablePromotionLocalOnly | MixedFreeze | MixedDegradeToReview
  | HardConflictToReview | TlsMismatchToReview | RouteOppositeToReview
  | ConsecutiveFailureToReview | ReviewCleared | ReviewDurationFallback
  | ReviewHardConflictFallback | ReviewRouteOppositeFallback | FallbackExpired | ManualReset

fun transition_reason_as_str :: "transition_reason \<Rightarrow> string" where
  "transition_reason_as_str FirstSeen = ''first_seen''"
| "transition_reason_as_str NoChange = ''no_change''"
| "transition_reason_as_str LocalEvidencePromote = ''local_evidence_promote''"
| "transition_reason_as_str ThirdPartyAlignmentPromote = ''third_party_alignment_promote''"
| "transition_reason_as_str StablePromotionWithPeers = ''stable_promotion_with_peers''"
| "transition_reason_as_str StablePromotionLocalOnly = ''stable_promotion_local_only''"
| "transition_reason_as_str MixedFreeze = ''mixed_freeze''"
| "transition_reason_as_str MixedDegradeToReview = ''mixed_degrade_to_review''"
| "transition_reason_as_str HardConflictToReview = ''hard_conflict_to_review''"
| "transition_reason_as_str TlsMismatchToReview = ''tls_mismatch_to_review''"
| "transition_reason_as_str RouteOppositeToReview = ''route_opposite_to_review''"
| "transition_reason_as_str ConsecutiveFailureToReview = ''consecutive_failure_to_review''"
| "transition_reason_as_str ReviewCleared = ''review_cleared''"
| "transition_reason_as_str ReviewDurationFallback = ''review_duration_fallback''"
| "transition_reason_as_str ReviewHardConflictFallback = ''review_hard_conflict_fallback''"
| "transition_reason_as_str ReviewRouteOppositeFallback = ''review_route_opposite_fallback''"
| "transition_reason_as_str FallbackExpired = ''fallback_expired''"
| "transition_reason_as_str ManualReset = ''manual_reset''"

record governance_transition_result =
  new_phase :: governance_phase
  phase_changed :: bool
  freeze_promotion :: bool
  remove_state :: bool
  gt_reason_code :: transition_reason
  gt_notes :: "string list"

text \<open>The number in a diagnostic note.\<close>

definition show_word :: "'a::len word \<Rightarrow> string" where
  "show_word w = show_nat (unat w)"

definition no_change :: "governance_phase \<Rightarrow> string \<Rightarrow> governance_transition_result" where
  "no_change current_phase reason =
     \<lparr>new_phase = current_phase, phase_changed = False, freeze_promotion = False,
      remove_state = False, gt_reason_code = NoChange, gt_notes = [reason]\<rparr>"

definition review_result :: "transition_reason \<Rightarrow> string \<Rightarrow> governance_transition_result" where
  "review_result reason note =
     \<lparr>new_phase = Phase_Review, phase_changed = True, freeze_promotion = True,
      remove_state = False, gt_reason_code = reason, gt_notes = [note]\<rparr>"

definition check_review_triggers ::
    "governance_transition_input \<Rightarrow> governance_transition_result option" where
  "check_review_triggers input =
     (let s = in_state input; review = th_review (in_thresholds input);
          mixed = th_mixed_evidence (in_thresholds input) in
      if tls_mismatch_count_24h s \<ge> rv_tls_mismatch_threshold review then
        Some (review_result TlsMismatchToReview
          (''tls_mismatch_24h='' @ show_word (tls_mismatch_count_24h s) @
           '' >= threshold='' @ show_word (rv_tls_mismatch_threshold review)))
      else if hard_conflict_count_24h s \<ge> rv_hard_conflict_threshold review then
        Some (review_result HardConflictToReview
          (''hard_conflict_24h='' @ show_word (hard_conflict_count_24h s) @
           '' >= threshold='' @ show_word (rv_hard_conflict_threshold review)))
      else if route_opposite_count_24h s \<ge> rv_route_opposite_threshold review then
        Some (review_result RouteOppositeToReview
          (''route_opposite_24h='' @ show_word (route_opposite_count_24h s) @
           '' >= threshold='' @ show_word (rv_route_opposite_threshold review)))
      else if mixed_count_24h s \<ge> me_mixed_degrade_threshold mixed then
        Some (review_result MixedDegradeToReview
          (''mixed_count_24h='' @ show_word (mixed_count_24h s) @
           '' >= degrade_threshold='' @ show_word (me_mixed_degrade_threshold mixed)))
      else if consecutive_failure_count s \<ge> rv_consecutive_failure_threshold review then
        Some (review_result ConsecutiveFailureToReview
          (''consecutive_failure='' @ show_word (consecutive_failure_count s) @
           '' >= threshold='' @ show_word (rv_consecutive_failure_threshold review)))
      else None)"

definition mixed_freeze_result ::
    "governance_phase \<Rightarrow> domain_governance_state \<Rightarrow> mixed_evidence_thresholds
      \<Rightarrow> governance_transition_result" where
  "mixed_freeze_result ph s mixed =
     \<lparr>new_phase = ph, phase_changed = False, freeze_promotion = True, remove_state = False,
      gt_reason_code = MixedFreeze,
      gt_notes = [''mixed_count_24h='' @ show_word (mixed_count_24h s) @
        '' >= freeze_threshold='' @ show_word (me_mixed_freeze_threshold mixed)]\<rparr>"

definition evaluate_learning :: "governance_transition_input \<Rightarrow> governance_transition_result" where
  "evaluate_learning input =
     (let s = in_state input; mixed = th_mixed_evidence (in_thresholds input) in
      if mixed_count_24h s \<ge> me_mixed_freeze_threshold mixed then
        mixed_freeze_result Phase_Learning s mixed
      else if latest_can_promote input \<and> hard_conflict_count_24h s = 0 \<and>
              mixed_count_24h s < me_mixed_freeze_threshold mixed then
        \<lparr>new_phase = Phase_Suggested, phase_changed = True, freeze_promotion = False,
         remove_state = False,
         gt_reason_code =
           (if latest_third_party_aligned input then ThirdPartyAlignmentPromote
            else LocalEvidencePromote),
         gt_notes = [''can_promote=true hard_conflict_24h='' @ show_word (hard_conflict_count_24h s) @
           '' mixed_24h='' @ show_word (mixed_count_24h s)]\<rparr>
      else no_change (phase s) ''learning: insufficient evidence for suggested'')"

definition stable_result :: "transition_reason \<Rightarrow> string \<Rightarrow> governance_transition_result" where
  "stable_result reason note =
     \<lparr>new_phase = Phase_Stable, phase_changed = True, freeze_promotion = False,
      remove_state = False, gt_reason_code = reason, gt_notes = [note]\<rparr>"

definition check_stable_with_third_party ::
    "governance_transition_input \<Rightarrow> stable_promotion_thresholds \<Rightarrow> governance_transition_result option" where
  "check_stable_with_third_party input t =
     (let s = in_state input in
      if (ucast (observation_count s) :: u32) \<ge> sp_min_observations t \<and>
         local_alignment_count s \<ge> sp_min_local_alignment t \<and>
         third_party_alignment_count s \<ge> sp_min_third_party_alignment t \<and>
         distinct_third_party_observers s \<ge> sp_min_distinct_third_party t \<and>
         hard_conflict_count_24h s \<le> sp_max_hard_conflict_24h t \<and>
         mixed_count_24h s \<le> sp_max_mixed_24h t \<and>
         consecutive_no_conflict_count s \<ge> sp_min_no_conflict_streak t
      then Some (stable_result StablePromotionWithPeers
        (''obs='' @ show_word (observation_count s) @
         '' local_align='' @ show_word (local_alignment_count s) @
         '' tp_align='' @ show_word (third_party_alignment_count s) @
         '' distinct_tp='' @ show_word (distinct_third_party_observers s) @
         '' hard_conflict_24h='' @ show_word (hard_conflict_count_24h s) @
         '' mixed_24h='' @ show_word (mixed_count_24h s) @
         '' no_conflict_streak='' @ show_word (consecutive_no_conflict_count s)))
      else None)"

definition check_stable_local_only ::
    "governance_transition_input \<Rightarrow> local_only_stable_thresholds \<Rightarrow> governance_transition_result option" where
  "check_stable_local_only input t =
     (let s = in_state input in
      if (ucast (observation_count s) :: u32) \<ge> lo_min_observations t \<and>
         local_alignment_count s \<ge> lo_min_local_alignment t \<and>
         hard_conflict_count_24h s \<le> lo_max_hard_conflict_24h t \<and>
         mixed_count_24h s \<le> lo_max_mixed_24h t \<and>
         consecutive_no_conflict_count s \<ge> lo_min_no_conflict_streak t
      then Some (stable_result StablePromotionLocalOnly
        (''obs='' @ show_word (observation_count s) @
         '' local_align='' @ show_word (local_alignment_count s) @
         '' hard_conflict_24h='' @ show_word (hard_conflict_count_24h s) @
         '' mixed_24h='' @ show_word (mixed_count_24h s) @
         '' no_conflict_streak='' @ show_word (consecutive_no_conflict_count s)))
      else None)"

definition evaluate_suggested :: "governance_transition_input \<Rightarrow> governance_transition_result" where
  "evaluate_suggested input =
     (let thresholds = in_thresholds input;
          result = (case th_third_party_mode thresholds of
              ThirdParty_Enabled \<Rightarrow>
                check_stable_with_third_party input (th_stable_with_third_party thresholds)
            | ThirdParty_Disabled \<Rightarrow>
                check_stable_local_only input (th_stable_local_only thresholds))
      in case result of
           Some r \<Rightarrow> r
         | None \<Rightarrow>
             if mixed_count_24h (in_state input) \<ge>
                me_mixed_freeze_threshold (th_mixed_evidence thresholds) then
               mixed_freeze_result Phase_Suggested (in_state input) (th_mixed_evidence thresholds)
             else no_change (phase (in_state input)) ''suggested: stable thresholds not met'')"

definition evaluate_stable :: "governance_transition_input \<Rightarrow> governance_transition_result" where
  "evaluate_stable input = no_change Phase_Stable ''stable: no degradation triggers''"

definition fallback_result :: "transition_reason \<Rightarrow> string \<Rightarrow> governance_transition_result" where
  "fallback_result reason note =
     \<lparr>new_phase = Phase_Fallback, phase_changed = True, freeze_promotion = True,
      remove_state = False, gt_reason_code = reason, gt_notes = [note]\<rparr>"

text \<open>\<^verbatim>\<open>num_hours() as u32\<close> keeps the low 32 bits of the signed hour count.\<close>

definition review_hours :: "datetime \<Rightarrow> domain_governance_state \<Rightarrow> u32" where
  "review_hours now s = word_of_int (num_hours (now - last_transition_at s))"

definition check_fallback_from_review ::
    "datetime \<Rightarrow> governance_transition_input \<Rightarrow> fallback_thresholds \<Rightarrow> review_thresholds
      \<Rightarrow> governance_transition_result option" where
  "check_fallback_from_review now input fallback review =
     (let s = in_state input in
      if review_hours now s \<ge> fb_review_max_duration_hours fallback then
        Some (fallback_result ReviewDurationFallback
          (''review_duration_hours='' @ show_word (review_hours now s) @
           '' >= max='' @ show_word (fb_review_max_duration_hours fallback)))
      else if hard_conflict_count_24h s \<ge> fb_fallback_hard_conflict_threshold fallback then
        Some (fallback_result ReviewHardConflictFallback
          (''hard_conflict_24h='' @ show_word (hard_conflict_count_24h s) @
           '' >= fallback_threshold='' @ show_word (fb_fallback_hard_conflict_threshold fallback)))
      else if route_opposite_count_24h s \<ge> fb_fallback_route_opposite_threshold fallback then
        Some (fallback_result ReviewRouteOppositeFallback
          (''route_opposite_24h='' @ show_word (route_opposite_count_24h s) @
           '' >= fallback_threshold='' @ show_word (fb_fallback_route_opposite_threshold fallback)))
      else None)"

definition evaluate_review :: "datetime \<Rightarrow> governance_transition_input \<Rightarrow> governance_transition_result" where
  "evaluate_review now input =
     (let thresholds = in_thresholds input; s = in_state input in
      case check_fallback_from_review now input (th_fallback thresholds) (th_review thresholds) of
        Some r \<Rightarrow> r
      | None \<Rightarrow>
          if hard_conflict_count_24h s = 0 \<and>
             mixed_count_24h s < me_mixed_freeze_threshold (th_mixed_evidence thresholds) \<and>
             consecutive_no_conflict_count s \<ge> 10
          then \<lparr>new_phase = Phase_Learning, phase_changed = True, freeze_promotion = False,
            remove_state = False, gt_reason_code = ReviewCleared,
            gt_notes = [''hard_conflict_24h=0 mixed_24h='' @ show_word (mixed_count_24h s) @
              '' no_conflict_streak='' @ show_word (consecutive_no_conflict_count s)]\<rparr>
          else no_change (phase s) ''review: conditions not cleared'')"

definition evaluate_fallback :: "governance_transition_input \<Rightarrow> governance_transition_result" where
  "evaluate_fallback input =
     (let s = in_state input in
      if \<not> latest_hard_conflict input \<and> \<not> latest_tls_mismatch input \<and> \<not> latest_is_mixed input \<and>
         hard_conflict_count_24h s = 0 \<and> tls_mismatch_count_24h s = 0
      then \<lparr>new_phase = Phase_Learning, phase_changed = True, freeze_promotion = False,
        remove_state = False, gt_reason_code = FallbackExpired,
        gt_notes = [''fallback: clean evidence detected, returning to learning'']\<rparr>
      else no_change (phase s) ''fallback: still in fallback, no clean evidence'')"

definition evaluate_governance_transition ::
    "datetime \<Rightarrow> governance_transition_input \<Rightarrow> governance_transition_result" where
  "evaluate_governance_transition now input =
     (let current_phase = phase (in_state input) in
      if is_first_seen input \<or> current_phase = Phase_New then
        \<lparr>new_phase = Phase_Learning, phase_changed = (current_phase \<noteq> Phase_Learning),
         freeze_promotion = False, remove_state = False, gt_reason_code = FirstSeen,
         gt_notes = [''first_seen_domain_initialized_to_learning'']\<rparr>
      else case (if current_phase \<noteq> Phase_Fallback then check_review_triggers input else None) of
        Some r \<Rightarrow> r
      | None \<Rightarrow> (case current_phase of
          Phase_Learning \<Rightarrow> evaluate_learning input
        | Phase_Suggested \<Rightarrow> evaluate_suggested input
        | Phase_Stable \<Rightarrow> evaluate_stable input
        | Phase_Review \<Rightarrow> evaluate_review now input
        | Phase_Fallback \<Rightarrow> evaluate_fallback input
        | Phase_New \<Rightarrow> no_change Phase_New []))"

section \<open>Store\<close>

type_synonym governance_store = "(string, domain_governance_state) dmap"

definition store_new :: governance_store where
  "store_new = dm_new"

definition store_get :: "governance_store \<Rightarrow> string \<Rightarrow> domain_governance_state option" where
  "store_get store domain = dm_get store domain"

definition get_or_create ::
    "datetime \<Rightarrow> string \<Rightarrow> string \<Rightarrow> governance_store \<Rightarrow> domain_governance_state \<times> governance_store" where
  "get_or_create now domain prior store =
     (case dm_get store domain of
        Some s \<Rightarrow> (s, store)
      | None \<Rightarrow> let s = governance_state_new domain prior now in (s, dm_insert domain s store))"

definition store_update ::
    "string \<Rightarrow> u64 \<Rightarrow> domain_governance_state \<Rightarrow> governance_store \<Rightarrow> bool \<times> governance_store" where
  "store_update domain expected_version new_state store =
     (case dm_get store domain of
        Some entry \<Rightarrow>
          if state_version entry = expected_version
          then (True, dm_insert domain new_state store)
          else (False, store)
      | None \<Rightarrow> (False, store))"

definition force_update :: "string \<Rightarrow> domain_governance_state \<Rightarrow> governance_store \<Rightarrow> governance_store" where
  "force_update domain new_state store = dm_insert domain new_state store"

definition store_len :: "governance_store \<Rightarrow> nat" where
  "store_len store = dm_len store"

definition store_is_empty :: "governance_store \<Rightarrow> bool" where
  "store_is_empty store \<longleftrightarrow> dm_len store = 0"

definition store_domains :: "governance_store \<Rightarrow> string list" where
  "store_domains store = map fst (dm_iter store)"

section \<open>The documented phase graph\<close>

inductive phase_edge :: "governance_phase \<Rightarrow> governance_phase \<Rightarrow> bool" where
  init: "phase_edge Phase_New Phase_Learning"
| suggest: "phase_edge Phase_Learning Phase_Suggested"
| stabilise: "phase_edge Phase_Suggested Phase_Stable"
| challenge: "p \<noteq> Phase_New \<Longrightarrow> p \<noteq> Phase_Fallback \<Longrightarrow> phase_edge p Phase_Review"
| clear: "phase_edge Phase_Review Phase_Learning"
| give_up: "phase_edge Phase_Review Phase_Fallback"
| recover: "phase_edge Phase_Fallback Phase_Learning"
| stay: "p \<noteq> Phase_New \<Longrightarrow> phase_edge p p"

code_pred phase_edge .

inductive_simps phase_edge_simps: "phase_edge p q"

lemmas result_defs =
  no_change_def review_result_def mixed_freeze_result_def stable_result_def fallback_result_def

lemma review_trigger_result:
  "check_review_triggers input = Some r \<Longrightarrow>
     new_phase r = Phase_Review \<and> phase_changed r \<and> freeze_promotion r"
  by (auto simp: check_review_triggers_def Let_def review_result_def split: if_splits)

definition review_triggered :: "domain_governance_state \<Rightarrow> governance_thresholds \<Rightarrow> bool" where
  "review_triggered s t \<longleftrightarrow>
     tls_mismatch_count_24h s \<ge> rv_tls_mismatch_threshold (th_review t) \<or>
     hard_conflict_count_24h s \<ge> rv_hard_conflict_threshold (th_review t) \<or>
     route_opposite_count_24h s \<ge> rv_route_opposite_threshold (th_review t) \<or>
     mixed_count_24h s \<ge> me_mixed_degrade_threshold (th_mixed_evidence t) \<or>
     consecutive_failure_count s \<ge> rv_consecutive_failure_threshold (th_review t)"

lemma review_trigger_iff:
  "check_review_triggers input = None \<longleftrightarrow> \<not> review_triggered (in_state input) (in_thresholds input)"
  by (auto simp: check_review_triggers_def Let_def review_triggered_def)

lemma evaluate_learning_phase:
  "phase (in_state input) = Phase_Learning \<Longrightarrow>
     new_phase (evaluate_learning input) =
       (if mixed_count_24h (in_state input) < me_mixed_freeze_threshold (th_mixed_evidence (in_thresholds input)) \<and>
           latest_can_promote input \<and> hard_conflict_count_24h (in_state input) = 0
        then Phase_Suggested else Phase_Learning)"
  by (auto simp: evaluate_learning_def Let_def result_defs)

definition stable_ready :: "domain_governance_state \<Rightarrow> governance_thresholds \<Rightarrow> bool" where
  "stable_ready s t \<longleftrightarrow>
     (case th_third_party_mode t of
        ThirdParty_Enabled \<Rightarrow>
          let p = th_stable_with_third_party t in
          (ucast (observation_count s) :: u32) \<ge> sp_min_observations p \<and>
          local_alignment_count s \<ge> sp_min_local_alignment p \<and>
          third_party_alignment_count s \<ge> sp_min_third_party_alignment p \<and>
          distinct_third_party_observers s \<ge> sp_min_distinct_third_party p \<and>
          hard_conflict_count_24h s \<le> sp_max_hard_conflict_24h p \<and>
          mixed_count_24h s \<le> sp_max_mixed_24h p \<and>
          consecutive_no_conflict_count s \<ge> sp_min_no_conflict_streak p
      | ThirdParty_Disabled \<Rightarrow>
          let p = th_stable_local_only t in
          (ucast (observation_count s) :: u32) \<ge> lo_min_observations p \<and>
          local_alignment_count s \<ge> lo_min_local_alignment p \<and>
          hard_conflict_count_24h s \<le> lo_max_hard_conflict_24h p \<and>
          mixed_count_24h s \<le> lo_max_mixed_24h p \<and>
          consecutive_no_conflict_count s \<ge> lo_min_no_conflict_streak p)"

lemma evaluate_suggested_phase:
  "phase (in_state input) = Phase_Suggested \<Longrightarrow>
     new_phase (evaluate_suggested input) =
       (if stable_ready (in_state input) (in_thresholds input) then Phase_Stable else Phase_Suggested)"
  by (cases "th_third_party_mode (in_thresholds input)")
    (auto simp: evaluate_suggested_def stable_ready_def Let_def result_defs
      check_stable_with_third_party_def check_stable_local_only_def)

definition fallback_due :: "datetime \<Rightarrow> domain_governance_state \<Rightarrow> governance_thresholds \<Rightarrow> bool" where
  "fallback_due now s t \<longleftrightarrow>
     review_hours now s \<ge> fb_review_max_duration_hours (th_fallback t) \<or>
     hard_conflict_count_24h s \<ge> fb_fallback_hard_conflict_threshold (th_fallback t) \<or>
     route_opposite_count_24h s \<ge> fb_fallback_route_opposite_threshold (th_fallback t)"

definition review_clean :: "domain_governance_state \<Rightarrow> governance_thresholds \<Rightarrow> bool" where
  "review_clean s t \<longleftrightarrow> hard_conflict_count_24h s = 0 \<and>
     mixed_count_24h s < me_mixed_freeze_threshold (th_mixed_evidence t) \<and>
     consecutive_no_conflict_count s \<ge> 10"

lemma evaluate_review_phase:
  "phase (in_state input) = Phase_Review \<Longrightarrow>
     new_phase (evaluate_review now input) =
       (if fallback_due now (in_state input) (in_thresholds input) then Phase_Fallback
        else if review_clean (in_state input) (in_thresholds input) then Phase_Learning
        else Phase_Review)"
  by (auto simp: evaluate_review_def check_fallback_from_review_def fallback_due_def review_clean_def
      Let_def result_defs split: option.splits if_splits)

lemma evaluate_fallback_phase:
  "phase (in_state input) = Phase_Fallback \<Longrightarrow>
     new_phase (evaluate_fallback input) =
       (if \<not> latest_hard_conflict input \<and> \<not> latest_tls_mismatch input \<and> \<not> latest_is_mixed input \<and>
           hard_conflict_count_24h (in_state input) = 0 \<and> tls_mismatch_count_24h (in_state input) = 0
        then Phase_Learning else Phase_Fallback)"
  by (auto simp: evaluate_fallback_def Let_def result_defs)

text \<open>The abstract specification of the transition: the next phase as a table over the guards.\<close>

fun next_phase ::
    "datetime \<Rightarrow> governance_transition_input \<Rightarrow> governance_phase \<Rightarrow> governance_phase" where
  "next_phase now input Phase_New = Phase_Learning"
| "next_phase now input Phase_Fallback =
     (if \<not> latest_hard_conflict input \<and> \<not> latest_tls_mismatch input \<and> \<not> latest_is_mixed input \<and>
         hard_conflict_count_24h (in_state input) = 0 \<and> tls_mismatch_count_24h (in_state input) = 0
      then Phase_Learning else Phase_Fallback)"
| "next_phase now input p =
     (let s = in_state input; t = in_thresholds input in
      if review_triggered s t then Phase_Review
      else case p of
        Phase_Learning \<Rightarrow>
          if mixed_count_24h s < me_mixed_freeze_threshold (th_mixed_evidence t) \<and>
             latest_can_promote input \<and> hard_conflict_count_24h s = 0
          then Phase_Suggested else Phase_Learning
      | Phase_Suggested \<Rightarrow> if stable_ready s t then Phase_Stable else Phase_Suggested
      | Phase_Review \<Rightarrow>
          if fallback_due now s t then Phase_Fallback
          else if review_clean s t then Phase_Learning else Phase_Review
      | _ \<Rightarrow> p)"

lemma transition_next_phase:
  assumes "is_first_seen input \<longrightarrow> phase (in_state input) = Phase_New"
  shows "new_phase (evaluate_governance_transition now input) = next_phase now input (phase (in_state input))"
proof (cases "check_review_triggers input")
  case None
  then have "\<not> review_triggered (in_state input) (in_thresholds input)" by (simp add: review_trigger_iff)
  with None assms show ?thesis
    by (cases "phase (in_state input)")
      (auto simp: evaluate_governance_transition_def evaluate_learning_phase evaluate_suggested_phase
        evaluate_review_phase evaluate_fallback_phase evaluate_stable_def no_change_def)
next
  case (Some r)
  then have "review_triggered (in_state input) (in_thresholds input)"
    using review_trigger_iff [of input] by auto
  with Some assms review_trigger_result [OF Some] show ?thesis
    by (cases "phase (in_state input)")
      (auto simp: evaluate_governance_transition_def evaluate_fallback_phase)
qed

lemma next_phase_edge: "phase_edge p (next_phase now input p)"
  by (cases p) (auto simp: phase_edge_simps Let_def)

section \<open>Decay\<close>

lemma decay_fields:
  "mixed_count_24h (decay_24h_counters now s) =
     (if outside_window now (last_mixed_at s) then 0 else mixed_count_24h s)"
  "soft_conflict_count_24h (decay_24h_counters now s) =
     (if outside_window now (last_soft_conflict_at s) then 0 else soft_conflict_count_24h s)"
  "hard_conflict_count_24h (decay_24h_counters now s) =
     (if outside_window now (last_hard_conflict_at s) then 0 else hard_conflict_count_24h s)"
  "tls_mismatch_count_24h (decay_24h_counters now s) =
     (if outside_window now (last_tls_mismatch_at s) then 0 else tls_mismatch_count_24h s)"
  "route_opposite_count_24h (decay_24h_counters now s) =
     (if outside_window now (last_route_opposite_at s) then 0 else route_opposite_count_24h s)"
  "phase (decay_24h_counters now s) = phase s"
  "state_version (decay_24h_counters now s) = state_version s"
  "consecutive_failure_count (decay_24h_counters now s) = consecutive_failure_count s"
  by (simp_all add: decay_24h_counters_def Let_def)

section \<open>Properties\<close>

definition sample_state :: domain_governance_state where
  "sample_state = (governance_state_new ''example.com.'' ''china'' 0)\<lparr>phase := Phase_Review\<rparr>"

definition sample_input :: governance_transition_input where
  "sample_input =
     \<lparr>in_state = sample_state, latest_can_promote = True, latest_is_mixed = False,
      latest_tls_mismatch = False, latest_hard_conflict = False, latest_soft_conflict = False,
      latest_local_aligned = True, latest_third_party_aligned = False, is_first_seen = False,
      upstream_failure = False, in_thresholds = governance_thresholds_default\<rparr>"

lemmas sample_defs = sample_state_def sample_input_def governance_state_new_def
  third_party_summary_default_def thresholds_default_defs



text \<open>Every transition follows an edge of the documented phase graph (New to Learning,
  Learning to Suggested, Suggested to Stable, any phase but New and Fallback to Review, Review
  to Learning or Fallback, Fallback to Learning, or no move), and a domain becomes Stable only
  from Suggested, with every promotion threshold met and no review trigger raised.\<close>

theorem transition_follows_graph:
  assumes "is_first_seen input \<longrightarrow> phase (in_state input) = Phase_New"
  shows "phase_edge (phase (in_state input)) (new_phase (evaluate_governance_transition now input)) \<and>
    (new_phase (evaluate_governance_transition now input) = Phase_Stable \<longrightarrow>
       phase (in_state input) = Phase_Stable \<or>
       phase (in_state input) = Phase_Suggested \<and>
       stable_ready (in_state input) (in_thresholds input) \<and>
       \<not> review_triggered (in_state input) (in_thresholds input))"
proof
  show "phase_edge (phase (in_state input)) (new_phase (evaluate_governance_transition now input))"
    unfolding transition_next_phase [OF assms] by (rule next_phase_edge)
  show "new_phase (evaluate_governance_transition now input) = Phase_Stable \<longrightarrow>
       phase (in_state input) = Phase_Stable \<or>
       phase (in_state input) = Phase_Suggested \<and>
       stable_ready (in_state input) (in_thresholds input) \<and>
       \<not> review_triggered (in_state input) (in_thresholds input)"
    unfolding transition_next_phase [OF assms]
    by (cases "phase (in_state input)") (auto simp: Let_def split: if_splits)
qed

theorem transition_follows_graph_witness:
  "phase_edge (phase (in_state sample_input)) (new_phase (evaluate_governance_transition 0 sample_input)) \<and>
    (new_phase (evaluate_governance_transition 0 sample_input) = Phase_Stable \<longrightarrow>
       phase (in_state sample_input) = Phase_Stable \<or>
       phase (in_state sample_input) = Phase_Suggested \<and>
       stable_ready (in_state sample_input) (in_thresholds sample_input) \<and>
       \<not> review_triggered (in_state sample_input) (in_thresholds sample_input))"
  by (rule transition_follows_graph) (simp add: sample_defs)

lemma num_hours_ge: "0 \<le> d \<Longrightarrow> h * nanos_per_hour \<le> d \<Longrightarrow> h \<le> num_hours d"
  by (simp add: num_hours_def nanos_per_hour_def)



text \<open>The version check of the store excludes lost updates: when two writers have read the
  same version and each raises it, the second update is refused, the first one's state stays,
  and no other domain is touched.\<close>

theorem optimistic_update_excludes:
  assumes "dm_wf store" "store_update domain v s1 store = (True, store1)" "state_version s1 \<noteq> v"
  shows "store_update domain v s2 store1 = (False, store1) \<and> store_get store1 domain = Some s1 \<and>
    (other \<noteq> domain \<longrightarrow> store_get store1 other = store_get store other) \<and>
    store_len store1 = store_len store"
proof -
  from assms(2) obtain entry where e: "dm_get store domain = Some entry"
      and st: "store1 = dm_insert domain s1 store"
    by (auto simp: store_update_def split: option.splits if_splits)
  have "dm_get store1 k = (if k = domain then Some s1 else dm_get store k)" for k
    using dm.get_ins [OF assms(1)] by (simp add: st)
  moreover have "dm_len store1 = dm_len store"
    using dm.len_ins [OF assms(1), of domain s1] e by (simp add: st)
  ultimately show ?thesis
    using assms(3) by (simp add: store_update_def store_get_def store_len_def)
qed

definition sample_store :: governance_store where
  "sample_store = force_update ''example.com.'' sample_state store_new"

theorem optimistic_update_excludes_witness:
  "store_update ''example.com.'' 1 sample_state
      (dm_insert ''example.com.'' (sample_state\<lparr>state_version := 2\<rparr>) sample_store) =
     (False, dm_insert ''example.com.'' (sample_state\<lparr>state_version := 2\<rparr>) sample_store) \<and>
   store_get (dm_insert ''example.com.'' (sample_state\<lparr>state_version := 2\<rparr>) sample_store) ''example.com.''
     = Some (sample_state\<lparr>state_version := 2\<rparr>) \<and>
   (''b.'' \<noteq> ''example.com.'' \<longrightarrow>
     store_get (dm_insert ''example.com.'' (sample_state\<lparr>state_version := 2\<rparr>) sample_store) ''b.'' =
     store_get sample_store ''b.'') \<and>
   store_len (dm_insert ''example.com.'' (sample_state\<lparr>state_version := 2\<rparr>) sample_store) =
     store_len sample_store"
  by (rule optimistic_update_excludes)
    (simp_all add: sample_store_def force_update_def store_new_def dm.wf_new dm.wf_ins dm.get_ins
      store_update_def sample_defs)

section \<open>Where code and documentation part\<close>

text \<open>A domain under review whose counters still raise a trigger is reported as changed, though
  the phase stays, and the guards that lead to Fallback are not looked at.\<close>

theorem review_retrigger_reported_as_change:
  assumes "phase (in_state input) = Phase_Review" "\<not> is_first_seen input"
    "review_triggered (in_state input) (in_thresholds input)"
  shows "new_phase (evaluate_governance_transition now input) = Phase_Review \<and>
    phase_changed (evaluate_governance_transition now input)"
proof -
  from assms(3) obtain r where "check_review_triggers input = Some r"
    using review_trigger_iff [of input] by auto
  with review_trigger_result [OF this] assms show ?thesis
    by (simp add: evaluate_governance_transition_def)
qed

text \<open>With the default thresholds the hard-conflict and route-opposite fallbacks are therefore
  unreachable: the review triggers fire first.\<close>

theorem severe_fallback_unreachable:
  assumes "in_thresholds input = governance_thresholds_default"
  shows "gt_reason_code (evaluate_governance_transition now input) \<noteq> ReviewHardConflictFallback \<and>
    gt_reason_code (evaluate_governance_transition now input) \<noteq> ReviewRouteOppositeFallback"
proof (cases "check_review_triggers input")
  case (Some r)
  then have "gt_reason_code r \<notin> {ReviewHardConflictFallback, ReviewRouteOppositeFallback}"
    by (auto simp: check_review_triggers_def Let_def review_result_def split: if_splits)
  with Some show ?thesis
    by (auto simp: evaluate_governance_transition_def Let_def evaluate_fallback_def no_change_def
        split: governance_phase.splits)
next
  case None
  then have "hard_conflict_count_24h (in_state input) < 3" "route_opposite_count_24h (in_state input) < 3"
    by (auto simp: check_review_triggers_def Let_def assms thresholds_default_defs split: if_splits)
  then have "\<not> 5 \<le> hard_conflict_count_24h (in_state input)" "\<not> 5 \<le> route_opposite_count_24h (in_state input)"
    by (simp_all add: word_less_nat_alt word_le_nat_alt)
  then have "gt_reason_code (evaluate_review now input) \<notin> {ReviewHardConflictFallback, ReviewRouteOppositeFallback}"
    by (auto simp: evaluate_review_def check_fallback_from_review_def Let_def assms
        thresholds_default_defs fallback_result_def no_change_def split: if_splits)
  with None show ?thesis
    by (cases "phase (in_state input)"; cases "is_first_seen input")
      (simp_all add: evaluate_governance_transition_def Let_def evaluate_fallback_def evaluate_learning_def
        evaluate_suggested_def evaluate_stable_def check_stable_with_third_party_def
        check_stable_local_only_def result_defs split: third_party_mode.split)
qed

text \<open>When the clock is set back by an hour or more, the hour count wraps to a huge number and the
  review ends in Fallback at once.\<close>

theorem clock_step_back_forces_fallback:
  "new_phase (evaluate_governance_transition (- nanos_per_hour) sample_input) = Phase_Fallback"
  by (simp add: transition_next_phase sample_defs review_triggered_def fallback_due_def review_hours_def
      num_hours_def nanos_per_hour_def)

end
