(* ===== verification/Observation.thy ===== *)
theory Observation
  imports Governance
begin

text \<open>
  The messages the query path sends to the background workers, \<^verbatim>\<open>border-dns-facts/src/emit/observation.rs\<close>:
  observation tasks and emitted facts, and the unbounded channels they travel on. A channel
  delivers a message when its receiver still exists and drops it silently otherwise.
\<close>

datatype observation_task_kind =
  GeoAnalysis (ip_addresses: "string list") (cname_chain: "string list")
| TlsProbe string string
| LatencyProbe string
| ThirdPartyFetch string string

record observation_task =
  ot_job_id :: string
  ot_domain :: string
  ot_task_kind :: observation_task_kind
  ot_current_phase :: governance_phase
  ot_current_route :: string
  ot_enqueued_at :: datetime

record fact_emitter =
  fe_domain :: string
  fe_event_kind :: meaningful_event_kind
  fe_observed_at :: datetime
  fe_phase_changed :: bool
  fe_new_phase :: "governance_phase option"
  fe_reason_code :: string
  fe_context :: "(string \<times> string) list"

definition fact_emitter_new :: "datetime \<Rightarrow> string \<Rightarrow> meaningful_event_kind \<Rightarrow> string \<Rightarrow> fact_emitter" where
  "fact_emitter_new now domain event_kind reason_code =
     \<lparr>fe_domain = domain, fe_event_kind = event_kind, fe_observed_at = now, fe_phase_changed = False,
      fe_new_phase = None, fe_reason_code = reason_code, fe_context = []\<rparr>"

text \<open>\<^verbatim>\<open>tokio::sync::mpsc::unbounded_channel\<close>, seen from the sender.\<close>

record 'a channel =
  ch_open :: bool
  ch_sent :: "'a list"

definition channel_send :: "'a \<Rightarrow> 'a channel \<Rightarrow> 'a channel" where
  "channel_send x ch = (if ch_open ch then ch\<lparr>ch_sent := ch_sent ch @ [x]\<rparr> else ch)"

text \<open>The channels of \<^verbatim>\<open>Pipeline::new\<close>, whose receivers are dropped at once.\<close>

definition channel_closed :: "'a channel" where
  "channel_closed = \<lparr>ch_open = False, ch_sent = []\<rparr>"

end
