(* ===== verification/Fact_Store.thy ===== *)
theory Fact_Store
  imports Observation Float32
begin

text \<open>
  The fact store: the event schema of \<^verbatim>\<open>border-dns-facts/src/store/fact_event.rs\<close>, the manifest and its
  retention policy of \<^verbatim>\<open>store_manifest.rs\<close>, and the writer of \<^verbatim>\<open>fact_store.rs\<close> with its hourly rotation.

  The directory is a map from paths to contents. What the store takes from elsewhere is the record
  \<open>fact_io\<close>: chrono's formatting and parsing of hours, serde's JSON, and which calls of the operating
  system fail. A failing call changes nothing on the disk; bytes that could not be flushed stay in the
  buffer of the writer, which is taken as large enough for one line. One operation reads the clock once.
\<close>

section \<open>Fact events\<close>

definition SCHEMA_VERSION :: string where "SCHEMA_VERSION = ''borderdns.fact.v1''"

definition SCHEMA_REVISION :: u32 where "SCHEMA_REVISION = 1"

record query_fact =
  qf_domain :: string
  qf_normalized_domain :: string
  qf_qtype :: string

record decision_fact =
  df_route :: string
  df_route_source :: string
  df_phase :: governance_phase
  df_domain_intent :: domain_intent
  df_confidence :: string
  df_can_promote :: bool
  df_reason_codes :: "string list"

record answer_fact =
  af_rcode :: string
  af_record_count :: nat
  af_ip_count :: nat
  af_cname_count :: nat

record evidence_fact =
  ef_ip_scope :: string
  ef_cn_ip_count :: nat
  ef_foreign_ip_count :: nat
  ef_cname_scope :: cname_scope
  ef_tls_identity :: tls_identity_status
  ef_probe_quality :: probe_quality
  ef_evidence_strength :: evidence_strength
  ef_conflict_kind :: "conflict_kind option"

record runtime_outcome_fact =
  rf_response_source :: string
  rf_upstream_rtt_ms :: "u64 option"
  rf_total_latency_ms :: u64
  rf_cache_status :: string

record governance_fact =
  gf_phase :: governance_phase
  gf_current_route :: string
  gf_fact_status :: fact_status
  gf_china_score :: rat
  gf_foreign_score :: rat
  gf_score_margin :: rat
  gf_summary :: string

record border_dns_fact_event =
  ev_schema_version :: string
  ev_schema_revision :: u32
  ev_observed_at :: datetime
  ev_observer_scope :: observer_scope
  ev_event_kind :: meaningful_event_kind
  ev_query :: query_fact
  ev_decision :: decision_fact
  ev_answer :: answer_fact
  ev_evidence :: evidence_fact
  ev_outcome :: runtime_outcome_fact
  ev_governance :: governance_fact

definition fact_event_new ::
    "datetime \<Rightarrow> observer_scope \<Rightarrow> meaningful_event_kind \<Rightarrow> query_fact \<Rightarrow> decision_fact \<Rightarrow> answer_fact
     \<Rightarrow> evidence_fact \<Rightarrow> runtime_outcome_fact \<Rightarrow> governance_fact \<Rightarrow> border_dns_fact_event" where
  "fact_event_new observed_at scope kind query decision answer evidence outcome governance =
     \<lparr>ev_schema_version = SCHEMA_VERSION, ev_schema_revision = SCHEMA_REVISION,
      ev_observed_at = observed_at, ev_observer_scope = scope, ev_event_kind = kind, ev_query = query,
      ev_decision = decision, ev_answer = answer, ev_evidence = evidence, ev_outcome = outcome,
      ev_governance = governance\<rparr>"

text \<open>The line of a fact event is its JSON and a newline; the line of an emitted fact, in
  \<open>write_event\<close> below, gets its newline from the writer.\<close>

definition newline :: char where "newline = char_of (10 :: nat)"

definition fact_event_to_jsonl_line ::
    "(border_dns_fact_event \<Rightarrow> 'e + string) \<Rightarrow> border_dns_fact_event \<Rightarrow> 'e + string" where
  "fact_event_to_jsonl_line to_json event = rbind (to_json event) (\<lambda>line. Inr (line @ [newline]))"

section \<open>Manifest\<close>

record retention_config =
  keep_active_hours :: u32
  keep_sealed_hours :: u32
  compact_after_hours :: u32
  keep_compact_days :: u32
  duckdb_rebuildable :: bool

definition retention_config_default :: retention_config where
  "retention_config_default =
     \<lparr>keep_active_hours = 1, keep_sealed_hours = 24, compact_after_hours = 24, keep_compact_days = 14,
      duckdb_rebuildable = True\<rparr>"

record manifest_counters =
  meaningful_events_total :: u64
  review_candidates_total :: u64
  mixed_review_candidates :: u64
  tls_mismatch_candidates :: u64
  mc_review_domains :: u64
  mc_fallback_domains :: u64

definition manifest_counters_default :: manifest_counters where
  "manifest_counters_default =
     \<lparr>meaningful_events_total = 0, review_candidates_total = 0, mixed_review_candidates = 0,
      tls_mismatch_candidates = 0, mc_review_domains = 0, mc_fallback_domains = 0\<rparr>"

record fact_store_manifest =
  fm_schema_version :: string
  fm_store_version :: u32
  active_event_file :: string
  sealed_event_files :: "string list"
  derived_state_file :: string
  review_candidates_file :: string
  inspect_cache_file :: "string option"
  high_watermark_event_id :: "string option"
  high_watermark_observed_at :: "datetime option"
  fm_retention :: retention_config
  fm_counters :: manifest_counters
  fm_updated_at :: datetime

definition active_name :: "string \<Rightarrow> string" where
  "active_name hour_tag = ''events-active-'' @ hour_tag @ ''.jsonl''"

definition manifest_new :: "datetime \<Rightarrow> string \<Rightarrow> fact_store_manifest" where
  "manifest_new now hour_tag =
     \<lparr>fm_schema_version = ''borderdns.fact.v1'', fm_store_version = 1,
      active_event_file = active_name hour_tag, sealed_event_files = [],
      derived_state_file = ''derived-domain-governance-state.json'',
      review_candidates_file = ''derived-review-candidates.json'',
      inspect_cache_file = Some ''inspect.duckdb'', high_watermark_event_id = None,
      high_watermark_observed_at = None, fm_retention = retention_config_default,
      fm_counters = manifest_counters_default, fm_updated_at = now\<rparr>"

definition manifest_rotate :: "datetime \<Rightarrow> string \<Rightarrow> fact_store_manifest \<Rightarrow> fact_store_manifest" where
  "manifest_rotate now new_hour_tag m =
     m\<lparr>sealed_event_files := sealed_event_files m @ [active_event_file m],
       active_event_file := active_name new_hour_tag, fm_updated_at := now\<rparr>"

text \<open>\<^verbatim>\<open>str::strip_prefix\<close> and \<^verbatim>\<open>str::strip_suffix\<close>.\<close>

definition strip_prefix :: "'a list \<Rightarrow> 'a list \<Rightarrow> 'a list option" where
  "strip_prefix p s = (if prefix p s then Some (drop (length p) s) else None)"

definition strip_suffix :: "'a list \<Rightarrow> 'a list \<Rightarrow> 'a list option" where
  "strip_suffix x s = (if suffix x s then Some (take (length s - length x) s) else None)"

definition obind :: "'a option \<Rightarrow> ('a \<Rightarrow> 'b option) \<Rightarrow> 'b option" where
  "obind x f = (case x of Some y \<Rightarrow> f y | None \<Rightarrow> None)"

text \<open>The hour a tag names: chrono parses the tag with \<^verbatim>\<open>:00:00\<close> behind it. The argument is chrono's
  parser for \<^verbatim>\<open>%Y-%m-%dT%H:%M:%S\<close>.\<close>

definition older_than :: "(string \<Rightarrow> datetime option) \<Rightarrow> datetime \<Rightarrow> u32 \<Rightarrow> string \<Rightarrow> bool" where
  "older_than parse now hours tag =
     (case parse (tag @ '':00:00'') of
        Some sealed_at \<Rightarrow> now - sealed_at > uint hours * nanos_per_hour
      | None \<Rightarrow> False)"

definition compaction_candidates ::
    "(string \<Rightarrow> datetime option) \<Rightarrow> datetime \<Rightarrow> fact_store_manifest \<Rightarrow> string list" where
  "compaction_candidates parse now m =
     filter (\<lambda>f. case obind (strip_prefix ''events-sealed-'' f) (strip_suffix ''.jsonl'') of
         Some tag \<Rightarrow> older_than parse now (compact_after_hours (fm_retention m)) tag
       | None \<Rightarrow> False) (sealed_event_files m)"

section \<open>Disk\<close>

type_synonym disk = "string \<rightharpoonup> string"

datatype io_call =
  Call_CreateDir string
| Call_Open string
| Call_Read string
| Call_Flush string
| Call_Rename string string
| Call_Write string
| Call_Remove string

record fact_io =
  io_hour_tag :: "datetime \<Rightarrow> string"
  io_parse :: "string \<Rightarrow> datetime option"
  io_event_json :: "fact_emitter \<Rightarrow> string option"
  io_manifest_json :: "fact_store_manifest \<Rightarrow> string option"
  io_manifest_of :: "string \<Rightarrow> fact_store_manifest option"
  io_fault :: "io_call \<Rightarrow> string option"

record buf_writer =
  bw_path :: string
  bw_pending :: string

definition path_join :: "string \<Rightarrow> string \<Rightarrow> string" where
  "path_join base name = base @ ''/'' @ name"

definition manifest_file :: string where "manifest_file = ''derived-manifest.json''"

definition attempt :: "fact_io \<Rightarrow> io_call \<Rightarrow> 'a \<Rightarrow> string + 'a" where
  "attempt io call x = (case io_fault io call of Some e \<Rightarrow> Inl e | None \<Rightarrow> Inr x)"

definition open_append :: "fact_io \<Rightarrow> string \<Rightarrow> disk \<Rightarrow> string + buf_writer \<times> disk" where
  "open_append io path d =
     attempt io (Call_Open path)
       (\<lparr>bw_path = path, bw_pending = []\<rparr>, d(path \<mapsto> (case d path of Some c \<Rightarrow> c | None \<Rightarrow> [])))"

definition open_truncate :: "fact_io \<Rightarrow> string \<Rightarrow> disk \<Rightarrow> string + buf_writer \<times> disk" where
  "open_truncate io path d =
     attempt io (Call_Open path) (\<lparr>bw_path = path, bw_pending = []\<rparr>, d(path \<mapsto> []))"

definition write_file :: "fact_io \<Rightarrow> string \<Rightarrow> string \<Rightarrow> disk \<Rightarrow> string + disk" where
  "write_file io path content d = attempt io (Call_Write path) (d(path \<mapsto> content))"

text \<open>Flushing appends the pending bytes to the file; those for a file that has been unlinked are gone.\<close>

definition flush_writer :: "fact_io \<Rightarrow> buf_writer \<Rightarrow> disk \<Rightarrow> string + buf_writer \<times> disk" where
  "flush_writer io w d =
     attempt io (Call_Flush (bw_path w))
       (w\<lparr>bw_pending := []\<rparr>,
        case d (bw_path w) of Some c \<Rightarrow> d(bw_path w \<mapsto> c @ bw_pending w) | None \<Rightarrow> d)"

section \<open>Writer\<close>

record writer_state =
  ws_current_hour_tag :: string
  ws_writer :: "buf_writer option"
  ws_manifest :: fact_store_manifest
  ws_total_events :: u64

record fact_event_writer =
  fw_base_dir :: string
  fw_inner :: writer_state
  fw_retention :: retention_config

definition extract_hour_tag :: "string \<Rightarrow> string option" where
  "extract_hour_tag filename =
     obind (case strip_prefix ''events-active-'' filename of
              Some s \<Rightarrow> Some s
            | None \<Rightarrow> strip_prefix ''events-sealed-'' filename)
       (strip_suffix ''.jsonl'')"

definition persist_manifest :: "fact_io \<Rightarrow> string \<Rightarrow> writer_state \<Rightarrow> disk \<Rightarrow> string + disk" where
  "persist_manifest io base st d =
     (case io_manifest_json io (ws_manifest st) of
        Some json \<Rightarrow> write_file io (path_join base manifest_file) json d
      | None \<Rightarrow> Inr d)"

definition with_retention ::
    "fact_io \<Rightarrow> datetime \<Rightarrow> string \<Rightarrow> retention_config \<Rightarrow> disk \<Rightarrow> string + fact_event_writer \<times> disk" where
  "with_retention io now base retention d =
     rbind (attempt io (Call_CreateDir base) ()) (\<lambda>_.
     let hour_tag = io_hour_tag io now;
         manifest_path = path_join base manifest_file;
         fresh = (let m = manifest_new now hour_tag in
                  rbind (open_truncate io (path_join base (active_event_file m)) d) (\<lambda>(w, d). Inr (m, w, d)))
     in rbind (case d manifest_path of
                 Some json \<Rightarrow>
                   rbind (attempt io (Call_Read manifest_path) json) (\<lambda>json.
                     case io_manifest_of io json of
                       Some m \<Rightarrow>
                         if extract_hour_tag (active_event_file m) = Some hour_tag
                         then rbind (open_append io (path_join base (active_event_file m)) d)
                                (\<lambda>(w, d). Inr (m, w, d))
                         else let m = manifest_rotate now hour_tag m in
                           rbind (open_truncate io (path_join base (active_event_file m)) d)
                             (\<lambda>(w, d). Inr (m, w, d))
                     | None \<Rightarrow> fresh)
               | None \<Rightarrow> fresh)
        (\<lambda>(m, w, d).
          let st = \<lparr>ws_current_hour_tag = hour_tag, ws_writer = Some w, ws_manifest = m, ws_total_events = 0\<rparr>
          in rbind (persist_manifest io base st d) (\<lambda>d.
               Inr (\<lparr>fw_base_dir = base, fw_inner = st, fw_retention = retention\<rparr>, d))))"

definition fact_event_writer_new ::
    "fact_io \<Rightarrow> datetime \<Rightarrow> string \<Rightarrow> disk \<Rightarrow> string + fact_event_writer \<times> disk" where
  "fact_event_writer_new io now base d = with_retention io now base retention_config_default d"

text \<open>\<^verbatim>\<open>str::replace\<close> with a non-empty pattern: every occurrence from the left.\<close>

function str_replace :: "'a list \<Rightarrow> 'a list \<Rightarrow> 'a list \<Rightarrow> 'a list" where
  "str_replace pat rep s =
     (if s = [] \<or> pat = [] then s
      else if prefix pat s then rep @ str_replace pat rep (drop (length pat) s)
      else hd s # str_replace pat rep (tl s))"
  by pat_completeness auto
termination
  by (relation "measure (\<lambda>(pat, rep, s). length s)") auto

declare str_replace.simps [simp del]

text \<open>An operation under the lock returns its outcome, the state and the disk; an error ends it and keeps
  what was changed before.\<close>

type_synonym store_step = "writer_state \<times> disk \<Rightarrow> (string + unit) \<times> writer_state \<times> disk"

definition seq_steps :: "store_step \<Rightarrow> store_step \<Rightarrow> store_step" where
  "seq_steps f g s = (case f s of (Inl e, s') \<Rightarrow> (Inl e, s') | (Inr _, s') \<Rightarrow> g s')"

definition close_writer :: "fact_io \<Rightarrow> store_step" where
  "close_writer io s =
     (let (st, d) = s in
      case ws_writer st of
        None \<Rightarrow> (Inr (), st, d)
      | Some w \<Rightarrow>
          (case flush_writer io w d of
             Inl e \<Rightarrow> (Inl e, st\<lparr>ws_writer := None\<rparr>, d)
           | Inr (_, d') \<Rightarrow> (Inr (), st\<lparr>ws_writer := None\<rparr>, d')))"

definition seal_active :: "fact_io \<Rightarrow> string \<Rightarrow> store_step" where
  "seal_active io base s =
     (let (st, d) = s; m = ws_manifest st; old_active = path_join base (active_event_file m) in
      case d old_active of
        None \<Rightarrow> (Inr (), st, d)
      | Some content \<Rightarrow>
          let sealed_name = str_replace ''events-active-'' ''events-sealed-'' (active_event_file m);
              sealed_path = path_join base sealed_name;
              st' = st\<lparr>ws_manifest := m\<lparr>sealed_event_files := sealed_event_files m @ [sealed_name]\<rparr>\<rparr>
          in if d sealed_path \<noteq> None then (Inr (), st', d)
             else case attempt io (Call_Rename old_active sealed_path) (d(old_active := None, sealed_path \<mapsto> content)) of
                 Inl e \<Rightarrow> (Inl e, st, d)
               | Inr d' \<Rightarrow> (Inr (), st', d'))"

definition open_next :: "fact_io \<Rightarrow> datetime \<Rightarrow> string \<Rightarrow> string \<Rightarrow> store_step" where
  "open_next io now base new_hour_tag s =
     (let (st, d) = s;
          st = st\<lparr>ws_manifest := manifest_rotate now new_hour_tag (ws_manifest st),
                  ws_current_hour_tag := new_hour_tag\<rparr>
      in case open_truncate io (path_join base (active_event_file (ws_manifest st))) d of
           Inl e \<Rightarrow> (Inl e, st, d)
         | Inr (w, d') \<Rightarrow> (Inr (), st\<lparr>ws_writer := Some w\<rparr>, d'))"

definition persist_step :: "fact_io \<Rightarrow> string \<Rightarrow> store_step" where
  "persist_step io base s =
     (let (st, d) = s in
      case persist_manifest io base st d of Inl e \<Rightarrow> (Inl e, st, d) | Inr d' \<Rightarrow> (Inr (), st, d'))"

definition rotate_locked :: "fact_io \<Rightarrow> datetime \<Rightarrow> string \<Rightarrow> string \<Rightarrow> store_step" where
  "rotate_locked io now base new_hour_tag =
     seq_steps (close_writer io)
       (seq_steps (seal_active io base)
         (seq_steps (open_next io now base new_hour_tag) (persist_step io base)))"

definition append_line :: "fact_io \<Rightarrow> fact_emitter \<Rightarrow> store_step" where
  "append_line io event s =
     (let (st, d) = s in
      case io_event_json io event of
        None \<Rightarrow> (Inr (), st, d)
      | Some line \<Rightarrow>
          (case ws_writer st of
             None \<Rightarrow> (Inr (), st, d)
           | Some w \<Rightarrow>
               let w = w\<lparr>bw_pending := bw_pending w @ line @ [newline]\<rparr> in
               case flush_writer io w d of
                 Inl e \<Rightarrow> (Inl e, st\<lparr>ws_writer := Some w\<rparr>, d)
               | Inr (w', d') \<Rightarrow> (Inr (), st\<lparr>ws_writer := Some w'\<rparr>, d')))"

definition count_event :: "datetime \<Rightarrow> store_step" where
  "count_event now s =
     (let (st, d) = s; n = ws_total_events st + 1; m = ws_manifest st in
      (Inr (), st\<lparr>ws_total_events := n,
         ws_manifest := m\<lparr>fm_counters := (fm_counters m)\<lparr>meaningful_events_total := n\<rparr>, fm_updated_at := now\<rparr>\<rparr>, d))"

definition write_locked :: "fact_io \<Rightarrow> datetime \<Rightarrow> string \<Rightarrow> fact_emitter \<Rightarrow> store_step" where
  "write_locked io now base event =
     seq_steps (\<lambda>s. let hour_tag = io_hour_tag io now in
                  if hour_tag \<noteq> ws_current_hour_tag (fst s) then rotate_locked io now base hour_tag s else (Inr (), s))
       (seq_steps (append_line io event) (seq_steps (count_event now) (persist_step io base)))"

definition with_lock ::
    "store_step \<Rightarrow> fact_event_writer \<Rightarrow> disk \<Rightarrow> (string + unit) \<times> fact_event_writer \<times> disk" where
  "with_lock step w d = (case step (fw_inner w, d) of (r, st, d') \<Rightarrow> (r, w\<lparr>fw_inner := st\<rparr>, d'))"

definition write_event ::
    "fact_io \<Rightarrow> datetime \<Rightarrow> fact_emitter \<Rightarrow> fact_event_writer \<Rightarrow> disk \<Rightarrow> (string + unit) \<times> fact_event_writer \<times> disk" where
  "write_event io now event w = with_lock (write_locked io now (fw_base_dir w) event) w"

definition store_rotate ::
    "fact_io \<Rightarrow> datetime \<Rightarrow> string \<Rightarrow> fact_event_writer \<Rightarrow> disk \<Rightarrow> (string + unit) \<times> fact_event_writer \<times> disk" where
  "store_rotate io now new_hour_tag w = with_lock (rotate_locked io now (fw_base_dir w) new_hour_tag) w"

definition store_manifest :: "fact_event_writer \<Rightarrow> fact_store_manifest" where
  "store_manifest w = ws_manifest (fw_inner w)"

definition store_total_events :: "fact_event_writer \<Rightarrow> u64" where
  "store_total_events w = ws_total_events (fw_inner w)"

section \<open>Retention\<close>

definition expired_name :: "fact_io \<Rightarrow> datetime \<Rightarrow> u32 \<Rightarrow> string \<Rightarrow> bool" where
  "expired_name io now hours name =
     (case extract_hour_tag name of Some tag \<Rightarrow> older_than (io_parse io) now hours tag | None \<Rightarrow> False)"

fun retain_names ::
    "fact_io \<Rightarrow> datetime \<Rightarrow> u32 \<Rightarrow> string \<Rightarrow> string list \<Rightarrow> disk \<Rightarrow> string list \<times> disk" where
  "retain_names io now hours base [] d = ([], d)"
| "retain_names io now hours base (name # names) d =
     (if expired_name io now hours name then
        let path = path_join base name;
            d = (if d path \<noteq> None \<and> io_fault io (Call_Remove path) = None then d(path := None) else d)
        in retain_names io now hours base names d
      else case retain_names io now hours base names d of (kept, d) \<Rightarrow> (name # kept, d))"

definition retention_step :: "fact_io \<Rightarrow> datetime \<Rightarrow> string \<Rightarrow> u32 \<Rightarrow> store_step" where
  "retention_step io now base hours s =
     (let (st, d) = s;
          (kept, d) = retain_names io now hours base (sealed_event_files (ws_manifest st)) d
      in (Inr (), st\<lparr>ws_manifest := (ws_manifest st)\<lparr>sealed_event_files := kept\<rparr>\<rparr>, d))"

definition apply_retention ::
    "fact_io \<Rightarrow> datetime \<Rightarrow> fact_event_writer \<Rightarrow> disk \<Rightarrow> (string + unit) \<times> fact_event_writer \<times> disk" where
  "apply_retention io now w =
     with_lock (seq_steps (retention_step io now (fw_base_dir w) (keep_sealed_hours (fw_retention w)))
                  (persist_step io (fw_base_dir w))) w"

text \<open>The fact writer worker of \<^verbatim>\<open>governance_worker.rs\<close>: every received event is written, an error is only
  logged. The list pairs each event with the time at which it is written.\<close>

definition fact_writer_run ::
    "fact_io \<Rightarrow> (datetime \<times> fact_emitter) list \<Rightarrow> fact_event_writer \<times> disk \<Rightarrow> fact_event_writer \<times> disk" where
  "fact_writer_run io events s = fold (\<lambda>(now, e) (w, d). snd (write_event io now e w d)) events s"

section \<open>Names and paths\<close>

definition sealed_name :: "string \<Rightarrow> string" where
  "sealed_name hour_tag = ''events-sealed-'' @ hour_tag @ ''.jsonl''"

lemma str_replace_absent:
  "c \<in> set pat \<Longrightarrow> c \<notin> set s \<Longrightarrow> str_replace pat rep s = s"
proof (induction s)
  case (Cons x s)
  then have "\<not> prefix pat (x # s)" by (meson set_mono_prefix subsetD)
  with Cons show ?case by (subst str_replace.simps) simp
qed (simp add: str_replace.simps)

lemma seal_name: "CHR ''e'' \<notin> set tag \<Longrightarrow>
    str_replace ''events-active-'' ''events-sealed-'' (active_name tag) = sealed_name tag"
  using str_replace_absent [of "CHR ''e''" "''events-active-''" "tag @ ''.jsonl''" "''events-sealed-''"]
  by (simp add: active_name_def sealed_name_def str_replace.simps)

lemma extract_active [simp]: "extract_hour_tag (active_name tag) = Some tag"
  by (simp add: extract_hour_tag_def active_name_def obind_def strip_prefix_def strip_suffix_def suffix_def)

lemma extract_sealed [simp]: "extract_hour_tag (sealed_name tag) = Some tag"
  by (simp add: extract_hour_tag_def sealed_name_def obind_def strip_prefix_def strip_suffix_def suffix_def)

lemma names_distinct [simp]:
  "active_name t = active_name t' \<longleftrightarrow> t = t'" "sealed_name t = sealed_name t' \<longleftrightarrow> t = t'"
  "active_name t \<noteq> sealed_name t'" "sealed_name t' \<noteq> active_name t"
  "active_name t \<noteq> manifest_file" "manifest_file \<noteq> active_name t"
  "sealed_name t \<noteq> manifest_file" "manifest_file \<noteq> sealed_name t"
  by (simp_all add: active_name_def sealed_name_def manifest_file_def)

lemma path_join_inj [simp]: "path_join b x = path_join b y \<longleftrightarrow> x = y"
  by (simp add: path_join_def)

section \<open>Steps on a healthy disk\<close>

definition healthy :: "fact_io \<Rightarrow> bool" where
  "healthy io \<longleftrightarrow> io_fault io = (\<lambda>_. None)"

text \<open>Writing the manifest changes no event file.\<close>

definition same_events :: "string \<Rightarrow> disk \<Rightarrow> disk \<Rightarrow> bool" where
  "same_events base d d' \<longleftrightarrow> (\<forall>p. p \<noteq> path_join base manifest_file \<longrightarrow> d' p = d p)"

lemma same_eventsD:
  assumes "same_events base d d'"
  shows "d' (path_join base (active_name t)) = d (path_join base (active_name t))"
    and "d' (path_join base (sealed_name t)) = d (path_join base (sealed_name t))"
  using assms by (simp_all add: same_events_def)

lemma persist_step_healthy:
  assumes "healthy io"
  obtains d' where "persist_step io base (st, d) = (Inr (), st, d')" "same_events base d d'"
  using assms
  by (cases "io_manifest_json io (ws_manifest st)")
    (auto simp: persist_step_def persist_manifest_def write_file_def attempt_def healthy_def same_events_def)

text \<open>The state of the writer between two operations: the file of the current hour is open, with nothing
  pending, and the manifest names it.\<close>

definition writer_at :: "string \<Rightarrow> string \<Rightarrow> writer_state \<Rightarrow> bool" where
  "writer_at base tag st \<longleftrightarrow>
     ws_current_hour_tag st = tag \<and> active_event_file (ws_manifest st) = active_name tag \<and>
     ws_writer st = Some \<lparr>bw_path = path_join base (active_name tag), bw_pending = []\<rparr>"

lemma append_healthy:
  assumes "healthy io" "writer_at base tag st" "io_event_json io e = Some line"
    "d (path_join base (active_name tag)) = Some c"
  obtains st' d' where
    "seq_steps (append_line io e) (seq_steps (count_event now) (persist_step io base)) (st, d) = (Inr (), st', d')"
    "writer_at base tag st'" "ws_total_events st' = ws_total_events st + 1"
    "same_events base (d(path_join base (active_name tag) \<mapsto> c @ line @ [newline])) d'"
proof -
  let ?d = "d(path_join base (active_name tag) \<mapsto> c @ line @ [newline])"
  obtain st1 where st1: "append_line io e (st, d) = (Inr (), st1, ?d)" "writer_at base tag st1"
      "ws_total_events st1 = ws_total_events st"
    using assms by (simp add: append_line_def writer_at_def flush_writer_def attempt_def healthy_def)
  obtain st2 where st2: "count_event now (st1, ?d) = (Inr (), st2, ?d)" "writer_at base tag st2"
      "ws_total_events st2 = ws_total_events st + 1"
    using st1 by (simp add: count_event_def writer_at_def Let_def)
  from persist_step_healthy [OF assms(1), of base st2 ?d] obtain d' where
    "persist_step io base (st2, ?d) = (Inr (), st2, d')" "same_events base ?d d'" by blast
  with st1 st2 that show thesis by (simp add: seq_steps_def)
qed

lemma rotate_healthy:
  assumes "healthy io" "writer_at base tag st" "CHR ''e'' \<notin> set tag" "new \<noteq> tag"
    "d (path_join base (active_name tag)) = Some c" "d (path_join base (sealed_name tag)) = None"
  obtains st' d' where "rotate_locked io now base new (st, d) = (Inr (), st', d')"
    "writer_at base new st'" "ws_total_events st' = ws_total_events st"
    "same_events base (d(path_join base (active_name tag) := None, path_join base (sealed_name tag) \<mapsto> c,
       path_join base (active_name new) \<mapsto> [])) d'"
proof -
  let ?a = "path_join base (active_name tag)" and ?s = "path_join base (sealed_name tag)"
  let ?d = "d(?a := None, ?s \<mapsto> c, path_join base (active_name new) \<mapsto> [])"
  have closed: "close_writer io (st, d) = (Inr (), st\<lparr>ws_writer := None\<rparr>, d)"
    using assms(1,2,5) by (auto simp: close_writer_def writer_at_def flush_writer_def attempt_def healthy_def)
  obtain st1 where sealed: "seal_active io base (st\<lparr>ws_writer := None\<rparr>, d) = (Inr (), st1, d(?a := None, ?s \<mapsto> c))"
      "active_event_file (ws_manifest st1) = active_name tag" "ws_total_events st1 = ws_total_events st"
    using assms by (simp add: seal_active_def Let_def writer_at_def seal_name attempt_def healthy_def)
  obtain st2 where opened: "open_next io now base new (st1, d(?a := None, ?s \<mapsto> c)) = (Inr (), st2, ?d)"
      "writer_at base new st2" "ws_total_events st2 = ws_total_events st"
    using assms(1) sealed(3)
    by (simp add: open_next_def Let_def manifest_rotate_def open_truncate_def attempt_def healthy_def writer_at_def)
  from persist_step_healthy [OF assms(1), of base st2 ?d] obtain d' where
    "persist_step io base (st2, ?d) = (Inr (), st2, d')" "same_events base ?d d'" by blast
  with closed sealed opened that show thesis by (simp add: rotate_locked_def seq_steps_def)
qed

section \<open>The log in the files\<close>

text \<open>The lines of the events written in the hour of \<open>t\<close>, in order.\<close>

definition same_hour :: "datetime \<Rightarrow> datetime \<Rightarrow> bool" where
  "same_hour t t' \<longleftrightarrow> t div nanos_per_hour = t' div nanos_per_hour"

definition hour_lines :: "fact_io \<Rightarrow> (datetime \<times> fact_emitter) list \<Rightarrow> datetime \<Rightarrow> string" where
  "hour_lines io events t =
     concat (map (\<lambda>(_, e). the (io_event_json io e) @ [newline]) (filter (\<lambda>(t', _). same_hour t' t) events))"

text \<open>The file of an hour: sealed, unless it is the hour the writer is in.\<close>

definition event_path :: "string \<Rightarrow> string \<Rightarrow> string \<Rightarrow> string" where
  "event_path base current tag = path_join base (if tag = current then active_name tag else sealed_name tag)"

text \<open>What the store relies on: chrono's tag tells the hours of the given times apart, and has no letter of
  the file name prefix in it.\<close>

definition hours_named :: "fact_io \<Rightarrow> datetime list \<Rightarrow> bool" where
  "hours_named io ts \<longleftrightarrow>
     (\<forall>t \<in> set ts. \<forall>t' \<in> set ts. io_hour_tag io t = io_hour_tag io t' \<longleftrightarrow> same_hour t t') \<and>
     (\<forall>t \<in> set ts. CHR ''e'' \<notin> set (io_hour_tag io t))"

text \<open>The log relation: \<open>seen\<close> are the times so far, the last one gives the current hour.\<close>

definition log_at ::
    "fact_io \<Rightarrow> string \<Rightarrow> datetime list \<Rightarrow> datetime list \<Rightarrow> (datetime \<times> fact_emitter) list \<Rightarrow> writer_state \<Rightarrow> disk \<Rightarrow> bool" where
  "log_at io base all seen events st d \<longleftrightarrow>
     seen \<noteq> [] \<and>
     (let cur = io_hour_tag io (last seen) in
      writer_at base cur st \<and>
      (\<forall>t \<in> set seen. d (event_path base cur (io_hour_tag io t)) = Some (hour_lines io events t)) \<and>
      (\<forall>t \<in> set all. (\<forall>u \<in> set seen. io_hour_tag io t \<noteq> io_hour_tag io u) \<or> io_hour_tag io t = cur \<longrightarrow>
         d (path_join base (sealed_name (io_hour_tag io t))) = None))"

lemma hour_lines_snoc:
  "hour_lines io (events @ [(now, e)]) t =
     hour_lines io events t @ (if same_hour now t then the (io_event_json io e) @ [newline] else [])"
  by (simp add: hour_lines_def)

lemma hour_lines_none: "(\<And>t'. t' \<in> fst ` set events \<Longrightarrow> \<not> same_hour t' t) \<Longrightarrow> hour_lines io events t = []"
  by (force simp: hour_lines_def filter_empty_conv)

lemma same_hour_mono: "t \<le> u \<Longrightarrow> u \<le> v \<Longrightarrow> same_hour t v \<Longrightarrow> same_hour u v"
  using zdiv_mono1 [of t u nanos_per_hour] zdiv_mono1 [of u v nanos_per_hour]
  by (simp add: same_hour_def nanos_per_hour_def)

lemma hour_lines_cong: "same_hour t u \<Longrightarrow> hour_lines io events t = hour_lines io events u"
  by (simp add: hour_lines_def same_hour_def)

lemma log_file:
  "log_at io base all seen events st d \<Longrightarrow> t \<in> set seen \<Longrightarrow>
   d (event_path base (io_hour_tag io (last seen)) (io_hour_tag io t)) = Some (hour_lines io events t)"
  unfolding log_at_def Let_def by blast

lemma hours_namedD:
  "hours_named io ts \<Longrightarrow> t \<in> set ts \<Longrightarrow> u \<in> set ts \<Longrightarrow> io_hour_tag io t = io_hour_tag io u \<longleftrightarrow> same_hour t u"
  by (simp add: hours_named_def)

lemma same_hour_sym: "same_hour t u = same_hour u t"
  by (auto simp: same_hour_def)

lemma log_current:
  assumes "log_at io base all seen events st d"
  shows "last seen \<in> set seen" "writer_at base (io_hour_tag io (last seen)) st"
    "d (path_join base (active_name (io_hour_tag io (last seen)))) = Some (hour_lines io events (last seen))"
proof -
  show l: "last seen \<in> set seen" using assms by (simp add: log_at_def)
  show "writer_at base (io_hour_tag io (last seen)) st" using assms by (simp add: log_at_def Let_def)
  show "d (path_join base (active_name (io_hour_tag io (last seen)))) = Some (hour_lines io events (last seen))"
    using log_file [OF assms l] by (simp add: event_path_def)
qed

lemma log_append:
  assumes "healthy io" "hours_named io all" "log_at io base all seen events st d" "set seen \<subseteq> set all"
    "io_event_json io e = Some line" "last seen = now"
  obtains st' d' where
    "seq_steps (append_line io e) (seq_steps (count_event now) (persist_step io base)) (st, d) = (Inr (), st', d')"
    "log_at io base all seen (events @ [(now, e)]) st' d'" "ws_total_events st' = ws_total_events st + 1"
proof -
  let ?cur = "io_hour_tag io now"
  note cur = log_current [OF assms(3), unfolded assms(6)]
  from append_healthy [OF assms(1) cur(2) assms(5), of d _ now, OF cur(3)] obtain st' d' where
    st': "seq_steps (append_line io e) (seq_steps (count_event now) (persist_step io base)) (st, d) = (Inr (), st', d')"
      "writer_at base ?cur st'" "ws_total_events st' = ws_total_events st + 1"
    and d': "same_events base (d(path_join base (active_name ?cur) \<mapsto> hour_lines io events now @ line @ [newline])) d'"
    by blast
  have tag: "io_hour_tag io t = ?cur \<longleftrightarrow> same_hour now t" if "t \<in> set seen" for t
    using hours_namedD [OF assms(2), of t now] assms(4) that cur(1) same_hour_sym by blast
  have "d' (event_path base ?cur (io_hour_tag io t)) = Some (hour_lines io (events @ [(now, e)]) t)"
    if t: "t \<in> set seen" for t
  proof (cases "same_hour now t")
    case True
    with tag [OF t] hour_lines_cong [of now t] assms(5) show ?thesis
      by (simp add: event_path_def hour_lines_snoc same_eventsD [OF d'])
  next
    case False
    with tag [OF t] log_file [OF assms(3) t] assms(6) show ?thesis
      by (simp add: event_path_def hour_lines_snoc same_eventsD [OF d'])
  qed
  with assms(3,6) st'(2) have "log_at io base all seen (events @ [(now, e)]) st' d'"
    by (auto simp: log_at_def Let_def same_eventsD [OF d'])
  with st' that show thesis by blast
qed

lemma log_same_hour:
  assumes "hours_named io all" "log_at io base all seen events st d" "set seen \<subseteq> set all" "now \<in> set all"
    "io_hour_tag io now = io_hour_tag io (last seen)"
  shows "log_at io base all (seen @ [now]) events st d"
proof -
  have "last seen \<in> set seen" using assms(2) by (simp add: log_at_def)
  moreover from this have "same_hour now (last seen)"
    using assms(1,3,4,5) by (auto simp: hours_named_def)
  ultimately show ?thesis
    using assms(2,5) hour_lines_cong [of now "last seen"] by (auto simp: log_at_def Let_def)
qed

lemma log_rotated:
  assumes "healthy io" "hours_named io all" "log_at io base all seen events st d" "set seen \<subseteq> set all" "now \<in> set all"
    and "io_hour_tag io now \<noteq> io_hour_tag io (last seen)" "\<forall>u \<in> set seen. u \<le> last seen" "last seen \<le> now"
    and "fst ` set events \<subseteq> set seen"
  obtains st' d' where "rotate_locked io now base (io_hour_tag io now) (st, d) = (Inr (), st', d')"
    "log_at io base all (seen @ [now]) events st' d'" "ws_total_events st' = ws_total_events st"
proof -
  let ?old = "io_hour_tag io (last seen)" and ?new = "io_hour_tag io now"
  let ?c = "hour_lines io events (last seen)"
  have last: "last seen \<in> set seen" "last seen \<in> set all" and at: "writer_at base ?old st"
    using assms(3,4) by (auto simp: log_at_def Let_def)
  have tags: "io_hour_tag io t = io_hour_tag io u \<longleftrightarrow> same_hour t u" if "t \<in> set all" "u \<in> set all" for t u
    using hours_namedD [OF assms(2) that] .
  have later: "\<not> same_hour u now" if "u \<in> set seen" for u
    using same_hour_mono [of u "last seen" now] assms(6-8) that tags [OF assms(5) last(2)]
    by (auto simp: same_hour_def)
  have fresh: "io_hour_tag io u \<noteq> ?new" if "u \<in> set seen" for u
    using later [OF that] tags [OF _ assms(5)] that assms(4) by auto
  have files: "d (path_join base (active_name ?old)) = Some ?c" "d (path_join base (sealed_name ?old)) = None"
    using assms(3) last log_current(3) [OF assms(3)] by (auto simp: log_at_def Let_def)
  have "CHR ''e'' \<notin> set ?old" using assms(2) last(2) by (simp add: hours_named_def)
  from rotate_healthy [OF assms(1) at this assms(6), of d ?c now, OF files] obtain st' d' where
    st': "rotate_locked io now base ?new (st, d) = (Inr (), st', d')" "writer_at base ?new st'"
      "ws_total_events st' = ws_total_events st"
    and d': "same_events base (d(path_join base (active_name ?old) := None, path_join base (sealed_name ?old) \<mapsto> ?c,
       path_join base (active_name ?new) \<mapsto> [])) d'"
    by blast
  have none: "hour_lines io events now = []"
    using later assms(9) by (intro hour_lines_none) auto
  have "d' (event_path base ?new (io_hour_tag io t)) = Some (hour_lines io events t)" if t: "t \<in> set seen" for t
  proof (cases "io_hour_tag io t = ?old")
    case True
    then have "same_hour t (last seen)" using tags [of t "last seen"] t last(2) assms(4) by auto
    with True assms(6) hour_lines_cong [of t "last seen"] show ?thesis
      by (simp add: event_path_def same_eventsD [OF d'])
  next
    case False
    with fresh [OF t] log_file [OF assms(3) t] show ?thesis
      by (simp add: event_path_def same_eventsD [OF d'])
  qed
  with assms(3) st'(2) none fresh assms(6) have "log_at io base all (seen @ [now]) events st' d'"
    by (auto simp: log_at_def Let_def same_eventsD [OF d'] event_path_def)
  with st' that show thesis by blast
qed

lemma write_locked_log:
  assumes "healthy io" "hours_named io all" "log_at io base all seen events st d" "set (seen @ [now]) \<subseteq> set all"
    and "\<forall>u \<in> set seen. u \<le> last seen" "last seen \<le> now" "fst ` set events \<subseteq> set seen"
    and "io_event_json io e = Some line"
  obtains st' d' where "write_locked io now base e (st, d) = (Inr (), st', d')"
    "log_at io base all (seen @ [now]) (events @ [(now, e)]) st' d'" "ws_total_events st' = ws_total_events st + 1"
proof -
  let ?tag = "io_hour_tag io now"
  have cur: "ws_current_hour_tag st = io_hour_tag io (last seen)"
    using log_current(2) [OF assms(3)] by (simp add: writer_at_def)
  obtain st1 d1 where r: "(if ?tag \<noteq> ws_current_hour_tag st then rotate_locked io now base ?tag (st, d)
        else (Inr (), st, d)) = (Inr (), st1, d1)"
      and l: "log_at io base all (seen @ [now]) events st1 d1" "ws_total_events st1 = ws_total_events st"
  proof (cases "?tag = io_hour_tag io (last seen)")
    case True
    with that [of st d] cur assms(4) log_same_hour [OF assms(2,3)] show thesis by simp
  next
    case False
    from log_rotated [OF assms(1-3) _ _ False assms(5-7)] assms(4) obtain st' d' where
      "rotate_locked io now base ?tag (st, d) = (Inr (), st', d')"
      "log_at io base all (seen @ [now]) events st' d'" "ws_total_events st' = ws_total_events st"
      by auto
    with that False cur show thesis by simp
  qed
  from log_append [OF assms(1,2) l(1) assms(4,8)] obtain st' d' where
    "seq_steps (append_line io e) (seq_steps (count_event now) (persist_step io base)) (st1, d1) = (Inr (), st', d')"
    "log_at io base all (seen @ [now]) (events @ [(now, e)]) st' d'" "ws_total_events st' = ws_total_events st1 + 1"
    by auto
  with that r l(2) show thesis by (simp add: write_locked_def seq_steps_def Let_def)
qed

lemma sorted_last_max: "sorted xs \<Longrightarrow> x \<in> set xs \<Longrightarrow> x \<le> last xs" for x :: "'a :: linorder"
  by (induction xs) (auto split: if_splits)

lemma run_log:
  assumes "healthy io" "hours_named io all" "log_at io base all [t0] [] (fw_inner w) d" "fw_base_dir w = base"
    "sorted (t0 # map fst events)" "set (t0 # map fst events) \<subseteq> set all"
    "\<forall>(t, e) \<in> set events. io_event_json io e \<noteq> None"
  shows "\<exists>w' d'. fact_writer_run io events (w, d) = (w', d') \<and>
    log_at io base all (t0 # map fst events) events (fw_inner w') d' \<and> fw_base_dir w' = base \<and>
    store_total_events w' = store_total_events w + of_nat (length events)"
  using assms(5-7)
proof (induction events rule: rev_induct)
  case Nil
  then show ?case using assms by (simp add: fact_writer_run_def)
next
  case (snoc x events)
  obtain now e where x: "x = (now, e)" by fastforce
  let ?seen = "t0 # map fst events"
  have seen: "t0 # map fst (events @ [x]) = ?seen @ [now]" using x by simp
  have prems: "sorted ?seen" "last ?seen \<le> now" "set (?seen @ [now]) \<subseteq> set all"
    using snoc.prems(1,2) last_in_set [of ?seen] unfolding seen sorted_append by auto
  with snoc.IH snoc.prems obtain w' d' where IH: "fact_writer_run io events (w, d) = (w', d')"
      "log_at io base all ?seen events (fw_inner w') d'" "fw_base_dir w' = base"
      "store_total_events w' = store_total_events w + of_nat (length events)"
    by (auto simp: sorted_append)
  obtain line where "io_event_json io e = Some line" using snoc.prems(3) x by auto
  moreover have "\<forall>u \<in> set ?seen. u \<le> last ?seen" "fst ` set events \<subseteq> set ?seen"
    using sorted_last_max [OF prems(1)] by auto
  ultimately obtain st' d'' where "write_locked io now base e (fw_inner w', d') = (Inr (), st', d'')"
      "log_at io base all (?seen @ [now]) (events @ [(now, e)]) st' d''"
      "ws_total_events st' = ws_total_events (fw_inner w') + 1"
    using write_locked_log [OF assms(1,2) IH(2) prems(3) _ prems(2)] by blast
  with IH x show ?case
    by (simp add: fact_writer_run_def write_event_def with_lock_def store_total_events_def)
qed

lemma fresh_log:
  assumes "healthy io" "hours_named io all" "t0 \<in> set all" "d (path_join base manifest_file) = None"
    "\<forall>t \<in> set all. d (path_join base (sealed_name (io_hour_tag io t))) = None"
  obtains w d' where "with_retention io t0 base retention d = Inr (w, d')"
    "log_at io base all [t0] [] (fw_inner w) d'" "fw_base_dir w = base" "store_total_events w = 0"
proof -
  let ?tag = "io_hour_tag io t0"
  let ?st = "\<lparr>ws_current_hour_tag = ?tag,
      ws_writer = Some \<lparr>bw_path = path_join base (active_name ?tag), bw_pending = []\<rparr>,
      ws_manifest = manifest_new t0 ?tag, ws_total_events = 0\<rparr>"
  let ?d = "d(path_join base (active_name ?tag) \<mapsto> [])"
  let ?w = "\<lparr>fw_base_dir = base, fw_inner = ?st, fw_retention = retention\<rparr>"
  obtain d' where p: "persist_manifest io base ?st ?d = Inr d'" "same_events base ?d d'"
    using assms(1) by (cases "io_manifest_json io (ws_manifest ?st)")
      (auto simp: persist_manifest_def write_file_def attempt_def healthy_def same_events_def)
  have "with_retention io t0 base retention d = Inr (?w, d')"
    using assms(1,4) p(1)
    by (simp add: with_retention_def attempt_def healthy_def open_truncate_def Let_def manifest_new_def)
  moreover have "log_at io base all [t0] [] ?st d'"
    using assms(5) by (simp add: log_at_def Let_def writer_at_def manifest_new_def event_path_def
        same_eventsD [OF p(2)] hour_lines_def)
  ultimately show thesis using that by (simp add: store_total_events_def)
qed

section \<open>Properties\<close>

text \<open>C13: no event is lost, duplicated or reordered by the hourly rotation: a writer started in a directory
  without a manifest that then writes any number of events with a clock that does not step back leaves,
  for every hour it has been in, one file with exactly the lines of that hour in order, the active
  file for the current hour and a sealed file for each earlier one, and it has counted every event.\<close>

theorem fact_log_complete:
  assumes "healthy io" "hours_named io (t0 # map fst events)" "sorted (t0 # map fst events)"
    and "\<forall>(t, e) \<in> set events. io_event_json io e \<noteq> None"
    and "d (path_join base manifest_file) = None"
    and "\<forall>t \<in> set (t0 # map fst events). d (path_join base (sealed_name (io_hour_tag io t))) = None"
  shows "\<exists>w0 d0 w d1. with_retention io t0 base retention d = Inr (w0, d0) \<and>
    fact_writer_run io events (w0, d0) = (w, d1) \<and>
    (\<forall>t \<in> set (t0 # map fst events).
       d1 (event_path base (io_hour_tag io (last (t0 # map fst events))) (io_hour_tag io t)) =
         Some (hour_lines io events t)) \<and>
    store_total_events w = of_nat (length events)"
proof -
  have "t0 \<in> set (t0 # map fst events)" by simp
  from fresh_log [OF assms(1,2) this assms(5,6)] obtain w0 d0 where
    "with_retention io t0 base retention d = Inr (w0, d0)"
    "log_at io base (t0 # map fst events) [t0] [] (fw_inner w0) d0" "fw_base_dir w0 = base" "store_total_events w0 = 0"
    by blast
  with run_log [OF assms(1,2) this(2,3) assms(3) _ assms(4)] show ?thesis
    using log_file by fastforce
qed

text \<open>Retention removes from the manifest exactly the names of files that are too old, and from the disk
  exactly those files; every other file stays as it is.\<close>

lemma retain_names_eq:
  assumes "healthy io"
  shows "retain_names io now hours base names d =
    (filter (\<lambda>n. \<not> expired_name io now hours n) names,
     \<lambda>p. if \<exists>n \<in> set names. expired_name io now hours n \<and> p = path_join base n then None else d p)"
proof (induction names arbitrary: d)
  case (Cons n names)
  have "retain_names io now hours base (n # names) d =
      (if expired_name io now hours n then retain_names io now hours base names (d(path_join base n := None))
       else case retain_names io now hours base names d of (kept, d) \<Rightarrow> (n # kept, d))"
    using assms by (auto simp: healthy_def Let_def fun_upd_idem)
  then show ?case by (auto simp: Cons.IH fun_eq_iff)
qed simp

theorem retention_exact:
  assumes "healthy io"
  shows "\<exists>w' d'. apply_retention io now w d = (Inr (), w', d') \<and>
    sealed_event_files (store_manifest w') =
      filter (\<lambda>n. \<not> expired_name io now (keep_sealed_hours (fw_retention w)) n) (sealed_event_files (store_manifest w)) \<and>
    same_events (fw_base_dir w)
      (\<lambda>p. if \<exists>n \<in> set (sealed_event_files (store_manifest w)).
               expired_name io now (keep_sealed_hours (fw_retention w)) n \<and> p = path_join (fw_base_dir w) n
           then None else d p) d'"
proof -
  let ?hours = "keep_sealed_hours (fw_retention w)" and ?names = "sealed_event_files (store_manifest w)"
  let ?d = "\<lambda>p. if \<exists>n \<in> set ?names. expired_name io now ?hours n \<and> p = path_join (fw_base_dir w) n then None else d p"
  let ?st = "(fw_inner w)\<lparr>ws_manifest := (store_manifest w)\<lparr>sealed_event_files :=
      filter (\<lambda>n. \<not> expired_name io now ?hours n) ?names\<rparr>\<rparr>"
  have "retention_step io now (fw_base_dir w) ?hours (fw_inner w, d) = (Inr (), ?st, ?d)"
    by (simp add: retention_step_def retain_names_eq [OF assms] store_manifest_def)
  moreover obtain d' where "persist_step io (fw_base_dir w) (?st, ?d) = (Inr (), ?st, d')" "same_events (fw_base_dir w) ?d d'"
    using persist_step_healthy [OF assms] by blast
  ultimately show ?thesis
    by (simp add: apply_retention_def with_lock_def seq_steps_def store_manifest_def)
qed

text \<open>A small instance: hours are written in unary, JSON is the domain, and nothing fails.\<close>

definition sample_io :: fact_io where
  "sample_io = \<lparr>io_hour_tag = (\<lambda>t. replicate (nat (t div nanos_per_hour)) CHR ''1''),
     io_parse = (\<lambda>_. None), io_event_json = (\<lambda>e. Some (fe_domain e)), io_manifest_json = (\<lambda>_. None),
     io_manifest_of = (\<lambda>_. None), io_fault = (\<lambda>_. None)\<rparr>"

definition sample_fact :: "string \<Rightarrow> fact_emitter" where
  "sample_fact d = fact_emitter_new 0 d Event_FirstSeenDomain ''first''"

definition sample_facts :: "(datetime \<times> fact_emitter) list" where
  "sample_facts = [(1, sample_fact ''a''), (nanos_per_hour, sample_fact ''b''), (nanos_per_hour + 1, sample_fact ''c'')]"

theorem fact_log_complete_witness:
  "\<exists>w0 d0 w d1. with_retention sample_io 0 ''facts'' retention_config_default Map.empty = Inr (w0, d0) \<and>
    fact_writer_run sample_io sample_facts (w0, d0) = (w, d1) \<and>
    d1 ''facts/events-sealed-.jsonl'' = Some (''a'' @ [newline]) \<and>
    d1 ''facts/events-active-1.jsonl'' = Some (''b'' @ [newline] @ ''c'' @ [newline]) \<and>
    store_total_events w = 3"
proof -
  have named: "hours_named sample_io (0 # map fst sample_facts)"
    by (simp add: hours_named_def same_hour_def sample_io_def sample_facts_def nanos_per_hour_def)
  have "\<exists>w0 d0 w d1. with_retention sample_io 0 ''facts'' retention_config_default Map.empty = Inr (w0, d0) \<and>
    fact_writer_run sample_io sample_facts (w0, d0) = (w, d1) \<and>
    (\<forall>t \<in> set (0 # map fst sample_facts).
       d1 (event_path ''facts'' (io_hour_tag sample_io (last (0 # map fst sample_facts))) (io_hour_tag sample_io t)) =
         Some (hour_lines sample_io sample_facts t)) \<and>
    store_total_events w = of_nat (length sample_facts)"
    by (rule fact_log_complete [OF _ named])
      (simp_all add: healthy_def sample_io_def sample_facts_def nanos_per_hour_def)
  then show ?thesis
    by (simp add: sample_facts_def sample_io_def event_path_def path_join_def active_name_def sealed_name_def
        hour_lines_def same_hour_def sample_fact_def fact_emitter_new_def nanos_per_hour_def)
qed

section \<open>Where code and documentation part\<close>

text \<open>A rotation lists the sealed file twice, under its new name and under the active name it no longer has.\<close>

theorem rotation_lists_active_name:
  assumes "healthy io" "writer_at base tag st" "CHR ''e'' \<notin> set tag"
    "d (path_join base (active_name tag)) = Some c" "d (path_join base (sealed_name tag)) = None"
  shows "sealed_event_files (ws_manifest (fst (snd (rotate_locked io now base new (st, d))))) =
    sealed_event_files (ws_manifest st) @ [sealed_name tag, active_name tag]"
  using assms
  by (cases "io_manifest_json io ((ws_manifest st)\<lparr>sealed_event_files :=
        sealed_event_files (ws_manifest st) @ [sealed_name tag, active_name tag],
        active_event_file := active_name new, fm_updated_at := now\<rparr>)")
    (auto simp: rotate_locked_def seq_steps_def close_writer_def seal_active_def open_next_def persist_step_def
      persist_manifest_def flush_writer_def open_truncate_def write_file_def attempt_def healthy_def writer_at_def
      seal_name manifest_rotate_def Let_def)

text \<open>Retention and compaction look at the same age with the same default limit, so a file is removed from
  the manifest before it can be a candidate for compaction.\<close>

theorem default_retention_leaves_no_candidates:
  assumes "healthy io" "fw_retention w = retention_config_default"
    "fm_retention (store_manifest w) = retention_config_default" "apply_retention io now w d = (Inr (), w', d')"
  shows "compaction_candidates (io_parse io) now (store_manifest w') = []"
proof -
  have "sealed_event_files (store_manifest w') =
      filter (\<lambda>n. \<not> expired_name io now 24 n) (sealed_event_files (store_manifest w))"
    using retention_exact [OF assms(1), of now w d] assms(2,4) by (auto simp: retention_config_default_def)
  moreover have "fm_retention (store_manifest w') = retention_config_default"
    using assms(3,4) by (auto simp: apply_retention_def with_lock_def seq_steps_def retention_step_def
        persist_step_def store_manifest_def split: prod.splits sum.splits)
  moreover have "extract_hour_tag n = Some tag"
    if "obind (strip_prefix ''events-sealed-'' n) (strip_suffix ''.jsonl'') = Some tag" for n tag
    using that by (auto simp: extract_hour_tag_def obind_def strip_prefix_def prefix_def split: option.splits if_splits)
  ultimately show ?thesis
    by (auto simp: compaction_candidates_def filter_empty_conv expired_name_def retention_config_default_def
        split: option.splits)
qed

text \<open>A manifest that does not parse, as after a crash while it was written, makes the restart empty the
  event file of the running hour.\<close>

theorem corrupt_manifest_truncates:
  assumes "healthy io" "d (path_join base manifest_file) = Some json" "io_manifest_of io json = None"
  shows "\<exists>w d'. with_retention io now base r d = Inr (w, d') \<and>
    d' (path_join base (active_name (io_hour_tag io now))) = Some []"
  using assms
  by (cases "io_manifest_json io (manifest_new now (io_hour_tag io now))")
    (auto simp: with_retention_def attempt_def healthy_def open_truncate_def Let_def manifest_new_def
      persist_manifest_def write_file_def)

text \<open>The events counter of the manifest restarts at every start of the process.\<close>

theorem restart_resets_count:
  "with_retention io now base r d = Inr (w, d') \<Longrightarrow> store_total_events w = 0"
  by (auto simp: with_retention_def store_total_events_def Let_def result_simps split: prod.splits)

end
