(* ===== verification/Governance_Worker.thy ===== *)
theory Governance_Worker
  imports Governance
begin

text \<open>
  The background maintenance of \<^verbatim>\<open>border-dns-runtime/src/governance_worker.rs\<close>: one tick of the
  maintenance worker over the governance store, and the review report. The retention step of a
  tick acts on the fact store only. The report's time stamp is the clock parameter.
\<close>

section \<open>One maintenance tick\<close>

definition maintain_domain ::
    "datetime \<Rightarrow> string \<Rightarrow> governance_store \<times> u32 \<Rightarrow> governance_store \<times> u32" where
  "maintain_domain now domain acc =
     (let (store, decayed) = acc in
      case store_get store domain of
        None \<Rightarrow> acc
      | Some state \<Rightarrow>
          let new_state = decay_24h_counters now state in
          if state_version new_state \<noteq> state_version state \<or>
             mixed_count_24h new_state \<noteq> mixed_count_24h state \<or>
             hard_conflict_count_24h new_state \<noteq> hard_conflict_count_24h state
          then (force_update domain (new_state\<lparr>state_version := state_version new_state + 1\<rparr>) store,
                decayed + 1)
          else acc)"

definition maintenance_tick :: "datetime \<Rightarrow> governance_store \<Rightarrow> governance_store \<times> u32" where
  "maintenance_tick now store = fold (maintain_domain now) (store_domains store) (store, 0)"

section \<open>Review report\<close>

record review_domain_entry =
  re_domain :: string
  re_phase :: string
  re_reason :: string
  re_observation_count :: u64
  re_hard_conflict_count_24h :: u32
  re_tls_mismatch_count_24h :: u32
  re_mixed_count_24h :: u32
  re_last_observed_at :: datetime

record review_summary =
  total_review :: u32
  total_fallback :: u32
  mixed_review :: u32
  tls_mismatch_review :: u32
  hard_conflict_review :: u32

record review_candidates_artifact =
  ra_schema_version :: string
  ra_generated_at :: datetime
  ra_review_domains :: "review_domain_entry list"
  ra_fallback_domains :: "review_domain_entry list"
  ra_summary :: review_summary

definition determine_review_reason :: "domain_governance_state \<Rightarrow> string" where
  "determine_review_reason s =
     (if tls_mismatch_count_24h s \<ge> 2 then ''tls_mismatch''
      else if hard_conflict_count_24h s \<ge> 3 then ''hard_conflict''
      else if mixed_count_24h s \<ge> 10 then ''mixed_geo_repeated''
      else if route_opposite_count_24h s \<ge> 3 then ''route_opposite''
      else if consecutive_failure_count s \<ge> 5 then ''upstream_failure''
      else ''unknown'')"

definition review_entry :: "string \<Rightarrow> string \<Rightarrow> domain_governance_state \<Rightarrow> review_domain_entry" where
  "review_entry domain ph s =
     \<lparr>re_domain = domain, re_phase = ph, re_reason = determine_review_reason s,
      re_observation_count = observation_count s,
      re_hard_conflict_count_24h = hard_conflict_count_24h s,
      re_tls_mismatch_count_24h = tls_mismatch_count_24h s,
      re_mixed_count_24h = mixed_count_24h s, re_last_observed_at = last_observed_at s\<rparr>"

fun collect_review ::
    "governance_store \<Rightarrow> string list \<Rightarrow> review_domain_entry list \<times> review_domain_entry list
      \<Rightarrow> review_domain_entry list \<times> review_domain_entry list" where
  "collect_review store [] acc = acc"
| "collect_review store (domain # ds) (rs, fs) =
     (case store_get store domain of
        None \<Rightarrow> collect_review store ds (rs, fs)
      | Some s \<Rightarrow> (case phase s of
          Phase_Review \<Rightarrow> collect_review store ds (rs @ [review_entry domain ''review'' s], fs)
        | Phase_Fallback \<Rightarrow> collect_review store ds (rs, fs @ [review_entry domain ''fallback'' s])
        | _ \<Rightarrow> collect_review store ds (rs, fs)))"

definition count_u32 :: "('a \<Rightarrow> bool) \<Rightarrow> 'a list \<Rightarrow> u32" where
  "count_u32 P xs = of_nat (length (filter P xs))"

definition generate_review_candidates ::
    "datetime \<Rightarrow> governance_store \<Rightarrow> review_candidates_artifact" where
  "generate_review_candidates now store =
     (let (review_domains, fallback_domains) = collect_review store (store_domains store) ([], []) in
      \<lparr>ra_schema_version = ''borderdns.fact.v1'', ra_generated_at = now,
       ra_review_domains = review_domains, ra_fallback_domains = fallback_domains,
       ra_summary =
         \<lparr>total_review = of_nat (length review_domains),
          total_fallback = of_nat (length fallback_domains),
          mixed_review = count_u32 (\<lambda>d. re_mixed_count_24h d \<ge> 3) review_domains,
          tls_mismatch_review = count_u32 (\<lambda>d. re_tls_mismatch_count_24h d \<ge> 2) review_domains,
          hard_conflict_review = count_u32 (\<lambda>d. re_hard_conflict_count_24h d \<ge> 3) review_domains\<rparr>\<rparr>)"

section \<open>What a tick does to each domain\<close>

text \<open>The state a domain has after a tick.\<close>

definition maintained :: "datetime \<Rightarrow> domain_governance_state \<Rightarrow> domain_governance_state" where
  "maintained now s =
     (let d = decay_24h_counters now s in
      if mixed_count_24h d \<noteq> mixed_count_24h s \<or> hard_conflict_count_24h d \<noteq> hard_conflict_count_24h s
      then d\<lparr>state_version := state_version s + 1\<rparr> else s)"

lemma maintain_domain_get:
  assumes "dm_wf store"
  shows "dm_wf (fst (maintain_domain now d (store, n)))"
    and "store_get (fst (maintain_domain now d (store, n))) d' =
      (if d' = d then map_option (maintained now) (store_get store d) else store_get store d')"
  using assms
  by (auto simp: maintain_domain_def maintained_def Let_def force_update_def store_get_def
      dm.wf_ins dm.get_ins decay_fields split: option.splits)

lemma fold_maintain_get:
  "distinct ds \<Longrightarrow> dm_wf (fst acc) \<Longrightarrow>
     dm_wf (fst (fold (maintain_domain now) ds acc)) \<and>
     store_get (fst (fold (maintain_domain now) ds acc)) d =
       (if d \<in> set ds then map_option (maintained now) (store_get (fst acc) d) else store_get (fst acc) d)"
proof (induction ds arbitrary: acc)
  case (Cons a ds)
  obtain store n where acc: "acc = (store, n)" by fastforce
  with Cons.prems have wf: "dm_wf store" by simp
  note step = maintain_domain_get [OF wf, of now a n]
  from Cons.IH [of "maintain_domain now a acc"] Cons.prems step show ?case
    by (auto simp: acc)
qed simp

lemma store_domains_iff: "dm_wf store \<Longrightarrow> d \<in> set (store_domains store) \<longleftrightarrow> store_get store d \<noteq> None"
  using dm.keys_get [of store] by (auto simp: store_domains_def store_get_def)

lemma store_domains_distinct: "dm_wf store \<Longrightarrow> distinct (store_domains store)"
  by (simp add: store_domains_def dm.entries_distinct)

lemma maintenance_tick_get:
  assumes "dm_wf store"
  shows "store_get (fst (maintenance_tick now store)) d = map_option (maintained now) (store_get store d)"
  using fold_maintain_get [OF store_domains_distinct [OF assms], of "(store, 0)" now d] assms
    store_domains_iff [OF assms, of d]
  by (auto simp: maintenance_tick_def)

lemma collect_review_eq:
  "collect_review store ds (rs, fs) =
     (rs @ [review_entry d ''review'' s. d \<leftarrow> ds, s \<leftarrow> (case store_get store d of Some s \<Rightarrow> [s] | None \<Rightarrow> []),
            phase s = Phase_Review],
      fs @ [review_entry d ''fallback'' s. d \<leftarrow> ds, s \<leftarrow> (case store_get store d of Some s \<Rightarrow> [s] | None \<Rightarrow> []),
            phase s = Phase_Fallback])"
  by (induction store ds "(rs, fs)" arbitrary: rs fs rule: collect_review.induct)
    (auto split: option.splits governance_phase.splits)

section \<open>Properties\<close>

text \<open>One maintenance tick visits every stored domain once and no other: each state becomes its
  decayed form with the version raised by one when the mixed or the hard conflict counter
  expires, and stays as it is otherwise; phases never change, and no counter grows.\<close>

theorem maintenance_tick_correct:
  assumes "dm_wf store"
  shows "store_get (fst (maintenance_tick now store)) d = map_option (maintained now) (store_get store d) \<and>
    (\<forall>s. store_get store d = Some s \<longrightarrow>
       phase (maintained now s) = phase s \<and>
       mixed_count_24h (maintained now s) =
         (if outside_window now (last_mixed_at s) then 0 else mixed_count_24h s) \<and>
       hard_conflict_count_24h (maintained now s) =
         (if outside_window now (last_hard_conflict_at s) then 0 else hard_conflict_count_24h s))"
  using maintenance_tick_get [OF assms] by (auto simp: maintained_def Let_def decay_fields)

theorem maintenance_tick_correct_witness:
  "store_get (fst (maintenance_tick 0 sample_store)) ''example.com.'' = Some (maintained 0 sample_state) \<and>
   phase (maintained 0 sample_state) = phase sample_state"
proof -
  have wf: "dm_wf sample_store"
    by (simp add: sample_store_def force_update_def store_new_def dm.wf_new dm.wf_ins)
  have "store_get sample_store ''example.com.'' = Some sample_state"
    by (simp add: sample_store_def force_update_def store_get_def store_new_def dm.get_ins dm.wf_new)
  with maintenance_tick_correct [OF wf, of 0 "''example.com.''"] show ?thesis by simp
qed

text \<open>The review report lists exactly the stored domains in Review, and exactly those in
  Fallback, each with its own counters and reason.\<close>

theorem review_report_exact:
  assumes "dm_wf store"
  shows "set (ra_review_domains (generate_review_candidates now store)) =
      {review_entry d ''review'' s | d s. store_get store d = Some s \<and> phase s = Phase_Review} \<and>
    set (ra_fallback_domains (generate_review_candidates now store)) =
      {review_entry d ''fallback'' s | d s. store_get store d = Some s \<and> phase s = Phase_Fallback}"
  using store_domains_iff [OF assms]
  by (force simp: generate_review_candidates_def collect_review_eq split: option.splits)

theorem review_report_exact_witness:
  "set (ra_review_domains (generate_review_candidates 0 sample_store)) =
      {review_entry d ''review'' s | d s. store_get sample_store d = Some s \<and> phase s = Phase_Review} \<and>
    set (ra_fallback_domains (generate_review_candidates 0 sample_store)) =
      {review_entry d ''fallback'' s | d s. store_get sample_store d = Some s \<and> phase s = Phase_Fallback}"
  by (rule review_report_exact) (simp add: sample_store_def force_update_def store_new_def dm.wf_new dm.wf_ins)

section \<open>Where code and documentation part\<close>

text \<open>Expired TLS mismatch, route-opposite and soft conflict counters are written back only when a
  mixed or hard conflict counter expires in the same tick: a lone expired TLS mismatch counter
  stays forever.\<close>

theorem lone_tls_decay_is_dropped:
  assumes "store_get store d = Some s" "dm_wf store"
    and "\<not> outside_window now (last_mixed_at s)" "\<not> outside_window now (last_hard_conflict_at s)"
  shows "store_get (fst (maintenance_tick now store)) d = Some s"
  using maintenance_tick_get [OF assms(2)] assms by (simp add: maintained_def decay_fields)

end
