(* ===== verification/Runtime.thy ===== *)
theory Runtime
  imports Http_Listeners Blackhole Fact_Store Governance_Worker
begin

text \<open>
  The start of the process, \<^verbatim>\<open>run\<close> of \<^verbatim>\<open>border-dns-runtime/src/lib.rs\<close>, and the background loops of
  \<^verbatim>\<open>governance_worker.rs\<close>: what is created, which listeners are started, and what a round of each
  worker does. The scheduler is not modelled; a started task is a value of \<open>listener_task\<close>.
\<close>

section \<open>Workers\<close>

text \<open>One round of the maintenance worker: decay on the governance store, then retention on the fact store,
  whose errors are only logged.\<close>

record worker_state =
  wk_governance :: governance_store
  wk_fact_store :: "fact_event_writer option"
  wk_disk :: disk

definition maintenance_round :: "fact_io \<Rightarrow> datetime \<Rightarrow> worker_state \<Rightarrow> worker_state" where
  "maintenance_round io now s =
     (let store = fst (maintenance_tick now (wk_governance s)) in
      case wk_fact_store s of
        None \<Rightarrow> s\<lparr>wk_governance := store\<rparr>
      | Some fw \<Rightarrow>
          (case apply_retention io now fw (wk_disk s) of
             (_, fw', d) \<Rightarrow> s\<lparr>wk_governance := store, wk_fact_store := Some fw', wk_disk := d\<rparr>))"

definition maintenance_run :: "fact_io \<Rightarrow> datetime list \<Rightarrow> worker_state \<Rightarrow> worker_state" where
  "maintenance_run io ticks s = fold (maintenance_round io) ticks s"

text \<open>The observation worker logs each task it receives and does nothing else.\<close>

definition observation_worker :: "observation_task list \<Rightarrow> (string \<times> string \<times> string \<times> string) list" where
  "observation_worker jobs =
     map (\<lambda>job. (ot_job_id job, ot_domain job, phase_as_str (ot_current_phase job), ot_current_route job)) jobs"

record startup_summary =
  su_third_party_mode :: string
  su_stable_profile :: string
  su_fact_store_path :: string
  su_total_domains :: nat
  su_review :: "review_summary option"

definition log_startup_review_summary :: "datetime \<Rightarrow> governance_store \<Rightarrow> bool \<Rightarrow> string \<Rightarrow> startup_summary" where
  "log_startup_review_summary now store third_party_enabled fact_store_path =
     (let summary = ra_summary (generate_review_candidates now store) in
      \<lparr>su_third_party_mode = (if third_party_enabled then ''enabled'' else ''disabled''),
       su_stable_profile = (if third_party_enabled then ''peer_assisted'' else ''local_strict''),
       su_fact_store_path = fact_store_path, su_total_domains = store_len store,
       su_review =
         (if total_review summary > 0 \<or> total_fallback summary > 0 \<or> mixed_review summary > 0 \<or>
             tls_mismatch_review summary > 0
          then Some summary else None)\<rparr>)"

section \<open>Start of the process\<close>

datatype listener_task =
  Task_Udp string
| Task_Tcp string
| Task_Dot tls_listener_config
| Task_Doh doh_listener_config
| Task_Doj doj_listener_config

definition enabled_task :: "('a \<Rightarrow> bool) \<Rightarrow> ('a \<Rightarrow> listener_task) \<Rightarrow> 'a option \<Rightarrow> listener_task list" where
  "enabled_task enabled task cfg = (case cfg of Some c \<Rightarrow> if enabled c then [task c] else [] | None \<Rightarrow> [])"

definition start_listeners :: "listeners_config \<Rightarrow> listener_task list" where
  "start_listeners l =
     enabled_task ul_enabled (\<lambda>u. Task_Udp (ul_listen u)) (lc_udp l) @
     enabled_task tl_enabled (\<lambda>t. Task_Tcp (tl_listen t)) (lc_tcp l) @
     enabled_task dot_enabled Task_Dot (lc_dot l) @
     enabled_task doh_enabled Task_Doh (lc_doh l) @
     enabled_task doj_enabled Task_Doj (lc_doj l)"

record runtime =
  rt_context :: runtime_context
  rt_workers :: worker_state
  rt_startup :: startup_summary
  rt_blackhole :: "socket_addr list"
  rt_tasks :: "listener_task list"

definition runtime_run ::
    "file_system \<Rightarrow> (string \<Rightarrow> 'e + string option list) \<Rightarrow> fact_io \<Rightarrow> datetime \<Rightarrow> (socket_addr \<Rightarrow> bool) \<Rightarrow> disk
     \<Rightarrow> runtime_config \<Rightarrow> string + runtime" where
  "runtime_run fs open_lines io now bind d config =
     (let ctx = context_new fs open_lines config;
          governance = store_new;
          (fact_store, d) = (case fact_event_writer_new io now ''state/facts'' d of
              Inr (w, d') \<Rightarrow> (Some w, d')
            | Inl _ \<Rightarrow> (None, d));
          path = (if fact_store = None then ''disabled'' else ''state/facts/'');
          summary = log_startup_review_summary now governance (tpc_enabled (cfg_third_party config)) path;
          blackhole = (if bh_enabled (cfg_blackhole config)
                       then (case blackhole_start bind (cfg_blackhole config) of Inr socks \<Rightarrow> socks | Inl _ \<Rightarrow> [])
                       else []);
          handles = start_listeners (cfg_listeners config)
      in if handles = [] then Inl ''no listeners enabled in configuration''
         else Inr \<lparr>rt_context = ctx,
                rt_workers = \<lparr>wk_governance = governance, wk_fact_store = fact_store, wk_disk = d\<rparr>,
                rt_startup = summary, rt_blackhole = blackhole, rt_tasks = handles\<rparr>)"

text \<open>Whether the first step of a task, before its loop, succeeds.\<close>

fun task_starts ::
    "runtime_context \<Rightarrow> ('c, 'k) tls_io \<Rightarrow> (string \<Rightarrow> string \<Rightarrow> string + unit) \<Rightarrow> listener_task \<Rightarrow> bool" where
  "task_starts ctx tls pem (Task_Udp addr) \<longleftrightarrow> \<not> isl (run_udp addr ctx)"
| "task_starts ctx tls pem (Task_Tcp addr) \<longleftrightarrow> \<not> isl (run_tcp addr ctx)"
| "task_starts ctx tls pem (Task_Dot cfg) \<longleftrightarrow> \<not> isl (run_dot tls cfg)"
| "task_starts ctx tls pem (Task_Doh cfg) \<longleftrightarrow> \<not> isl (run_doh pem cfg)"
| "task_starts ctx tls pem (Task_Doj cfg) \<longleftrightarrow> \<not> isl (run_doj cfg)"

section \<open>Lemmas\<close>

lemma enabled_task_set:
  "task \<in> set (enabled_task enabled f cfg) \<longleftrightarrow> (\<exists>c. cfg = Some c \<and> enabled c \<and> task = f c)"
  by (auto simp: enabled_task_def split: option.splits)

lemma listener_start_ok: "addr_ok addr \<Longrightarrow> \<not> isl (listener_start what bind addr only)"
  by (auto simp: listener_start_def addr_ok_def)

text \<open>TLS material that loads for a certificate and a key file.\<close>

definition tls_loads :: "('c, 'k) tls_io \<Rightarrow> (string \<Rightarrow> string \<Rightarrow> string + unit) \<Rightarrow> string \<Rightarrow> string \<Rightarrow> bool" where
  "tls_loads tls pem cert key \<longleftrightarrow> \<not> isl (load_tls_server_config tls cert key) \<and> \<not> isl (pem cert key)"

lemma idle_tick: "maintenance_tick now store_new = (store_new, 0)"
  by (simp add: maintenance_tick_def store_domains_def store_new_def dm_new_def dm_iter_def)

section \<open>Properties\<close>


definition sample_tls :: "(unit, unit) tls_io" where
  "sample_tls = \<lparr>ti_read = (\<lambda>_. Inr []), ti_certs = (\<lambda>_. Inr [()]), ti_private_key = (\<lambda>_. Inr (Some ())),
     ti_single_cert = (\<lambda>_ _. Inr ())\<rparr>"


text \<open>The governance store of the running process stays empty however often the maintenance worker runs: no
  listener feeds it, since the handler they share does not use the pipeline.\<close>

theorem runtime_governance_idle:
  assumes "runtime_run fs open_lines io now bind d config = Inr rt"
  shows "wk_governance (maintenance_run io ticks (rt_workers rt)) = store_new"
proof -
  have "wk_governance (maintenance_run io ticks s) = store_new" if "wk_governance s = store_new" for s
    using that unfolding maintenance_run_def
  proof (induction ticks arbitrary: s)
    case (Cons t ticks)
    then have "wk_governance (maintenance_round io t s) = store_new"
      by (simp add: maintenance_round_def idle_tick Let_def split: option.split prod.split)
    with Cons.IH show ?case by simp
  qed simp
  moreover have "wk_governance (rt_workers rt) = store_new"
    using assms by (auto simp: runtime_run_def Let_def case_prod_beta split: if_splits)
  ultimately show ?thesis by blast
qed

section \<open>Where code and documentation part\<close>

text \<open>A configuration whose only enabled listener is DoQ passes validation; the process then refuses to start.\<close>

definition doq_only_config :: runtime_config where
  "doq_only_config = (minimal_config ''223.5.5.5:53'')\<lparr>cfg_listeners := listeners_default\<lparr>lc_doq :=
     Some \<lparr>doq_enabled = True, doq_listen = ''0.0.0.0:853'', doq_cert_file = ''c'', doq_key_file = ''k'', doq_alpn = []\<rparr>\<rparr>\<rparr>"

theorem doq_only_validates_but_fails:
  "config_validate doq_only_config = Inr () \<and>
   runtime_run fs open_lines io now bind d doq_only_config = Inl ''no listeners enabled in configuration''"
proof
  show "config_validate doq_only_config = Inr ()" by code_simp
  have "start_listeners (cfg_listeners doq_only_config) = []"
    by (simp add: start_listeners_def doq_only_config_def listeners_default_def enabled_task_def)
  then show "runtime_run fs open_lines io now bind d doq_only_config = Inl ''no listeners enabled in configuration''"
    by (simp add: runtime_run_def Let_def case_prod_beta)
qed

end
