(* ===== verification/Domain_Knowledge.thy ===== *)
theory Domain_Knowledge
  imports Dns_Types "HOL-Library.AList"
begin

text \<open>
  Domain classification, \<^verbatim>\<open>border-dns-domain-knowledge/src/domain_knowledge.rs\<close>: the
  reversed-label trie \<^verbatim>\<open>DomainSet\<close>, the built-in lists and the two classifiers.

  The locale \<open>name_set\<close> is the contract of a set of domain names compared label-wise without
  regard to case; the trie is its interpretation, and the classifiers are proved against the
  plain lists through it. The children of a trie node (a \<^verbatim>\<open>HashMap\<close>) are an association list;
  the provider sets, only ever searched for a match, are lists.
\<close>

section \<open>The trie\<close>

datatype domain_set =
  DomainSet (ds_children: "(string \<times> domain_set) list") (ds_terminal: bool)

definition ds_empty :: domain_set where
  "ds_empty = DomainSet [] False"

text \<open>\<^verbatim>\<open>domain.split('.').filter(|l| !l.is_empty()).rev()\<close>\<close>

definition reversed_labels :: "string \<Rightarrow> string list" where
  "reversed_labels domain = rev (filter (\<lambda>l. l \<noteq> []) (split_on CHR ''.'' domain))"

fun ds_insert_labels :: "string list \<Rightarrow> domain_set \<Rightarrow> domain_set" where
  "ds_insert_labels [] (DomainSet ch t) = DomainSet ch True"
| "ds_insert_labels (l # ls) (DomainSet ch t) =
     (let key = to_lowercase l;
          child = (case map_of ch key of Some c \<Rightarrow> c | None \<Rightarrow> ds_empty)
      in DomainSet (AList.update key (ds_insert_labels ls child) ch) t)"

definition ds_insert :: "string \<Rightarrow> domain_set \<Rightarrow> domain_set" where
  "ds_insert domain s = ds_insert_labels (reversed_labels domain) s"

fun ds_contains_labels :: "string list \<Rightarrow> domain_set \<Rightarrow> bool" where
  "ds_contains_labels [] s = ds_terminal s"
| "ds_contains_labels (l # ls) s =
     (case map_of (ds_children s) (to_lowercase l) of
        Some child \<Rightarrow> if ds_contains_labels ls child then True else False
      | None \<Rightarrow> False)"

definition ds_contains :: "string \<Rightarrow> domain_set \<Rightarrow> bool" where
  "ds_contains domain s = ds_contains_labels (reversed_labels domain) s"

fun ds_len :: "domain_set \<Rightarrow> nat" where
  "ds_len (DomainSet ch t) = (if t then 1 else 0) + sum_list (map (\<lambda>(k, c). ds_len c) ch)"

definition ds_is_empty :: "domain_set \<Rightarrow> bool" where
  "ds_is_empty s \<longleftrightarrow> ds_len s = 0"

section \<open>Built-in lists\<close>

definition CHINA_DOMAINS :: "string list" where
  "CHINA_DOMAINS =
   [
    ''qq.com'', ''taobao.com'', ''tmall.com'', ''alipay.com'', ''alibaba.com'', ''jd.com'',
    ''baidu.com'', ''weibo.com'', ''sina.com'', ''163.com'', ''126.com'', ''sohu.com'',
    ''zhihu.com'', ''douyin.com'', ''toutiao.com'', ''bilibili.com'', ''xiaomi.com'',
    ''huawei.com'', ''meituan.com'', ''ele.me'', ''dianping.com'', ''csdn.net'',
    ''cnblogs.com'', ''aliyun.com'', ''tencent.com'', ''weixin.qq.com'',
    ''qq'' @ [CHR 0xE9, CHR 0x82, CHR 0xAE, CHR 0xE7, CHR 0xAE, CHR 0xB1], ''ctrip.com'',
    ''ly.com'', ''mafengwo.cn'', ''ximalaya.com'', ''iqiyi.com'', ''youku.com'', ''tudou.com'',
    ''pptv.com'', ''mgtv.com'', ''snssdk.com'', ''bytedance.com'', ''feishu.cn'',
    ''larksuite.com'', ''dingtalk.com'', ''pinduoduo.com'', ''pdd.com'', ''suning.com'',
    ''zhangxinxu.com'', ''runoob.com'', ''gitee.com'', ''coding.net'', ''juejin.cn'',
    ''segmentfault.com'', ''cnbeta.com'', ''ithome.com'', ''36kr.com'', ''huxiu.com'',
    ''ifanr.com'', ''sspai.com'', ''smzdm.com'', ''duokan.com'', ''wps.cn'', ''naver.com'',
    ''naver.kr'', ''nhn.com'']"

definition FOREIGN_DOMAINS :: "string list" where
  "FOREIGN_DOMAINS =
   [
    ''openai.com'', ''chatgpt.com'', ''anthropic.com'', ''google.com'', ''googleapis.com'',
    ''gstatic.com'', ''googleusercontent.com'', ''youtube.com'', ''ytimg.com'',
    ''googlevideo.com'', ''facebook.com'', ''fbcdn.net'', ''instagram.com'',
    ''cdninstagram.com'', ''twitter.com'', ''x.com'', ''twimg.com'', ''reddit.com'',
    ''redd.it'', ''redditstatic.com'', ''redditmedia.com'', ''amazon.com'', ''amazonaws.com'',
    ''cloudfront.net'', ''aws.amazon.com'', ''microsoft.com'', ''live.com'', ''office.com'',
    ''office365.com'', ''azure.com'', ''github.com'', ''github.io'', ''githubusercontent.com'',
    ''githubassets.com'', ''github.dev'', ''discord.com'', ''discord.gg'', ''discordapp.com'',
    ''slack.com'', ''slack-edge.com'', ''t.me'', ''telegram.org'', ''telegram.me'',
    ''whatsapp.com'', ''whatsapp.net'', ''signal.org'', ''signal-cdn.org'', ''netflix.com'',
    ''nflxvideo.net'', ''nflximg.net'', ''spotify.com'', ''spotifycdn.com'',
    ''soundcloud.com'', ''twitch.tv'', ''ttvnw.net'', ''jtvnw.net'', ''npmjs.com'',
    ''npmjs.org'', ''pypi.org'', ''crates.io'', ''docker.com'', ''docker.io'',
    ''dockerhub.com'', ''dockerusercontent.com'', ''vercel.com'', ''vercel.app'',
    ''netlify.com'', ''netlify.app'', ''heroku.com'', ''herokuapp.com'', ''digitalocean.com'',
    ''cloudflare.com'', ''wikipedia.org'', ''wikimedia.org'', ''medium.com'', ''substack.com'',
    ''stackexchange.com'', ''stackoverflow.com'', ''superuser.com'', ''bbc.com'',
    ''bbc.co.uk'', ''cnn.com'', ''nytimes.com'', ''wsj.com'', ''reuters.com'',
    ''theguardian.com'', ''bloomberg.com'', ''line.me'', ''lycorp.com'']"

definition CDN_DOMAINS :: "string list" where
  "CDN_DOMAINS =
   [
    ''cloudflare.com'', ''cloudfront.net'', ''akamaized.net'', ''akamai.net'',
    ''akamaiedge.net'', ''edgekey.net'', ''edgesuite.net'', ''fastly.net'', ''fastlylb.net'',
    ''fastly.com'', ''cdn77.org'', ''cdn77.com'', ''stackpath.com'', ''stackpathdns.com'',
    ''incapsula.com'', ''imperva.com'', ''sucuri.net'', ''quantil.com'', ''band-cdn.com'',
    ''cdnetworks.com'', ''chinanetcenter.com'', ''wsdvs.com'', ''kunlun.com'',
    ''kunlunca.com'', ''alikunlun.com'', ''alicdn.com'', ''taobaocdn.com'', ''tmallcdn.com'']"

definition CHINA_CNAME_PROVIDERS :: "string list" where
  "CHINA_CNAME_PROVIDERS =
   [
    ''alicdn.com'', ''alikunlun.com'', ''taobaocdn.com'', ''tmallcdn.com'', ''alibaba'',
    ''aliyun'', ''kunlun'', ''china'', ''chinacache'', ''cdnetworks'', ''wangsu'']"

definition FOREIGN_CNAME_PROVIDERS :: "string list" where
  "FOREIGN_CNAME_PROVIDERS =
   [
    ''cloudflare'', ''cloudfront'', ''amazonaws'', ''akamai'', ''fastly'', ''cdn77'',
    ''stackpath'', ''incapsula'', ''imperva'', ''vercel'', ''netlify'', ''heroku'', ''google'',
    ''googleapis'', ''azure'', ''microsoft'']"

section \<open>Classification\<close>

record built_in_domain_knowledge =
  china_domains :: domain_set
  foreign_domains :: domain_set
  cdn_domains :: domain_set
  china_cname_providers :: "string list"
  foreign_cname_providers :: "string list"

definition init_domains :: "string list \<Rightarrow> domain_set" where
  "init_domains ds = fold ds_insert ds ds_empty"

definition knowledge_new :: built_in_domain_knowledge where
  "knowledge_new =
     \<lparr>china_domains = init_domains CHINA_DOMAINS,
      foreign_domains = init_domains FOREIGN_DOMAINS,
      cdn_domains = init_domains CDN_DOMAINS,
      china_cname_providers = map to_lowercase CHINA_CNAME_PROVIDERS,
      foreign_cname_providers = map to_lowercase FOREIGN_CNAME_PROVIDERS\<rparr>"

definition classify_domain :: "built_in_domain_knowledge \<Rightarrow> string \<Rightarrow> domain_prior" where
  "classify_domain k domain =
     (let normalized = strip_suffix_char CHR ''.'' domain in
      if ds_contains normalized (cdn_domains k) then Prior_GlobalCdn
      else if ds_contains normalized (china_domains k) then Prior_China
      else if ds_contains normalized (foreign_domains k) then Prior_Foreign
      else Prior_Unknown)"

fun classify_cname_chain :: "built_in_domain_knowledge \<Rightarrow> string list \<Rightarrow> cname_hint" where
  "classify_cname_chain k [] = Hint_None"
| "classify_cname_chain k (cname # cnames) =
     (let normalized = strip_suffix_char CHR ''.'' cname;
          lower = to_lowercase normalized in
      if ds_contains normalized (cdn_domains k) then Hint_GlobalCdn
      else if list_ex (\<lambda>p. sublist p lower) (china_cname_providers k) then Hint_ChinaProvider
      else if list_ex (\<lambda>p. sublist p lower) (foreign_cname_providers k) then Hint_ForeignProvider
      else classify_cname_chain k cnames)"

section \<open>Sets of names\<close>

text \<open>Two names are the same when their non-empty labels agree up to case.\<close>

definition norm_labels :: "string \<Rightarrow> string list" where
  "norm_labels domain = map to_lowercase (reversed_labels domain)"

locale name_set =
  fixes empty :: "'s"
    and ins :: "string \<Rightarrow> 's \<Rightarrow> 's"
    and member :: "string \<Rightarrow> 's \<Rightarrow> bool"
  assumes member_empty: "\<not> member d empty"
    and member_ins: "member d (ins d' s) \<longleftrightarrow> norm_labels d = norm_labels d' \<or> member d s"
begin

lemma member_fold:
  "member d (fold ins ds s) \<longleftrightarrow> norm_labels d \<in> norm_labels ` set ds \<or> member d s"
  by (induction ds arbitrary: s) (auto simp: member_ins)

lemma member_init: "member d (fold ins ds empty) \<longleftrightarrow> norm_labels d \<in> norm_labels ` set ds"
  by (simp add: member_fold member_empty)

end

lemma ds_contains_insert_labels:
  "ds_contains_labels ls (ds_insert_labels ms s) \<longleftrightarrow>
     map to_lowercase ls = map to_lowercase ms \<or> ds_contains_labels ls s"
proof (induction ms s arbitrary: ls rule: ds_insert_labels.induct)
  case (1 ch t)
  then show ?case by (cases ls) auto
next
  case (2 m ms ch t)
  show ?case
  proof (cases ls)
    case (Cons l ls')
    have "\<not> ds_contains_labels ls' ds_empty"
      by (cases ls') (auto simp: ds_empty_def)
    with Cons 2 [OF refl refl, of ls'] show ?thesis
      by (auto simp: Let_def update_conv' split: option.splits)
  qed (simp add: Let_def)
qed

interpretation domain_trie: name_set ds_empty ds_insert ds_contains
proof
  fix d d' s
  show "\<not> ds_contains d ds_empty"
    by (cases "reversed_labels d") (simp_all add: ds_contains_def ds_empty_def)
  show "ds_contains d (ds_insert d' s) \<longleftrightarrow> norm_labels d = norm_labels d' \<or> ds_contains d s"
    by (simp add: ds_contains_def ds_insert_def ds_contains_insert_labels norm_labels_def)
qed

section \<open>Normalisation of names\<close>

lemma reversed_labels_strip [simp]:
  "reversed_labels (strip_suffix_char CHR ''.'' d) = reversed_labels d"
proof (cases "d \<noteq> [] \<and> last d = CHR ''.''")
  case True
  then have "d = butlast d @ [CHR ''.'']" by (metis append_butlast_last_id)
  then have "split_on CHR ''.'' d = split_on CHR ''.'' (butlast d) @ [[]]"
    by (metis split_on_snoc_sep)
  with True show ?thesis by (simp add: reversed_labels_def strip_suffix_char_def)
qed (auto simp: strip_suffix_char_def)

lemma split_on_to_lowercase:
  "split_on CHR ''.'' (to_lowercase d) = map to_lowercase (split_on CHR ''.'' d)"
  by (simp add: to_lowercase_def split_on_map)

lemma norm_labels_to_lowercase: "norm_labels (to_lowercase d) = norm_labels d"
proof -
  have "filter (\<lambda>l. l \<noteq> []) (map to_lowercase xs) = map to_lowercase (filter (\<lambda>l. l \<noteq> []) xs)"
    for xs by (induction xs) (auto simp: to_lowercase_def)
  then show ?thesis
    by (simp add: norm_labels_def reversed_labels_def split_on_to_lowercase rev_map comp_def)
qed

lemma norm_labels_strip [simp]: "norm_labels (strip_suffix_char CHR ''.'' d) = norm_labels d"
  by (simp add: norm_labels_def)

lemma init_domains_member:
  "ds_contains d (init_domains ds) \<longleftrightarrow> norm_labels d \<in> norm_labels ` set ds"
  by (simp add: init_domains_def domain_trie.member_init)

section \<open>Counting\<close>

fun ds_wf :: "domain_set \<Rightarrow> bool" where
  "ds_wf (DomainSet ch t) \<longleftrightarrow> distinct (map fst ch) \<and> list_all (\<lambda>(k, c). ds_wf c) ch"

lemma sum_list_update:
  assumes "distinct (map fst ch)"
  shows "sum_list (map (\<lambda>(k, c). f c) (AList.update key v ch)) + (case map_of ch key of None \<Rightarrow> 0 | Some c \<Rightarrow> f c) =
    sum_list (map (\<lambda>(k, c). f c) ch) + (f v :: nat)"
  using assms
proof (induction ch)
  case (Cons a ch)
  then show ?case
    by (cases a) (auto split: option.splits)
qed simp

lemma list_all_update:
  "list_all (\<lambda>(k, c). P c) ch \<Longrightarrow> P v \<Longrightarrow> list_all (\<lambda>(k, c). P c) (AList.update key v ch)"
  by (induction ch) auto

lemma ds_insert_labels_len:
  "ds_wf s \<Longrightarrow> ds_wf (ds_insert_labels ls s) \<and>
   ds_len (ds_insert_labels ls s) = ds_len s + (if ds_contains_labels ls s then 0 else 1)"
proof (induction ls s rule: ds_insert_labels.induct)
  case (1 ch t)
  then show ?case by simp
next
  case (2 l ls ch t)
  let ?key = "to_lowercase l"
  let ?child = "case map_of ch ?key of Some c \<Rightarrow> c | None \<Rightarrow> ds_empty"
  have e: "ds_wf ds_empty" "ds_len ds_empty = 0" "\<not> ds_contains_labels ls ds_empty"
    by (cases ls; simp add: ds_empty_def)+
  have "ds_wf ?child"
    using 2(2) e(1) by (auto simp: list_all_iff split: option.splits dest: map_of_SomeD)
  note IH = 2(1) [OF refl refl this]
  have "ds_wf (ds_insert_labels (l # ls) (DomainSet ch t))"
    using IH 2(2) by (auto simp: Let_def distinct_update intro: list_all_update)
  moreover have "ds_len (ds_insert_labels (l # ls) (DomainSet ch t)) =
      ds_len (DomainSet ch t) + (if ds_contains_labels (l # ls) (DomainSet ch t) then 0 else 1)"
    using IH e 2(2) sum_list_update [of ch ds_len ?key "ds_insert_labels ls ?child"]
    by (cases "map_of ch ?key") (simp_all add: Let_def)
  ultimately show ?case ..
qed

lemma ds_contains_cong:
  "map to_lowercase ls = map to_lowercase ms \<Longrightarrow> ds_contains_labels ls s = ds_contains_labels ms s"
proof (induction ls arbitrary: ms s)
  case (Cons l ls)
  then obtain m ms' where "ms = m # ms'" "to_lowercase l = to_lowercase m"
    "map to_lowercase ls = map to_lowercase ms'" by auto
  with Cons.IH show ?case by (auto split: option.splits)
qed simp

lemma init_domains_len:
  "ds_wf (init_domains ds) \<and> ds_len (init_domains ds) = card (norm_labels ` set ds)"
proof (induction ds rule: rev_induct)
  case Nil
  then show ?case by (simp add: init_domains_def ds_empty_def)
next
  case (snoc d ds)
  have i: "init_domains (ds @ [d]) = ds_insert d (init_domains ds)"
    by (simp add: init_domains_def)
  have "ds_contains_labels (reversed_labels d) (init_domains ds) \<longleftrightarrow> norm_labels d \<in> norm_labels ` set ds"
    using init_domains_member [of d ds] by (simp add: ds_contains_def)
  with snoc ds_insert_labels_len [of "init_domains ds" "reversed_labels d"] show ?case
    by (auto simp: i ds_insert_def card_insert_if)
qed

lemma classify_domain_lists:
  "classify_domain knowledge_new d =
     (if norm_labels d \<in> norm_labels ` set CDN_DOMAINS then Prior_GlobalCdn
      else if norm_labels d \<in> norm_labels ` set CHINA_DOMAINS then Prior_China
      else if norm_labels d \<in> norm_labels ` set FOREIGN_DOMAINS then Prior_Foreign
      else Prior_Unknown)"
  by (simp add: classify_domain_def knowledge_new_def init_domains_member Let_def)

lemma norm_labels_snoc_dot: "norm_labels (d @ ''.'') = norm_labels d"
  by (simp add: norm_labels_def reversed_labels_def split_on_snoc_sep)

section \<open>Properties\<close>

text \<open>C30: the built-in classifier is exactly membership in the built-in lists, compared label by
  label without regard to case, empty labels or a trailing dot, with CDN names taking
  precedence over China names and these over foreign names.\<close>

theorem classify_domain_correct:
  "classify_domain knowledge_new d =
     (if norm_labels d \<in> norm_labels ` set CDN_DOMAINS then Prior_GlobalCdn
      else if norm_labels d \<in> norm_labels ` set CHINA_DOMAINS then Prior_China
      else if norm_labels d \<in> norm_labels ` set FOREIGN_DOMAINS then Prior_Foreign
      else Prior_Unknown) \<and>
   classify_domain knowledge_new (to_lowercase d) = classify_domain knowledge_new d \<and>
   classify_domain knowledge_new (d @ ''.'') = classify_domain knowledge_new d"
  by (simp add: classify_domain_lists norm_labels_to_lowercase norm_labels_snoc_dot)

text \<open>The trie counts every name once: after inserting a list of names its size is the number
  of names in the list that differ label-wise up to case.\<close>

theorem domain_set_len:
  "ds_len (init_domains ds) = card (norm_labels ` set ds)"
  using init_domains_len by blast

definition cname_verdict :: "built_in_domain_knowledge \<Rightarrow> string \<Rightarrow> cname_hint" where
  "cname_verdict k cname =
     (let lower = to_lowercase (strip_suffix_char CHR ''.'' cname) in
      if ds_contains cname (cdn_domains k) then Hint_GlobalCdn
      else if \<exists>p \<in> set (china_cname_providers k). sublist p lower then Hint_ChinaProvider
      else if \<exists>p \<in> set (foreign_cname_providers k). sublist p lower then Hint_ForeignProvider
      else Hint_None)"

text \<open>A CNAME chain is classified by its first name that is recognised at all: the names
  before it are on no list, and at that name the CDN set is consulted before the China
  providers and these before the foreign ones. A chain without a recognised name gets no
  hint.\<close>

theorem classify_cname_chain_first:
  "classify_cname_chain k cs =
     (case dropWhile (\<lambda>c. cname_verdict k c = Hint_None) cs of
        [] \<Rightarrow> Hint_None | c # _ \<Rightarrow> cname_verdict k c)"
proof (induction cs)
  case (Cons c cs)
  have "ds_contains (strip_suffix_char CHR ''.'' c) s \<longleftrightarrow> ds_contains c s" for s
    by (simp add: ds_contains_def)
  with Cons show ?case
    by (simp add: cname_verdict_def Let_def list_ex_iff)
qed simp

text \<open>The lists hold registrable names only and membership is exact: a host below a listed name
  is unknown.\<close>

lemma classify_subdomain_unknown:
  "classify_domain knowledge_new ''qq.com'' = Prior_China \<and>
   classify_domain knowledge_new ''www.qq.com'' = Prior_Unknown"
proof -
  have "\<not> list_ex (\<lambda>x. norm_labels x = norm_labels ''www.qq.com'') (CDN_DOMAINS @ CHINA_DOMAINS @ FOREIGN_DOMAINS)"
    "\<not> list_ex (\<lambda>x. norm_labels x = norm_labels ''qq.com'') CDN_DOMAINS"
    "list_ex (\<lambda>x. norm_labels x = norm_labels ''qq.com'') CHINA_DOMAINS"
    by code_simp+
  then show ?thesis
    by (auto simp: classify_domain_lists list_ex_iff image_iff)
qed

end
