(* ===== verification/Geo_Ip.thy ===== *)
theory Geo_Ip
  imports Dns_Types Ip_Addr
begin

text \<open>
  The rule-based GeoIP lookup, \<^verbatim>\<open>border-dns-geoip/src/lib.rs\<close>. The octets of an IPv4 address and
  the 16-bit segments of an IPv6 address are read by position; addresses are well formed
  (four or sixteen octets), as the decoder and the parser produce them.
\<close>

record geo_ip_result =
  geo_scope :: ip_geo_scope
  country_code :: "string option"

definition is_reserved_v4 :: "u8 list \<Rightarrow> bool" where
  "is_reserved_v4 os =
     (let a = os ! 0; b = os ! 1; c = os ! 2 in
      if a = 0 then True
      else if a = 127 then True
      else if a = 169 \<and> b = 254 then True
      else if a = 192 \<and> b = 0 \<and> c = 0 then True
      else if a = 192 \<and> b = 0 \<and> c = 2 then True
      else if a = 198 \<and> (b = 18 \<or> b = 19) then True
      else if 224 \<le> a \<and> a \<le> 239 then True
      else if 240 \<le> a \<and> a \<le> 255 then True
      else False)"

definition is_private_v4 :: "u8 list \<Rightarrow> bool" where
  "is_private_v4 os =
     (let a = os ! 0; b = os ! 1 in
      if a = 10 then True
      else if a = 172 \<and> b \<ge> 16 \<and> b \<le> 31 then True
      else if a = 192 \<and> b = 168 then True
      else False)"

definition is_likely_china_v4 :: "u8 list \<Rightarrow> bool" where
  "is_likely_china_v4 os =
     (let a = os ! 0; b = os ! 1; c = os ! 2 in
      if a = 1 \<and> b = 0 \<and> (c \<ge> 1 \<and> c \<le> 3) then True
      else if a = 1 \<and> b = 0 \<and> c = 8 then True
      else if a = 14 then True
      else if a = 27 \<and> b \<le> 63 then True
      else if a \<in> {36, 39, 42, 49, 58, 59, 60, 61, 101} then True
      else if a = 103 \<and> b \<ge> 224 then True
      else if a \<in> {106, 110, 111, 112, 113, 114, 115, 116, 117, 118, 119, 120, 121, 122, 123,
                    124, 125, 180, 182, 183} then True
      else if a = 202 \<and> b \<ge> 96 \<and> b \<le> 127 then True
      else if a \<in> {210, 211, 218, 219, 220, 221, 222, 223} then True
      else False)"

fun segments_of :: "u8 list \<Rightarrow> u16 list" where
  "segments_of (a # b # os) = u16_from_be_bytes a b # segments_of os"
| "segments_of _ = []"

definition is_private_v6 :: "u16 list \<Rightarrow> bool" where
  "is_private_v6 segs =
     (if (segs ! 0) AND 0xffc0 = 0xfe80 then True
      else if (segs ! 0) AND 0xfe00 = 0xfc00 then True
      else if list_all (\<lambda>s. s = 0) segs \<or> (segs ! 7 = 1 \<and> list_all (\<lambda>s. s = 0) (take 7 segs)) then True
      else False)"

definition lookup_v4 :: "u8 list \<Rightarrow> geo_ip_result" where
  "lookup_v4 os =
     (if is_reserved_v4 os then \<lparr>geo_scope = Geo_Reserved, country_code = None\<rparr>
      else if is_private_v4 os then \<lparr>geo_scope = Geo_Private, country_code = None\<rparr>
      else if is_likely_china_v4 os then \<lparr>geo_scope = Geo_Cn, country_code = Some ''CN''\<rparr>
      else \<lparr>geo_scope = Geo_Foreign, country_code = None\<rparr>)"

text \<open>\<^verbatim>\<open>Ipv6Addr::is_loopback\<close>, \<^verbatim>\<open>is_unspecified\<close> and \<^verbatim>\<open>to_ipv4_mapped\<close>.\<close>

definition is_loopback_v6 :: "u8 list \<Rightarrow> bool" where
  "is_loopback_v6 os \<longleftrightarrow> os = replicate 15 0 @ [1]"

definition is_unspecified_v6 :: "u8 list \<Rightarrow> bool" where
  "is_unspecified_v6 os \<longleftrightarrow> os = replicate 16 0"

definition to_ipv4_mapped :: "u8 list \<Rightarrow> u8 list option" where
  "to_ipv4_mapped os = (if take 12 os = replicate 10 0 @ [0xff, 0xff] then Some (drop 12 os) else None)"

definition lookup_v6 :: "u8 list \<Rightarrow> geo_ip_result" where
  "lookup_v6 os =
     (let segs = segments_of os in
      if is_loopback_v6 os \<or> is_unspecified_v6 os then \<lparr>geo_scope = Geo_Reserved, country_code = None\<rparr>
      else case to_ipv4_mapped os of
        Some v4 \<Rightarrow> lookup_v4 v4
      | None \<Rightarrow>
          if is_private_v6 segs then \<lparr>geo_scope = Geo_Private, country_code = None\<rparr>
          else if segs ! 0 \<ge> 0x2400 \<and> segs ! 0 < 0x2500
          then \<lparr>geo_scope = Geo_Cn, country_code = Some ''CN''\<rparr>
          else \<lparr>geo_scope = Geo_Foreign, country_code = None\<rparr>)"

fun geo_lookup :: "ip_addr \<Rightarrow> geo_ip_result" where
  "geo_lookup (V4 os) = lookup_v4 os"
| "geo_lookup (V6 os) = lookup_v6 os"

section \<open>Lemmas\<close>

lemma private_v4_first: "is_private_v4 os \<Longrightarrow> os ! 0 = 10 \<or> os ! 0 = 172 \<or> os ! 0 = 192 \<and> os ! 1 = 168"
  by (simp add: is_private_v4_def Let_def split: if_splits)

lemma china_v4_first:
  "is_likely_china_v4 os \<Longrightarrow>
     os ! 0 \<in> {1, 14, 27, 103, 202} \<union> {36, 39, 42, 49, 58, 59, 60, 61, 101} \<union>
       {106, 110, 111, 112, 113, 114, 115, 116, 117, 118, 119, 120, 121, 122, 123, 124, 125, 180, 182, 183} \<union>
       {210, 211, 218, 219, 220, 221, 222, 223}"
  unfolding is_likely_china_v4_def Let_def
  by (simp only: Un_iff split: if_splits) (simp_all del: insert_iff, simp_all)

lemma v4_classes_disjoint:
  shows "is_private_v4 os \<Longrightarrow> \<not> is_reserved_v4 os"
    and "is_likely_china_v4 os \<Longrightarrow> \<not> is_reserved_v4 os"
    and "is_likely_china_v4 os \<Longrightarrow> \<not> is_private_v4 os"
proof -
  show "\<not> is_reserved_v4 os" if "is_private_v4 os"
    using private_v4_first [OF that] by (elim disjE) (simp_all add: is_reserved_v4_def Let_def)
  show "\<not> is_reserved_v4 os" if "is_likely_china_v4 os"
    using china_v4_first [OF that]
    by (elim UnE insertE emptyE) (simp_all add: is_reserved_v4_def Let_def word_le_nat_alt)
  show "\<not> is_private_v4 os" if "is_likely_china_v4 os"
    using china_v4_first [OF that]
    by (elim UnE insertE emptyE) (simp_all add: is_private_v4_def Let_def)
qed

lemma country_code_iff_cn: "country_code (geo_lookup ip) = (if geo_scope (geo_lookup ip) = Geo_Cn then Some ''CN'' else None)"
  by (cases ip) (auto simp: lookup_v4_def lookup_v6_def Let_def split: option.splits)

lemma replicate_octets:
  "replicate 10 x = [x, x, x, x, x, x, x, x, x, x]"
  "replicate 15 x = [x, x, x, x, x, x, x, x, x, x, x, x, x, x, x]"
  "replicate 16 x = [x, x, x, x, x, x, x, x, x, x, x, x, x, x, x, x]"
  by (simp_all add: numeral_eq_Suc)

lemma lookup_v4_mapped:
  "geo_lookup (V6 (replicate 10 0 @ [0xff, 0xff, a, b, c, d])) = geo_lookup (V4 [a, b, c, d])"
  by (simp add: lookup_v6_def is_loopback_v6_def is_unspecified_v6_def to_ipv4_mapped_def Let_def
      replicate_octets)

section \<open>Properties\<close>

text \<open>The address classes are disjoint, so the order of the tests does not matter: an IPv4
  address is reserved, private or likely Chinese exactly when its own test says so and foreign
  when none does; the country code is CN exactly for the scope CN, no address is left
  unclassified, and an IPv4-mapped IPv6 address is classified as the IPv4 address.\<close>

theorem geo_lookup_partition:
  "(geo_scope (geo_lookup (V4 os)) = Geo_Reserved \<longleftrightarrow> is_reserved_v4 os) \<and>
   (geo_scope (geo_lookup (V4 os)) = Geo_Private \<longleftrightarrow> is_private_v4 os) \<and>
   (geo_scope (geo_lookup (V4 os)) = Geo_Cn \<longleftrightarrow> is_likely_china_v4 os) \<and>
   geo_scope (geo_lookup ip) \<noteq> Geo_Unknown \<and>
   country_code (geo_lookup ip) = (if geo_scope (geo_lookup ip) = Geo_Cn then Some ''CN'' else None) \<and>
   geo_lookup (V6 (replicate 10 0 @ [0xff, 0xff, a, b, c, d])) = geo_lookup (V4 [a, b, c, d])"
proof (intro conjI)
  show "geo_scope (geo_lookup (V4 os)) = Geo_Reserved \<longleftrightarrow> is_reserved_v4 os"
    "geo_scope (geo_lookup (V4 os)) = Geo_Private \<longleftrightarrow> is_private_v4 os"
    "geo_scope (geo_lookup (V4 os)) = Geo_Cn \<longleftrightarrow> is_likely_china_v4 os"
    using v4_classes_disjoint [of os] by (auto simp: lookup_v4_def)
  show "geo_scope (geo_lookup ip) \<noteq> Geo_Unknown"
    by (cases ip) (auto simp: lookup_v4_def lookup_v6_def Let_def split: option.splits)
  show "country_code (geo_lookup ip) = (if geo_scope (geo_lookup ip) = Geo_Cn then Some ''CN'' else None)"
    by (rule country_code_iff_cn)
  show "geo_lookup (V6 (replicate 10 0 @ [0xff, 0xff, a, b, c, d])) = geo_lookup (V4 [a, b, c, d])"
    by (rule lookup_v4_mapped)
qed

section \<open>Where code and documentation part\<close>

text \<open>The comment names the block 2400::/12; the test accepts all of 2400::/8, for instance 2450::.\<close>

theorem china_v6_block_is_wider:
  "geo_scope (geo_lookup (V6 ([0x24, 0x50] @ replicate 14 0))) = Geo_Cn \<and>
   u16_from_be_bytes 0x24 0x50 AND 0xfff0 \<noteq> 0x2400"
  by code_simp

end
