(* ===== verification/Route_Policy.thy ===== *)
theory Route_Policy
  imports Rr Domain_Knowledge Geo_Ip Float32 "HOL-Library.Multiset"
begin

text \<open>
  The route decision, \<^verbatim>\<open>border-dns-route-policy/src/lib.rs\<close>: the decision from the domain prior, its
  refinement by CNAME and answer geography, and the ordering of the answers. Scores are
  \<^verbatim>\<open>f64\<close>, rounded after every operation. The domain knowledge and the GeoIP lookup the source
  takes as trait objects are the arguments \<open>classify\<close>, \<open>classify_chain\<close> and \<open>geoip\<close>.
\<close>

record route_decision =
  execution_route :: route
  route_source :: route_source
  rd_confidence :: confidence
  china_score :: f64
  foreign_score :: f64
  score_margin :: f64
  reason_codes :: "reason_code list"

definition route_decision_default :: route_decision where
  "route_decision_default =
     \<lparr>execution_route = Route_Fallback, route_source = RS_FallbackPolicy, rd_confidence = Conf_None,
      china_score = 0, foreign_score = 0, score_margin = 0, reason_codes = [Reason_FallbackRoute]\<rparr>"

record answer_geo_evidence =
  cn_count :: nat
  foreign_count :: nat
  private_count :: nat
  ev_total :: nat

definition evidence_default :: answer_geo_evidence where
  "evidence_default = \<lparr>cn_count = 0, foreign_count = 0, private_count = 0, ev_total = 0\<rparr>"

record route_policy =
  rp_resolver_location :: resolver_location

definition policy_new :: "resolver_location \<Rightarrow> route_policy" where
  "policy_new l = \<lparr>rp_resolver_location = l\<rparr>"

section \<open>Decision from the domain prior\<close>

definition decide_by_domain_prior ::
    "route_policy \<Rightarrow> (string \<Rightarrow> domain_prior) \<Rightarrow> string \<Rightarrow> route_decision" where
  "decide_by_domain_prior policy classify domain =
     (let decision = route_decision_default in
      case classify domain of
        Prior_China \<Rightarrow> decision\<lparr>execution_route := Route_China, route_source := RS_DomainPrior,
          rd_confidence := Conf_Strong, china_score := 1, foreign_score := 0, score_margin := 1,
          reason_codes := [Reason_DomainPriorCn]\<rparr>
      | Prior_Foreign \<Rightarrow> decision\<lparr>execution_route := Route_Foreign, route_source := RS_DomainPrior,
          rd_confidence := Conf_Strong, china_score := 0, foreign_score := 1, score_margin := 1,
          reason_codes := [Reason_DomainPriorForeign]\<rparr>
      | Prior_GlobalCdn \<Rightarrow>
          let d = decision\<lparr>route_source := RS_DomainPrior, rd_confidence := Conf_Weak,
                reason_codes := [Reason_GlobalCdn]\<rparr>;
              d = (case rp_resolver_location policy of
                  Loc_China \<Rightarrow> d\<lparr>execution_route := Route_China,
                    china_score := f64_round (3 / 10), foreign_score := f64_round (1 / 10)\<rparr>
                | Loc_Foreign \<Rightarrow> d\<lparr>execution_route := Route_Foreign,
                    china_score := f64_round (1 / 10), foreign_score := f64_round (3 / 10)\<rparr>
                | Loc_Unknown \<Rightarrow> d\<lparr>execution_route := Route_Fallback,
                    china_score := 0, foreign_score := 0\<rparr>)
          in d\<lparr>score_margin := \<bar>f64_round (china_score d - foreign_score d)\<bar>\<rparr>
      | Prior_Unknown \<Rightarrow>
          let d = decision\<lparr>route_source := RS_DefaultPolicy, rd_confidence := Conf_None,
                reason_codes := [Reason_DefaultRoute]\<rparr>
          in (case rp_resolver_location policy of
              Loc_China \<Rightarrow> d\<lparr>execution_route := Route_China\<rparr>
            | Loc_Foreign \<Rightarrow> d\<lparr>execution_route := Route_Foreign\<rparr>
            | Loc_Unknown \<Rightarrow> d\<lparr>execution_route := Route_Fallback,
                reason_codes := [Reason_FallbackRoute]\<rparr>))"

section \<open>Refinement\<close>

definition refine_by_cname ::
    "(string list \<Rightarrow> cname_hint) \<Rightarrow> string list \<Rightarrow> route_decision \<Rightarrow> route_decision" where
  "refine_by_cname classify_chain cnames d =
     (case classify_chain cnames of
        Hint_ChinaProvider \<Rightarrow>
          if execution_route d = Route_China then
            d\<lparr>rd_confidence := Conf_Strong,
              china_score := min (f64_round (china_score d + f64_round (2 / 10))) 1,
              reason_codes := reason_codes d @ [Reason_CnameHint]\<rparr>
          else if execution_route d = Route_Foreign then
            d\<lparr>reason_codes := reason_codes d @ [Reason_MixedGeo], rd_confidence := Conf_Weak\<rparr>
          else d
      | Hint_ForeignProvider \<Rightarrow>
          if execution_route d = Route_Foreign then
            d\<lparr>rd_confidence := Conf_Strong,
              foreign_score := min (f64_round (foreign_score d + f64_round (2 / 10))) 1,
              reason_codes := reason_codes d @ [Reason_CnameHint]\<rparr>
          else if execution_route d = Route_China then
            d\<lparr>reason_codes := reason_codes d @ [Reason_MixedGeo], rd_confidence := Conf_Weak\<rparr>
          else d
      | Hint_GlobalCdn \<Rightarrow> d\<lparr>reason_codes := reason_codes d @ [Reason_GlobalCdn]\<rparr>
      | Hint_None \<Rightarrow> d)"

text \<open>The address of an A or AAAA record.\<close>

fun rr_ip :: "rdata \<Rightarrow> ip_addr option" where
  "rr_ip (RD_A addr) = Some (V4 addr)"
| "rr_ip (RD_AAAA addr) = Some (V6 addr)"
| "rr_ip _ = None"

fun count_scope :: "ip_geo_scope \<Rightarrow> answer_geo_evidence \<Rightarrow> answer_geo_evidence" where
  "count_scope Geo_Cn e = e\<lparr>cn_count := cn_count e + 1\<rparr>"
| "count_scope Geo_Foreign e = e\<lparr>foreign_count := foreign_count e + 1\<rparr>"
| "count_scope Geo_Private e = e\<lparr>private_count := private_count e + 1\<rparr>"
| "count_scope Geo_Reserved e = e\<lparr>private_count := private_count e + 1\<rparr>"
| "count_scope Geo_Unknown e = e"

definition analyze_step ::
    "(ip_addr \<Rightarrow> geo_ip_result) \<Rightarrow> resource_record \<Rightarrow> answer_geo_evidence \<Rightarrow> answer_geo_evidence" where
  "analyze_step geoip rr e =
     (case rr_ip (rr_rdata rr) of
        Some ip \<Rightarrow> count_scope (geo_scope (geoip ip)) (e\<lparr>ev_total := ev_total e + 1\<rparr>)
      | None \<Rightarrow> e)"

definition analyze_answer_geo ::
    "(ip_addr \<Rightarrow> geo_ip_result) \<Rightarrow> resource_record list \<Rightarrow> answer_geo_evidence" where
  "analyze_answer_geo geoip answers = fold (analyze_step geoip) answers evidence_default"

definition refine_by_answer_geo :: "answer_geo_evidence \<Rightarrow> route_decision \<Rightarrow> route_decision" where
  "refine_by_answer_geo e d =
     (if ev_total e = 0 then d
      else let classified = cn_count e + foreign_count e in
        if classified = 0 then d
        else
          let cn_ratio = f64_round (of_nat (cn_count e) / of_nat classified);
              foreign_ratio = f64_round (of_nat (foreign_count e) / of_nat classified);
              w = f64_round (3 / 10);
              d = d\<lparr>china_score := min (f64_round (china_score d + f64_round (cn_ratio * w))) 1\<rparr>;
              d = d\<lparr>foreign_score := min (f64_round (foreign_score d + f64_round (foreign_ratio * w))) 1\<rparr>;
              d = d\<lparr>score_margin := \<bar>f64_round (china_score d - foreign_score d)\<bar>\<rparr>
          in if cn_count e > 0 \<and> foreign_count e > 0 then
               (let d = (if Reason_MixedGeo \<in> set (reason_codes d) then d
                         else d\<lparr>reason_codes := reason_codes d @ [Reason_MixedGeo]\<rparr>)
                in if rd_confidence d > Conf_Weak then d\<lparr>rd_confidence := Conf_Weak\<rparr> else d)
             else
               (let d = (if cn_count e > 0 then d\<lparr>reason_codes := reason_codes d @ [Reason_GeoIpCn]\<rparr>
                         else if foreign_count e > 0
                         then d\<lparr>reason_codes := reason_codes d @ [Reason_GeoIpForeign]\<rparr>
                         else d)
                in if rd_confidence d = Conf_None then d\<lparr>rd_confidence := Conf_Moderate\<rparr> else d))"

section \<open>Answer selection\<close>

definition is_cn_answer :: "(ip_addr \<Rightarrow> geo_ip_result) \<Rightarrow> resource_record \<Rightarrow> bool" where
  "is_cn_answer geoip rr =
     (case rr_ip (rr_rdata rr) of Some ip \<Rightarrow> geo_scope (geoip ip) = Geo_Cn | None \<Rightarrow> False)"

fun split_candidates ::
    "(ip_addr \<Rightarrow> geo_ip_result) \<Rightarrow> resource_record list \<Rightarrow> resource_record list \<Rightarrow> resource_record list
      \<Rightarrow> resource_record list \<times> resource_record list" where
  "split_candidates geoip [] cn other = (cn, other)"
| "split_candidates geoip (rr # rrs) cn other =
     (if is_cn_answer geoip rr then split_candidates geoip rrs (cn @ [rr]) other
      else split_candidates geoip rrs cn (other @ [rr]))"

definition select_answer_candidates ::
    "route_policy \<Rightarrow> (ip_addr \<Rightarrow> geo_ip_result) \<Rightarrow> resource_record list \<Rightarrow> route \<Rightarrow> resource_record list" where
  "select_answer_candidates policy geoip answers r =
     (if \<not> (rp_resolver_location policy = Loc_China \<and> r = Route_China) then answers
      else case split_candidates geoip answers [] [] of (cn, other) \<Rightarrow>
        if cn = [] then other else cn @ other)"

section \<open>Lemmas\<close>

lemma split_candidates_eq:
  "split_candidates geoip rrs cn other =
     (cn @ filter (is_cn_answer geoip) rrs, other @ filter (\<lambda>rr. \<not> is_cn_answer geoip rr) rrs)"
  by (induction geoip rrs cn other rule: split_candidates.induct) auto

lemma f64_round_nonneg: "0 \<le> x \<Longrightarrow> 0 \<le> f64_round x"
  by (simp add: f64_round_def float_round_nonneg)

definition scores_ok :: "route_decision \<Rightarrow> bool" where
  "scores_ok d \<longleftrightarrow> 0 \<le> china_score d \<and> china_score d \<le> 1 \<and> 0 \<le> foreign_score d \<and> foreign_score d \<le> 1"

lemma f64_constants: "f64_round (3 / 10) \<le> 1" "f64_round (1 / 10) \<le> 1"
  by code_simp+

lemma scores_ok_prior: "scores_ok (decide_by_domain_prior policy classify domain)"
  by (auto simp: decide_by_domain_prior_def scores_ok_def route_decision_default_def Let_def
      f64_round_nonneg f64_constants split: domain_prior.splits resolver_location.splits)

lemma scores_ok_cname: "scores_ok d \<Longrightarrow> scores_ok (refine_by_cname classify_chain cnames d)"
  by (auto simp: refine_by_cname_def scores_ok_def f64_round_nonneg split: cname_hint.splits)

lemma scores_ok_geo: "scores_ok d \<Longrightarrow> scores_ok (refine_by_answer_geo e d)"
  by (auto simp: refine_by_answer_geo_def scores_ok_def Let_def f64_round_nonneg)

lemma route_cname: "execution_route (refine_by_cname classify_chain cnames d) = execution_route d"
  by (auto simp: refine_by_cname_def split: cname_hint.splits)

lemma route_geo: "execution_route (refine_by_answer_geo e d) = execution_route d"
  by (auto simp: refine_by_answer_geo_def Let_def)

lemma count_scope_fields [simp]:
  "cn_count (count_scope g e) = cn_count e + (if g = Geo_Cn then 1 else 0)"
  "foreign_count (count_scope g e) = foreign_count e + (if g = Geo_Foreign then 1 else 0)"
  "private_count (count_scope g e) = private_count e + (if g = Geo_Private \<or> g = Geo_Reserved then 1 else 0)"
  "ev_total (count_scope g e) = ev_total e"
  by (cases g; simp)+

definition answer_scope :: "(ip_addr \<Rightarrow> geo_ip_result) \<Rightarrow> resource_record \<Rightarrow> ip_geo_scope option" where
  "answer_scope geoip rr = map_option (\<lambda>ip. geo_scope (geoip ip)) (rr_ip (rr_rdata rr))"

lemma analyze_counts:
  "cn_count (fold (analyze_step geoip) rrs e) =
     cn_count e + length (filter (\<lambda>rr. answer_scope geoip rr = Some Geo_Cn) rrs)"
  "foreign_count (fold (analyze_step geoip) rrs e) =
     foreign_count e + length (filter (\<lambda>rr. answer_scope geoip rr = Some Geo_Foreign) rrs)"
  "private_count (fold (analyze_step geoip) rrs e) = private_count e +
     length (filter (\<lambda>rr. answer_scope geoip rr \<in> {Some Geo_Private, Some Geo_Reserved}) rrs)"
  "ev_total (fold (analyze_step geoip) rrs e) =
     ev_total e + length (filter (\<lambda>rr. answer_scope geoip rr \<noteq> None) rrs)"
  by (induction rrs arbitrary: e) (auto simp: analyze_step_def answer_scope_def split: option.splits)

lemma is_cn_answer_scope: "is_cn_answer geoip rr \<longleftrightarrow> answer_scope geoip rr = Some Geo_Cn"
  by (auto simp: is_cn_answer_def answer_scope_def split: option.splits)

text \<open>The complete decision of a query: prior, CNAME chain, answer geography.\<close>

definition full_decision ::
    "route_policy \<Rightarrow> (string \<Rightarrow> domain_prior) \<Rightarrow> (string list \<Rightarrow> cname_hint) \<Rightarrow> string \<Rightarrow> string list
      \<Rightarrow> answer_geo_evidence \<Rightarrow> route_decision" where
  "full_decision policy classify classify_chain domain cnames e =
     refine_by_answer_geo e (refine_by_cname classify_chain cnames
       (decide_by_domain_prior policy classify domain))"

section \<open>Properties\<close>


text \<open>In floating point arithmetic too, both scores of a decision stay between zero and one
  through every refinement, and answers from both sides leave at most weak confidence and the
  mixed-geography reason.\<close>

theorem decision_scores_bounded:
  "scores_ok (full_decision policy classify classify_chain domain cnames e) \<and>
   (cn_count e > 0 \<and> foreign_count e > 0 \<and> ev_total e > 0 \<longrightarrow>
      rd_confidence (full_decision policy classify classify_chain domain cnames e) \<le> Conf_Weak \<and>
      Reason_MixedGeo \<in> set (reason_codes (full_decision policy classify classify_chain domain cnames e)))"
proof
  show "scores_ok (full_decision policy classify classify_chain domain cnames e)"
    unfolding full_decision_def by (intro scores_ok_geo scores_ok_cname scores_ok_prior)
  have "rd_confidence (refine_by_answer_geo e d) \<le> Conf_Weak \<and>
      Reason_MixedGeo \<in> set (reason_codes (refine_by_answer_geo e d))"
    if "cn_count e > 0 \<and> foreign_count e > 0 \<and> ev_total e > 0" for d
    using that by (auto simp: refine_by_answer_geo_def Let_def not_less)
  then show "cn_count e > 0 \<and> foreign_count e > 0 \<and> ev_total e > 0 \<longrightarrow>
      rd_confidence (full_decision policy classify classify_chain domain cnames e) \<le> Conf_Weak \<and>
      Reason_MixedGeo \<in> set (reason_codes (full_decision policy classify classify_chain domain cnames e))"
    by (simp add: full_decision_def)
qed

definition sample_evidence :: answer_geo_evidence where
  "sample_evidence = \<lparr>cn_count = 1, foreign_count = 2, private_count = 0, ev_total = 3\<rparr>"

theorem decision_scores_bounded_witness:
  "scores_ok (full_decision (policy_new Loc_China) (\<lambda>_. Prior_China) (\<lambda>_. Hint_None) ''qq.com'' [] sample_evidence) \<and>
   rd_confidence (full_decision (policy_new Loc_China) (\<lambda>_. Prior_China) (\<lambda>_. Hint_None) ''qq.com'' []
     sample_evidence) \<le> Conf_Weak \<and>
   Reason_MixedGeo \<in> set (reason_codes (full_decision (policy_new Loc_China) (\<lambda>_. Prior_China)
     (\<lambda>_. Hint_None) ''qq.com'' [] sample_evidence))"
  using decision_scores_bounded [of "policy_new Loc_China" "\<lambda>_. Prior_China" "\<lambda>_. Hint_None" "''qq.com''" "[]"
      sample_evidence]
  by (simp add: sample_evidence_def)

text \<open>The evidence counts are exact: the answers with an address, and among them those of each
  class, private and reserved together.\<close>

theorem answer_evidence_exact:
  "analyze_answer_geo geoip answers =
     \<lparr>cn_count = length (filter (\<lambda>rr. answer_scope geoip rr = Some Geo_Cn) answers),
      foreign_count = length (filter (\<lambda>rr. answer_scope geoip rr = Some Geo_Foreign) answers),
      private_count = length (filter (\<lambda>rr. answer_scope geoip rr \<in> {Some Geo_Private, Some Geo_Reserved}) answers),
      ev_total = length (filter (\<lambda>rr. answer_scope geoip rr \<noteq> None) answers)\<rparr>"
  unfolding analyze_answer_geo_def
  by (rule answer_geo_evidence.equality) (simp_all add: analyze_counts evidence_default_def)

text \<open>C35: answer selection only reorders: the result is a permutation of the answers, the identity
  unless resolver and route are both China, and then the stable partition with the Chinese
  addresses in front.\<close>

theorem select_answers_stable_partition:
  "mset (select_answer_candidates policy geoip answers r) = mset answers \<and>
   select_answer_candidates policy geoip answers r =
     (if rp_resolver_location policy = Loc_China \<and> r = Route_China
      then filter (\<lambda>rr. answer_scope geoip rr = Some Geo_Cn) answers @
           filter (\<lambda>rr. answer_scope geoip rr \<noteq> Some Geo_Cn) answers
      else answers)"
proof -
  have e: "select_answer_candidates policy geoip answers r =
     (if rp_resolver_location policy = Loc_China \<and> r = Route_China
      then filter (\<lambda>rr. answer_scope geoip rr = Some Geo_Cn) answers @
           filter (\<lambda>rr. answer_scope geoip rr \<noteq> Some Geo_Cn) answers
      else answers)"
    by (simp add: select_answer_candidates_def split_candidates_eq is_cn_answer_scope [abs_def])
  then show ?thesis by (simp add: mset_filter multiset_partition [symmetric])
qed

end
