(* ===== verification/Scoring.thy ===== *)
theory Scoring
  imports Facts_Schema Float32 "HOL-Library.List_Lexorder" "HOL-Library.Char_ord"
begin

text \<open>
  The route evidence scoring engine, \<^verbatim>\<open>border-dns-route-policy/src/scoring.rs\<close>. Scores are \<^verbatim>\<open>f32\<close>
  values, rounded after every operation in the order of the source. A \<^verbatim>\<open>BTreeMap\<close> is the
  association list of its entries in key order, so that its values are summed in that order.
  Unsigned additions wrap, as in a release build.
\<close>

section \<open>Ordered maps and float helpers\<close>

fun bt_insert :: "string \<Rightarrow> 'v \<Rightarrow> (string \<times> 'v) list \<Rightarrow> (string \<times> 'v) list" where
  "bt_insert k v [] = [(k, v)]"
| "bt_insert k v ((k', v') # es) =
     (if k = k' then (k, v) # es
      else if k < k' then (k, v) # (k', v') # es
      else (k', v') # bt_insert k v es)"

definition f32_sum :: "f32 list \<Rightarrow> f32" where
  "f32_sum vs = foldl (\<lambda>a v. f32_round (a + v)) 0 vs"

definition f32_mul :: "f32 \<Rightarrow> f32 \<Rightarrow> f32" where
  "f32_mul a b = f32_round (a * b)"

definition f32_of_u32 :: "u32 \<Rightarrow> f32" where
  "f32_of_u32 n = f32_round (of_nat (unat n))"

definition round_4 :: "f32 \<Rightarrow> f32" where
  "round_4 v = f32_round (float_to_nearest (f32_mul v 10000) / 10000)"

section \<open>Input and output\<close>

record route_evidence_weights =
  w_domain_prior :: f32
  w_local_ip_geo :: f32
  w_third_party_ip_geo :: f32
  w_cname_provider :: f32
  w_cname_global_each_side :: f32
  w_peer_route_vote :: f32
  w_tls_identity_bonus :: f32
  w_tls_mismatch_multiplier :: f32
  w_prior_conflict_multiplier :: f32

definition weights_default :: route_evidence_weights where
  "weights_default =
     \<lparr>w_domain_prior = f32_round (24 / 10), w_local_ip_geo = f32_round (14 / 10),
      w_third_party_ip_geo = f32_round (12 / 10), w_cname_provider = f32_round (9 / 10),
      w_cname_global_each_side = f32_round (25 / 100), w_peer_route_vote = f32_round (5 / 10),
      w_tls_identity_bonus = f32_round (20 / 100), w_tls_mismatch_multiplier = f32_round (65 / 100),
      w_prior_conflict_multiplier = f32_round (70 / 100)\<rparr>"

record route_evidence_input =
  ei_prior_route :: string
  local_cn_ip_count :: u32
  local_foreign_ip_count :: u32
  third_party_cn_ip_count :: u32
  third_party_foreign_ip_count :: u32
  peer_china_votes :: u32
  peer_foreign_votes :: u32
  ip_scope :: string
  ei_cname_scope :: cname_scope
  ei_tls_identity_status :: tls_identity_status
  runtime_confidence :: f32
  route_scoped_first_seen :: bool
  weights :: route_evidence_weights

definition evidence_input_default :: route_evidence_input where
  "evidence_input_default =
     \<lparr>ei_prior_route = [], local_cn_ip_count = 0, local_foreign_ip_count = 0,
      third_party_cn_ip_count = 0, third_party_foreign_ip_count = 0, peer_china_votes = 0,
      peer_foreign_votes = 0, ip_scope = ''unknown'', ei_cname_scope = Cname_Unknown,
      ei_tls_identity_status = Tls_Unknown, runtime_confidence = 0,
      route_scoped_first_seen = False, weights = weights_default\<rparr>"

datatype confidence_level = Level_None | Level_Low | Level_Medium | Level_High | Level_Conflict

fun confidence_level_as_str :: "confidence_level \<Rightarrow> string" where
  "confidence_level_as_str Level_None = ''none''"
| "confidence_level_as_str Level_Low = ''low''"
| "confidence_level_as_str Level_Medium = ''medium''"
| "confidence_level_as_str Level_High = ''high''"
| "confidence_level_as_str Level_Conflict = ''conflict''"

datatype promote_action = Action_ObserveOnly | Action_PromoteAssisted

fun promote_action_as_str :: "promote_action \<Rightarrow> string" where
  "promote_action_as_str Action_ObserveOnly = ''observe_only''"
| "promote_action_as_str Action_PromoteAssisted = ''promote_assisted''"

datatype decision_timing = Timing_ObserveOnly | Timing_AssistedNextQuery

fun decision_timing_as_str :: "decision_timing \<Rightarrow> string" where
  "decision_timing_as_str Timing_ObserveOnly = ''observe_only''"
| "decision_timing_as_str Timing_AssistedNextQuery = ''assisted_next_query''"

record route_evidence_score =
  sc_domain_intent :: domain_intent
  sc_evidence_strength :: evidence_strength
  sc_confidence_level :: confidence_level
  sc_fact_status :: fact_status
  sc_can_promote :: bool
  sc_suggested_next_route :: string
  sc_promote_action :: promote_action
  sc_decision_phase :: governance_phase
  sc_decision_timing :: decision_timing
  sc_reason_code :: string
  sc_china_score :: f32
  sc_foreign_score :: f32
  sc_score_margin :: f32
  sc_route_authority :: string
  sc_component_scores :: "(string \<times> f32) list"
  sc_notes :: "string list"

section \<open>Classification helpers\<close>

definition normalize_route :: "string \<Rightarrow> string" where
  "normalize_route value =
     (let v = to_lowercase (trim value) in
      if v = ''china'' then ''china'' else if v = ''foreign'' then ''foreign'' else ''unknown'')"

definition route_authority :: "route_evidence_input \<Rightarrow> string" where
  "route_authority data =
     (let prior = normalize_route (ei_prior_route data) in
      if prior = ''china'' \<or> prior = ''foreign'' then ''domain_prior''
      else if local_cn_ip_count data > 0 \<or> local_foreign_ip_count data > 0 then ''local_ip_geo''
      else if third_party_cn_ip_count data > 0 \<or> third_party_foreign_ip_count data > 0
      then ''third_party_ip_geo''
      else if \<not> (ei_cname_scope data = Cname_None \<or> ei_cname_scope data = Cname_Unknown) then ''cname''
      else ''unknown'')"

definition domain_intent_of ::
    "f32 \<Rightarrow> f32 \<Rightarrow> string \<Rightarrow> cname_scope \<Rightarrow> string \<Rightarrow> domain_intent" where
  "domain_intent_of china foreign scope cname prior =
     (let margin = \<bar>f32_round (china - foreign)\<bar> in
      if cname = Cname_GlobalCdn \<and> margin < 1 then GlobalIntent
      else if scope = ''mixed'' \<and> margin < 1 then MixedIntent
      else if china \<le> 0 \<and> foreign \<le> 0 then UnknownIntent
      else if margin < 3 / 4 then
        (if prior = ''china'' then ChinaIntent
         else if prior = ''foreign'' then ForeignIntent
         else MixedIntent)
      else if china > foreign then ChinaIntent
      else ForeignIntent)"

definition evidence_strength_of :: "route_evidence_input \<Rightarrow> f32 \<Rightarrow> f32 \<Rightarrow> f32 \<Rightarrow> evidence_strength" where
  "evidence_strength_of data china foreign margin =
     (let max_score = max china foreign;
          graded =
            (if ei_cname_scope data = Cname_MixedChain then Evidence_Conflicting
             else if max_score \<le> 0 then Evidence_None
             else if runtime_confidence data \<ge> f32_round (80 / 100) \<and> max_score \<ge> 3 \<and> margin \<ge> 1
             then Evidence_Strong
             else if runtime_confidence data \<ge> f32_round (55 / 100) \<or> max_score \<ge> f32_round (16 / 10)
             then Evidence_Moderate
             else Evidence_Weak)
      in if ei_tls_identity_status data = Tls_Mismatch then Evidence_Conflicting
         else if \<not> route_scoped_first_seen data then
           (if ip_scope data = ''mixed'' \<and>
               third_party_cn_ip_count data + third_party_foreign_ip_count data = 0
            then Evidence_Conflicting
            else if ip_scope data = ''mixed'' \<and> margin < 2 then Evidence_Conflicting
            else graded)
         else if ip_scope data = ''mixed'' \<and> margin < 3 / 4 then Evidence_Weak
         else graded)"

definition confidence_level_of :: "f32 \<Rightarrow> evidence_strength \<Rightarrow> confidence_level" where
  "confidence_level_of confidence evidence =
     (if evidence = Evidence_Conflicting then Level_Conflict
      else let v = min (max confidence 0) 1 in
        if v \<ge> f32_round (80 / 100) then Level_High
        else if v \<ge> f32_round (55 / 100) then Level_Medium
        else if v > 0 then Level_Low
        else Level_None)"

definition majority_route :: "u32 \<Rightarrow> u32 \<Rightarrow> string" where
  "majority_route cn foreign =
     (if cn > foreign then ''china'' else if foreign > cn then ''foreign'' else ''mixed'')"

definition reason_code_of :: "route_evidence_input \<Rightarrow> string" where
  "reason_code_of data =
     (if ei_tls_identity_status data = Tls_Mismatch then ''tls_identity_mismatch''
      else if ip_scope data = ''mixed'' then ''mixed_geo_conflict''
      else if ei_tls_identity_status data = Tls_ExactMatch \<or> ei_tls_identity_status data = Tls_CnameMatch
      then ''tls_identity_match''
      else if ei_cname_scope data \<in> {Cname_CnProvider, Cname_ForeignProvider, Cname_GlobalCdn}
      then ''cname_provider_hint''
      else if third_party_cn_ip_count data > 0 \<or> third_party_foreign_ip_count data > 0 then
        (let local_route = majority_route (local_cn_ip_count data) (local_foreign_ip_count data);
             tp_route = majority_route (third_party_cn_ip_count data) (third_party_foreign_ip_count data)
         in if local_route = tp_route \<and> local_route \<noteq> ''mixed'' then ''local_third_party_geo_aligned''
            else ''local_third_party_geo_conflict'')
      else ''speed_tie_break_only'')"

definition can_promote_of ::
    "route_evidence_input \<Rightarrow> domain_intent \<Rightarrow> evidence_strength \<Rightarrow> f32 \<Rightarrow> bool" where
  "can_promote_of data intent evidence margin =
     (if \<not> (evidence = Evidence_Moderate \<or> evidence = Evidence_Strong) then False
      else if \<not> (intent = ChinaIntent \<or> intent = ForeignIntent) then False
      else if ei_tls_identity_status data = Tls_Mismatch then False
      else if \<not> route_scoped_first_seen data then
        (if ip_scope data = ''mixed'' \<and>
            third_party_cn_ip_count data + third_party_foreign_ip_count data = 0 then False
         else if ip_scope data = ''mixed'' \<and> margin < 2 then False
         else True)
      else if ip_scope data = ''mixed'' \<and> margin < 3 / 4 then False
      else True)"

definition fact_status_of :: "bool \<Rightarrow> evidence_strength \<Rightarrow> fact_status" where
  "fact_status_of promote evidence =
     (if promote then Fact_Candidate
      else if evidence = Evidence_Conflicting then Fact_Conflicting
      else Fact_Observed)"

definition suggested_next_route_of :: "domain_intent \<Rightarrow> bool \<Rightarrow> string" where
  "suggested_next_route_of intent promote =
     (if \<not> promote then ''prior_route''
      else case intent of ChinaIntent \<Rightarrow> ''china'' | ForeignIntent \<Rightarrow> ''foreign'' | _ \<Rightarrow> ''prior_route'')"

section \<open>The engine\<close>

type_synonym components = "(string \<times> f32) list"

text \<open>The working state of the scoring function: the two component maps and the notes.\<close>

type_synonym score_parts = "components \<times> components \<times> string list"

definition count_component :: "string \<Rightarrow> u32 \<Rightarrow> f32 \<Rightarrow> components \<Rightarrow> components" where
  "count_component key n w cs = (if n > 0 then bt_insert key (f32_mul (f32_of_u32 n) w) cs else cs)"

definition gather_components :: "route_evidence_input \<Rightarrow> score_parts" where
  "gather_components data =
     (let w = weights data; prior = normalize_route (ei_prior_route data);
          (china, foreign, notes) =
            (if prior = ''china'' then (bt_insert ''domain_prior'' (w_domain_prior w) [], [], [])
             else if prior = ''foreign'' then ([], bt_insert ''domain_prior'' (w_domain_prior w) [], [])
             else ([], [], [''no_domain_prior'']));
          china = count_component ''local_ip_geo'' (local_cn_ip_count data) (w_local_ip_geo w) china;
          foreign = count_component ''local_ip_geo'' (local_foreign_ip_count data) (w_local_ip_geo w) foreign;
          china = count_component ''third_party_ip_geo'' (third_party_cn_ip_count data) (w_third_party_ip_geo w) china;
          foreign = count_component ''third_party_ip_geo'' (third_party_foreign_ip_count data) (w_third_party_ip_geo w) foreign;
          china = count_component ''peer_route_vote'' (peer_china_votes data) (w_peer_route_vote w) china;
          foreign = count_component ''peer_route_vote'' (peer_foreign_votes data) (w_peer_route_vote w) foreign
      in case ei_cname_scope data of
           Cname_CnProvider \<Rightarrow> (bt_insert ''cname_provider'' (w_cname_provider w) china, foreign, notes)
         | Cname_ForeignProvider \<Rightarrow> (china, bt_insert ''cname_provider'' (w_cname_provider w) foreign, notes)
         | Cname_GlobalCdn \<Rightarrow>
             (bt_insert ''cname_global'' (w_cname_global_each_side w) china,
              bt_insert ''cname_global'' (w_cname_global_each_side w) foreign, notes)
         | Cname_MixedChain \<Rightarrow> (china, foreign, notes @ [''mixed_cname_chain''])
         | _ \<Rightarrow> (china, foreign, notes))"

text \<open>TLS identity: a match strengthens the leading side, a mismatch weakens both.\<close>

definition apply_tls ::
    "route_evidence_input \<Rightarrow> score_parts \<Rightarrow> f32 \<Rightarrow> f32 \<Rightarrow> score_parts \<times> f32 \<times> f32" where
  "apply_tls data parts china_score foreign_score =
     (let w = weights data; (china, foreign, notes) = parts in
      if ei_tls_identity_status data = Tls_ExactMatch \<or> ei_tls_identity_status data = Tls_CnameMatch then
        if china_score > foreign_score then
          ((bt_insert ''tls_identity'' (w_tls_identity_bonus w) china, foreign, notes),
           f32_round (china_score + w_tls_identity_bonus w), foreign_score)
        else if foreign_score > china_score then
          ((china, bt_insert ''tls_identity'' (w_tls_identity_bonus w) foreign, notes),
           china_score, f32_round (foreign_score + w_tls_identity_bonus w))
        else ((china, foreign, notes @ [''tls_identity_match_without_route_bias'']), china_score, foreign_score)
      else if ei_tls_identity_status data = Tls_Mismatch then
        ((china, foreign, notes @ [''tls_identity_mismatch_downweighted'']),
         f32_mul china_score (w_tls_mismatch_multiplier w),
         f32_mul foreign_score (w_tls_mismatch_multiplier w))
      else (parts, china_score, foreign_score))"

text \<open>The prior dampens evidence against it.\<close>

definition dampen_conflict ::
    "route_evidence_input \<Rightarrow> string list \<Rightarrow> f32 \<Rightarrow> f32 \<Rightarrow> string list \<times> f32 \<times> f32" where
  "dampen_conflict data notes china_score foreign_score =
     (let w = weights data; prior = normalize_route (ei_prior_route data) in
      if \<not> route_scoped_first_seen data then
        if prior = ''china'' \<and> foreign_score > china_score then
          (notes @ [''foreign_evidence_challenged_china_prior''], china_score,
           f32_mul foreign_score (w_prior_conflict_multiplier w))
        else if prior = ''foreign'' \<and> china_score > foreign_score then
          (notes @ [''china_evidence_challenged_foreign_prior''],
           f32_mul china_score (w_prior_conflict_multiplier w), foreign_score)
        else (notes, china_score, foreign_score)
      else (notes, china_score, foreign_score))"

definition component_map :: "components \<Rightarrow> components \<Rightarrow> components" where
  "component_map china foreign =
     fold (\<lambda>(k, v). bt_insert (''foreign.'' @ k) (round_4 v)) foreign
       (fold (\<lambda>(k, v). bt_insert (''china.'' @ k) (round_4 v)) china [])"

definition score_route_evidence :: "route_evidence_input \<Rightarrow> route_evidence_score" where
  "score_route_evidence data =
     (let parts = gather_components data;
          ((china, foreign, notes), china_score, foreign_score) =
            apply_tls data parts (f32_sum (map snd (fst parts))) (f32_sum (map snd (fst (snd parts))));
          (notes, china_score, foreign_score) = dampen_conflict data notes china_score foreign_score;
          china_score = round_4 china_score;
          foreign_score = round_4 foreign_score;
          score_margin = round_4 \<bar>f32_round (china_score - foreign_score)\<bar>;
          intent = domain_intent_of china_score foreign_score (ip_scope data) (ei_cname_scope data)
            (normalize_route (ei_prior_route data));
          strength = evidence_strength_of data china_score foreign_score score_margin;
          promote = can_promote_of data intent strength score_margin
      in \<lparr>sc_domain_intent = intent, sc_evidence_strength = strength,
          sc_confidence_level = confidence_level_of (runtime_confidence data) strength,
          sc_fact_status = fact_status_of promote strength, sc_can_promote = promote,
          sc_suggested_next_route = suggested_next_route_of intent promote,
          sc_promote_action = (if promote then Action_PromoteAssisted else Action_ObserveOnly),
          sc_decision_phase = (if promote then Phase_Suggested else Phase_Learning),
          sc_decision_timing = (if promote then Timing_AssistedNextQuery else Timing_ObserveOnly),
          sc_reason_code = reason_code_of data, sc_china_score = china_score,
          sc_foreign_score = foreign_score, sc_score_margin = score_margin,
          sc_route_authority = route_authority data,
          sc_component_scores = component_map china foreign, sc_notes = notes\<rparr>)"

section \<open>Lemmas\<close>

lemma f32_mul_mono: "0 \<le> a \<Longrightarrow> 0 \<le> w \<Longrightarrow> a \<le> b \<Longrightarrow> f32_mul a w \<le> f32_mul b w"
  by (simp add: f32_mul_def f32_round_mono mult_right_mono)

lemma f32_mul_nonneg: "0 \<le> a \<Longrightarrow> 0 \<le> b \<Longrightarrow> 0 \<le> f32_mul a b"
  by (simp add: f32_mul_def f32_round_nonneg)

lemma f32_of_u32_mono: "a \<le> b \<Longrightarrow> f32_of_u32 a \<le> f32_of_u32 b"
  unfolding f32_of_u32_def by (rule f32_round_mono) (simp_all add: word_le_nat_alt del: of_nat_unat)

lemma f32_of_u32_nonneg: "0 \<le> f32_of_u32 a"
  unfolding f32_of_u32_def by (rule f32_round_nonneg) (rule of_nat_0_le_iff)

lemma float_to_nearest_mono: "0 \<le> a \<Longrightarrow> a \<le> b \<Longrightarrow> float_to_nearest a \<le> float_to_nearest b"
  by (simp add: float_to_nearest_def floor_mono)

lemma float_to_nearest_nonneg: "0 \<le> a \<Longrightarrow> 0 \<le> float_to_nearest a"
  by (simp add: float_to_nearest_def)

lemma round_4_mono: "0 \<le> a \<Longrightarrow> a \<le> b \<Longrightarrow> round_4 a \<le> round_4 b"
  unfolding round_4_def
  by (intro f32_round_mono divide_right_mono divide_nonneg_pos float_to_nearest_mono
      float_to_nearest_nonneg f32_mul_mono f32_mul_nonneg) auto

lemma f32_sum_single: "f32_sum [v] = f32_round v"
  by (simp add: f32_sum_def)

lemma f32_sum_Nil: "f32_sum [] = 0"
  by (simp add: f32_sum_def)

text \<open>The three scores of an input.\<close>

definition final_scores :: "route_evidence_input \<Rightarrow> f32 \<times> f32" where
  "final_scores data =
     (let parts = gather_components data;
          ((china, foreign, notes), cs, fs) =
            apply_tls data parts (f32_sum (map snd (fst parts))) (f32_sum (map snd (fst (snd parts))));
          (notes, cs, fs) = dampen_conflict data notes cs fs
      in (round_4 cs, round_4 fs))"

lemma score_projections:
  assumes "final_scores data = (cs, fs)"
  defines "margin \<equiv> round_4 \<bar>f32_round (cs - fs)\<bar>"
    and "intent \<equiv> domain_intent_of cs fs (ip_scope data) (ei_cname_scope data) (normalize_route (ei_prior_route data))"
  defines "strength \<equiv> evidence_strength_of data cs fs margin"
  shows "sc_domain_intent (score_route_evidence data) = intent"
    and "sc_evidence_strength (score_route_evidence data) = strength"
    and "sc_can_promote (score_route_evidence data) = can_promote_of data intent strength margin"
    and "sc_score_margin (score_route_evidence data) = margin"
  using assms(1)
  by (auto simp: score_route_evidence_def final_scores_def margin_def intent_def strength_def Let_def
      split: prod.splits)

section \<open>The evidence of one answer\<close>

text \<open>The input the query pipeline builds: a prior and the address counts of one answer.\<close>

definition answer_evidence :: "string \<Rightarrow> u32 \<Rightarrow> u32 \<Rightarrow> route_evidence_input" where
  "answer_evidence prior cn foreign =
     evidence_input_default\<lparr>ei_prior_route := prior, local_cn_ip_count := cn, local_foreign_ip_count := foreign\<rparr>"

definition china_prior_score :: f32 where
  "china_prior_score = f32_round (f32_round (24 / 10))"

definition foreign_ip_score :: "u32 \<Rightarrow> f32" where
  "foreign_ip_score n = f32_round (f32_mul (f32_of_u32 n) (f32_round (14 / 10)))"

definition damped_ip_score :: "u32 \<Rightarrow> f32" where
  "damped_ip_score n = f32_mul (foreign_ip_score n) (f32_round (70 / 100))"

lemma final_scores_china_prior:
  "final_scores (answer_evidence ''china'' 0 n) =
     (round_4 china_prior_score,
      round_4 (if n = 0 then 0
               else if china_prior_score < foreign_ip_score n then damped_ip_score n
               else foreign_ip_score n))"
proof -
  have p: "normalize_route ''china'' = ''china''" by code_simp
  have "gather_components (answer_evidence ''china'' 0 n) =
      ([(''domain_prior'', f32_round (24 / 10))],
       if n = 0 then [] else [(''local_ip_geo'', f32_mul (f32_of_u32 n) (f32_round (14 / 10)))], [])"
    by (simp add: gather_components_def answer_evidence_def evidence_input_default_def p count_component_def
        weights_default_def word_gt_0)
  moreover have "\<not> china_prior_score < 0"
    by (simp add: china_prior_score_def f32_round_nonneg not_less)
  ultimately show ?thesis
    by (simp add: final_scores_def apply_tls_def dampen_conflict_def Let_def f32_sum_single f32_sum_Nil
        answer_evidence_def evidence_input_default_def p weights_default_def
        china_prior_score_def foreign_ip_score_def damped_ip_score_def)
qed

lemma foreign_ip_score_mono: "m \<le> n \<Longrightarrow> foreign_ip_score m \<le> foreign_ip_score n"
  unfolding foreign_ip_score_def
  by (intro f32_round_mono f32_mul_mono f32_mul_nonneg f32_of_u32_mono f32_of_u32_nonneg f32_round_nonneg) auto

lemma damped_ip_score_mono: "m \<le> n \<Longrightarrow> damped_ip_score m \<le> damped_ip_score n"
  unfolding damped_ip_score_def
  by (intro f32_mul_mono foreign_ip_score_mono f32_round_nonneg)
    (auto simp: foreign_ip_score_def f32_mul_nonneg f32_of_u32_nonneg f32_round_nonneg)

text \<open>The scores at the small counts, as the fractions they are.\<close>

lemma score_numbers:
  "china_prior_score = 5033165 / 2097152" "round_4 china_prior_score = 5033165 / 2097152" "round_4 0 = 0"
  "foreign_ip_score 1 = 11744051 / 8388608" "foreign_ip_score 2 = 11744051 / 4194304"
  "round_4 (foreign_ip_score 1) = 11744051 / 8388608" "round_4 (damped_ip_score 2) = 2055209 / 1048576"
  "round_4 (damped_ip_score 3) = 6165627 / 2097152" "round_4 (damped_ip_score 4) = 2055209 / 524288"
  by code_simp+

lemma score_values:
  "china_prior_score < foreign_ip_score 2" "\<not> china_prior_score < foreign_ip_score 1"
  "\<bar>f32_round (round_4 china_prior_score - round_4 0)\<bar> \<ge> 3 / 4"
  "\<bar>f32_round (round_4 china_prior_score - round_4 (foreign_ip_score 1))\<bar> \<ge> 3 / 4"
  "round_4 (foreign_ip_score 1) < round_4 china_prior_score"
  "round_4 0 < round_4 china_prior_score"
  "\<bar>f32_round (round_4 china_prior_score - round_4 (damped_ip_score 2))\<bar> < 3 / 4"
  "\<bar>f32_round (round_4 china_prior_score - round_4 (damped_ip_score 3))\<bar> < 3 / 4"
  "round_4 china_prior_score < round_4 (damped_ip_score 4)"
  "f32_round (round_4 (damped_ip_score 4) - round_4 china_prior_score) \<ge> 3 / 4"
  "0 < round_4 china_prior_score"
  unfolding score_numbers by code_simp+

lemma u32_small: "n \<le> 3 \<longleftrightarrow> n = 0 \<or> n = 1 \<or> n = 2 \<or> n = 3" for n :: u32
proof -
  have "unat n \<le> 3 \<longleftrightarrow> unat n = 0 \<or> unat n = 1 \<or> unat n = 2 \<or> unat n = 3" by auto
  then show ?thesis by (simp add: word_le_nat_alt unat_eq_0 flip: word_unat_eq_iff) (simp add: word_unat_eq_iff)
qed

lemma damped_margin:
  assumes "4 \<le> n"
  shows "round_4 china_prior_score < round_4 (damped_ip_score n)"
    and "\<bar>f32_round (round_4 china_prior_score - round_4 (damped_ip_score n))\<bar> \<ge> 3 / 4"
proof -
  let ?c = "round_4 china_prior_score" and ?f = "\<lambda>n. round_4 (damped_ip_score n)"
  have "0 \<le> damped_ip_score 4"
    by (simp add: damped_ip_score_def foreign_ip_score_def f32_mul_nonneg f32_of_u32_nonneg f32_round_nonneg)
  then have f: "?f 4 \<le> ?f n" by (intro round_4_mono damped_ip_score_mono assms)
  then show "?c < ?f n" using score_values(9) by linarith
  have "f32_round (?f 4 - ?c) \<le> f32_round (?f n - ?c)"
    using f score_values(9) by (intro f32_round_mono) linarith+
  then have "3 / 4 \<le> f32_round (?f n - ?c)" using score_values(10) by linarith
  moreover have "f32_round (?c - ?f n) = - f32_round (?f n - ?c)"
    using f32_round_minus [of "?f n - ?c"] by simp
  ultimately show "\<bar>f32_round (?c - ?f n)\<bar> \<ge> 3 / 4" by linarith
qed

section \<open>Properties\<close>

text \<open>C36: a score promotes only on coherent evidence: moderate or strong, with a China or Foreign
  intent, no TLS identity mismatch and no mixed CNAME chain, and for a mixed answer of a known
  domain only with third-party addresses and a margin of at least two; the suggestion is then
  the route of the intent. Without promotion the suggestion is to keep the prior route and only
  to observe.\<close>

theorem promotion_is_safe:
  "(sc_can_promote (score_route_evidence data) \<longrightarrow>
      sc_evidence_strength (score_route_evidence data) \<in> {Evidence_Moderate, Evidence_Strong} \<and>
      ei_tls_identity_status data \<noteq> Tls_Mismatch \<and> ei_cname_scope data \<noteq> Cname_MixedChain \<and>
      (ip_scope data = ''mixed'' \<and> \<not> route_scoped_first_seen data \<longrightarrow>
         third_party_cn_ip_count data + third_party_foreign_ip_count data \<noteq> 0 \<and>
         sc_score_margin (score_route_evidence data) \<ge> 2) \<and>
      (sc_domain_intent (score_route_evidence data) = ChinaIntent \<and>
         sc_suggested_next_route (score_route_evidence data) = ''china'' \<or>
       sc_domain_intent (score_route_evidence data) = ForeignIntent \<and>
         sc_suggested_next_route (score_route_evidence data) = ''foreign'')) \<and>
   (\<not> sc_can_promote (score_route_evidence data) \<longrightarrow>
      sc_suggested_next_route (score_route_evidence data) = ''prior_route'' \<and>
      sc_promote_action (score_route_evidence data) = Action_ObserveOnly \<and>
      sc_decision_phase (score_route_evidence data) = Phase_Learning)"
proof -
  obtain cs fs where f: "final_scores data = (cs, fs)" by fastforce
  note p = score_projections [OF f]
  have s: "sc_suggested_next_route (score_route_evidence data) =
      suggested_next_route_of (sc_domain_intent (score_route_evidence data)) (sc_can_promote (score_route_evidence data))"
    "sc_promote_action (score_route_evidence data) =
      (if sc_can_promote (score_route_evidence data) then Action_PromoteAssisted else Action_ObserveOnly)"
    "sc_decision_phase (score_route_evidence data) =
      (if sc_can_promote (score_route_evidence data) then Phase_Suggested else Phase_Learning)"
    by (auto simp: score_route_evidence_def Let_def split: prod.splits)
  show ?thesis
    unfolding s p
    by (auto simp: can_promote_of_def suggested_next_route_of_def evidence_strength_of_def Let_def
        not_less split: if_splits)
qed

theorem promotion_is_safe_witness:
  "sc_can_promote (score_route_evidence (answer_evidence ''china'' 0 2)) \<and>
   sc_evidence_strength (score_route_evidence (answer_evidence ''china'' 0 2)) \<in> {Evidence_Moderate, Evidence_Strong}"
proof -
  have "final_scores (answer_evidence ''china'' 0 2) = (round_4 china_prior_score, round_4 (damped_ip_score 2))"
    using score_values(1) by (simp add: final_scores_china_prior)
  note p = score_projections [OF this [unfolded score_numbers]]
  have margin: "round_4 \<bar>f32_round (5033165 / 2097152 - 2055209 / 1048576)\<bar> = 7381975 / 16777216"
    by code_simp
  have "sc_can_promote (score_route_evidence (answer_evidence ''china'' 0 2))"
    unfolding p margin by code_simp
  with promotion_is_safe [of "answer_evidence ''china'' 0 2"] show ?thesis by blast
qed

text \<open>With the production weights, in \<^verbatim>\<open>f32\<close> arithmetic, the domain prior outlives a few
  contrary addresses and yields to many: for a known domain with a China prior and an answer of
  \<open>n\<close> foreign addresses the intent is still China for \<open>n\<close> up to three, and Foreign for every
  larger count.\<close>

theorem china_prior_outlives_three:
  "sc_domain_intent (score_route_evidence (answer_evidence ''china'' 0 n)) =
     (if n \<le> 3 then ChinaIntent else ForeignIntent)"
proof -
  have pos: "\<not> (round_4 china_prior_score \<le> 0 \<and> x \<le> 0)" for x
    using score_values(11) by simp
  have np: "normalize_route ''china'' = ''china''" by code_simp
  have fields: "ip_scope (answer_evidence ''china'' 0 n) = ''unknown''"
      "ei_cname_scope (answer_evidence ''china'' 0 n) = Cname_Unknown"
      "ei_prior_route (answer_evidence ''china'' 0 n) = ''china''"
    by (simp_all add: answer_evidence_def evidence_input_default_def)
  define fs where "fs = (if n = 0 then 0
      else if china_prior_score < foreign_ip_score n then damped_ip_score n else foreign_ip_score n)"
  have e: "sc_domain_intent (score_route_evidence (answer_evidence ''china'' 0 n)) =
      (if \<bar>f32_round (round_4 china_prior_score - round_4 fs)\<bar> < 3 / 4 then ChinaIntent
       else if round_4 fs < round_4 china_prior_score then ChinaIntent else ForeignIntent)"
    using score_projections(1) [OF final_scores_china_prior [of n, folded fs_def]] pos
    by (simp add: domain_intent_of_def Let_def fields np)
  consider "n = 0" | "n = 1" | "n = 2" | "n = 3" | "4 \<le> n" "\<not> n \<le> 3"
    using u32_small [of n] by (auto simp: word_le_nat_alt)
  then show ?thesis
  proof cases
    case 5
    have "foreign_ip_score 2 \<le> foreign_ip_score n"
      by (rule foreign_ip_score_mono) (use 5 in \<open>simp add: word_le_nat_alt\<close>)
    then have "fs = damped_ip_score n"
      using 5 score_values(1) by (auto simp: fs_def)
    with damped_margin [OF 5(1)] 5(2) show ?thesis by (simp add: e)
  next
    case 4
    have "foreign_ip_score 2 \<le> foreign_ip_score 3" by (rule foreign_ip_score_mono) simp
    with 4 score_values show ?thesis unfolding e fs_def by simp
  next
    case 1
    with score_values show ?thesis unfolding e fs_def by simp
  next
    case 2
    with score_values show ?thesis unfolding e fs_def by simp
  next
    case 3
    with score_values show ?thesis unfolding e fs_def by simp
  qed
qed

section \<open>Where code and documentation part\<close>

text \<open>The engine treats an answer with addresses of both sides as mixed only when the input says so
  in \<open>ip_scope\<close>; the pipeline leaves that field at its default, so such an answer can promote.\<close>

theorem mixed_answer_can_promote:
  "sc_can_promote (score_route_evidence (answer_evidence ''china'' 1 1))"
proof -
  let ?ip = "f32_mul (f32_of_u32 1) (f32_round (14 / 10))"
  have prior: "normalize_route ''china'' = ''china''" by code_simp
  have g: "gather_components (answer_evidence ''china'' 1 1) =
      ([(''domain_prior'', f32_round (24 / 10)), (''local_ip_geo'', ?ip)], [(''local_ip_geo'', ?ip)], [])"
    by (simp add: gather_components_def answer_evidence_def evidence_input_default_def prior count_component_def
        weights_default_def)
  have sums: "f32_sum [f32_round (12 / 5), f32_mul (f32_of_u32 1) (f32_round (7 / 5))] = 3984589 / 1048576"
    "f32_sum [f32_mul (f32_of_u32 1) (f32_round (7 / 5))] = 11744051 / 8388608"
    "round_4 (3984589 / 1048576) = 15938355 / 4194304" "round_4 (11744051 / 8388608) = 11744051 / 8388608"
    by code_simp+
  have "final_scores (answer_evidence ''china'' 1 1) = (15938355 / 4194304, 11744051 / 8388608)"
    unfolding final_scores_def g
    by (simp add: sums apply_tls_def dampen_conflict_def Let_def answer_evidence_def evidence_input_default_def prior)
  note p = score_projections [OF this]
  have margin: "round_4 \<bar>f32_round (15938355 / 4194304 - 11744051 / 8388608)\<bar> = 5033165 / 2097152"
    by code_simp
  show ?thesis unfolding p margin by code_simp
qed

end
