(* ===== verification/Pipeline.thy ===== *)
theory Pipeline
  imports Local_Answers Upstream Cache Domain_Knowledge Route_Policy Scoring Observation Governance_Worker
begin

text \<open>
  The query path, \<^verbatim>\<open>border-dns-pipeline/src/lib.rs\<close>: \<^verbatim>\<open>Pipeline::resolve\<close> from the bytes of a query
  to its answer, with everything it changes on the way: the answer cache, the governance store and
  the two channels to the background workers.

  One query runs to its end before the next one starts. What the environment contributes is
  explicit: the \<open>moment\<close> of a query (the clock readings of its stages, in the order the code takes
  them) and the \<open>env\<close> (the hash function of the cache and the scheduler of the upstream race).
  \<open>None\<close> as answer means that the task panicked, which only the cache's TTL clamp can cause.
\<close>

section \<open>State\<close>

record pipeline =
  pl_config :: runtime_config
  pl_cache :: route_scoped_cache
  pl_knowledge :: built_in_domain_knowledge
  pl_policy :: route_policy
  pl_store :: governance_store
  pl_thresholds :: governance_thresholds
  pl_hosts :: hosts_table
  pl_block :: block_matcher
  pl_fact_tx :: "fact_emitter channel"
  pl_observation_tx :: "observation_task channel"

record moment =
  at_created :: datetime
  at_lookup :: nat
  at_decided :: datetime
  at_emitted :: datetime
  at_enqueued :: datetime
  at_stored :: nat

record env =
  env_hasher :: "key_input \<Rightarrow> u64"
  env_completions :: "u8 list \<Rightarrow> (upstream_server \<times> u64) list \<Rightarrow> task_result list"

definition with_governance_channels ::
    "file_system \<Rightarrow> (string \<Rightarrow> string + string option list) \<Rightarrow> runtime_config \<Rightarrow> route_scoped_cache \<Rightarrow>
     built_in_domain_knowledge \<Rightarrow> governance_store \<Rightarrow> governance_thresholds \<Rightarrow>
     fact_emitter channel \<Rightarrow> observation_task channel \<Rightarrow> pipeline" where
  "with_governance_channels fs open_lines config cache knowledge store thresholds fact_tx observation_tx =
     \<lparr>pl_config = config, pl_cache = cache, pl_knowledge = knowledge,
      pl_policy = policy_new (location (cfg_resolver config)),
      pl_store = store, pl_thresholds = thresholds,
      pl_hosts = build_hosts_from_config fs (cfg_hosts config),
      pl_block = build_block_matcher_from_config open_lines (cfg_block config),
      pl_fact_tx = fact_tx, pl_observation_tx = observation_tx\<rparr>"

definition pipeline_new ::
    "file_system \<Rightarrow> (string \<Rightarrow> string + string option list) \<Rightarrow> runtime_config \<Rightarrow> route_scoped_cache \<Rightarrow>
     built_in_domain_knowledge \<Rightarrow> pipeline" where
  "pipeline_new fs open_lines config cache knowledge =
     with_governance_channels fs open_lines config cache knowledge store_new
       (governance_thresholds_default\<lparr>th_third_party_mode :=
          (if tpc_enabled (cfg_third_party config) then ThirdParty_Enabled else ThirdParty_Disabled)\<rparr>)
       channel_closed channel_closed"

section \<open>Stages\<close>

fun prior_route_str :: "route \<Rightarrow> string" where
  "prior_route_str Route_China = ''china''"
| "prior_route_str Route_Foreign = ''foreign''"
| "prior_route_str Route_Bootstrap = ''bootstrap''"
| "prior_route_str Route_Fallback = ''unknown''"

definition decide :: "pipeline \<Rightarrow> string \<Rightarrow> route_decision" where
  "decide p domain_str = decide_by_domain_prior (pl_policy p) (classify_domain (pl_knowledge p)) domain_str"

definition first_seen :: "domain_governance_state \<Rightarrow> bool" where
  "first_seen s \<longleftrightarrow> observation_count s = 0 \<and> phase s = Phase_New"

text \<open>Stages 5.5 and 5.6: the score of the answer and the governance transition it causes.\<close>

definition answer_score :: "route \<Rightarrow> answer_geo_evidence \<Rightarrow> route_evidence_score" where
  "answer_score r ev =
     score_route_evidence (answer_evidence (prior_route_str r) (of_nat (cn_count ev)) (of_nat (foreign_count ev)))"

definition transition_input ::
    "governance_thresholds \<Rightarrow> domain_governance_state \<Rightarrow> answer_geo_evidence \<Rightarrow> route_evidence_score
     \<Rightarrow> governance_transition_input" where
  "transition_input thresholds s ev score =
     \<lparr>in_state = s,
      latest_can_promote = sc_can_promote score,
      latest_is_mixed = (cn_count ev > 0 \<and> foreign_count ev > 0),
      latest_tls_mismatch = False,
      latest_hard_conflict = False,
      latest_soft_conflict = False,
      latest_local_aligned = sc_can_promote score,
      latest_third_party_aligned = False,
      is_first_seen = first_seen s,
      upstream_failure = False,
      in_thresholds = thresholds\<rparr>"

definition governed_state ::
    "governance_transition_result \<Rightarrow> route_evidence_score \<Rightarrow> domain_governance_state \<Rightarrow> domain_governance_state" where
  "governed_state transition score s =
     s\<lparr>phase := new_phase transition, observation_count := observation_count s + 1,
       gs_china_score := sc_china_score score, gs_foreign_score := sc_foreign_score score,
       gs_score_margin := sc_score_margin score, gs_can_promote := sc_can_promote score,
       state_version := state_version s + 1\<rparr>"

definition govern ::
    "moment \<Rightarrow> string \<Rightarrow> route \<Rightarrow> domain_governance_state \<Rightarrow> answer_geo_evidence \<Rightarrow> pipeline
     \<Rightarrow> governance_transition_result \<times> pipeline" where
  "govern t domain_str r s ev p =
     (let score = answer_score r ev;
          transition = evaluate_governance_transition (at_decided t)
            (transition_input (pl_thresholds p) s ev score)
      in if phase_changed transition \<or> first_seen s then
           let fact = fact_emitter_new (at_emitted t) domain_str
                 (if first_seen s then Event_FirstSeenDomain else Event_PhaseChanged)
                 (transition_reason_as_str (gt_reason_code transition))
           in (transition,
               p\<lparr>pl_store := force_update domain_str (governed_state transition score s) (pl_store p),
                 pl_fact_tx := channel_send
                   (fact\<lparr>fe_phase_changed := True, fe_new_phase := Some (new_phase transition)\<rparr>)
                   (pl_fact_tx p)\<rparr>)
         else (transition, p))"

fun rdata_ip_string :: "rdata \<Rightarrow> string option" where
  "rdata_ip_string (RD_A a) = Some (show_ipv4 a)"
| "rdata_ip_string (RD_AAAA a) = Some (show_ipv6 a)"
| "rdata_ip_string _ = None"

definition job_id :: "string \<Rightarrow> string \<Rightarrow> u16 \<Rightarrow> string" where
  "job_id kind domain_str ident = kind @ ''-'' @ domain_str @ ''-'' @ show_nat (unat ident)"

definition enqueue_geo ::
    "moment \<Rightarrow> string \<Rightarrow> u16 \<Rightarrow> route \<Rightarrow> governance_phase \<Rightarrow> answer_geo_evidence \<Rightarrow> resource_record list
     \<Rightarrow> pipeline \<Rightarrow> pipeline" where
  "enqueue_geo t domain_str ident r ph ev answers p =
     (let ip_addrs = List.map_filter (\<lambda>rr. rdata_ip_string (rr_rdata rr)) answers
      in if cn_count ev + foreign_count ev > 0 \<and> ip_addrs \<noteq> [] then
           p\<lparr>pl_observation_tx := channel_send
               \<lparr>ot_job_id = job_id ''geo'' domain_str ident, ot_domain = domain_str,
                ot_task_kind = GeoAnalysis ip_addrs [], ot_current_phase = ph,
                ot_current_route = prior_route_str r, ot_enqueued_at = at_enqueued t\<rparr>
               (pl_observation_tx p)\<rparr>
         else p)"

definition enqueue_failure ::
    "moment \<Rightarrow> string \<Rightarrow> u16 \<Rightarrow> route \<Rightarrow> governance_phase \<Rightarrow> pipeline \<Rightarrow> pipeline" where
  "enqueue_failure t domain_str ident r ph p =
     p\<lparr>pl_observation_tx := channel_send
         \<lparr>ot_job_id = job_id ''fail'' domain_str ident, ot_domain = domain_str,
          ot_task_kind = GeoAnalysis [] [], ot_current_phase = ph,
          ot_current_route = prior_route_str r, ot_enqueued_at = at_enqueued t\<rparr>
         (pl_observation_tx p)\<rparr>"

text \<open>Stage 7. The minimum of the answers' TTLs, or the enhanced TTL in China for China.\<close>

definition effective_ttl :: "runtime_config \<Rightarrow> route \<Rightarrow> dns_message \<Rightarrow> u32" where
  "effective_ttl config r m =
     (if r = Route_China \<and> location (cfg_resolver config) = Loc_China
      then enhanced_ttl_secs (cfg_cache config) else extract_min_ttl m)"

definition store_answer ::
    "env \<Rightarrow> moment \<Rightarrow> route \<Rightarrow> qtype \<Rightarrow> domain_name \<Rightarrow> dns_message \<Rightarrow> pipeline \<Rightarrow> pipeline option" where
  "store_answer e t r qt domain m p =
     (if h_rcode (m_header m) = Rc_NoError \<and> m_answers m \<noteq> [] then
        map_option (\<lambda>c. p\<lparr>pl_cache := c\<rparr>)
          (insert_scoped_with_ttl (env_hasher e) (at_stored t) r qt domain m
             (effective_ttl (pl_config p) r m) (pl_cache p))
      else Some p)"

text \<open>The two arms behind the upstream race.\<close>

definition on_answer ::
    "env \<Rightarrow> moment \<Rightarrow> dns_message \<Rightarrow> qtype \<Rightarrow> domain_name \<Rightarrow> route \<Rightarrow> domain_governance_state
     \<Rightarrow> upstream_response \<Rightarrow> pipeline \<Rightarrow> dns_message option \<times> pipeline" where
  "on_answer e t query qt domain r s upstream_resp p =
     (let m = ur_message upstream_resp;
          domain_str = name_to_string domain;
          ev = analyze_answer_geo geo_lookup (m_answers m)
      in case govern t domain_str r s ev p of (transition, p1) \<Rightarrow>
           let p2 = enqueue_geo t domain_str (h_id (m_header query)) r (new_phase transition) ev (m_answers m) p1
           in case store_answer e t r qt domain m p2 of
                None \<Rightarrow> (None, p2)
              | Some p3 \<Rightarrow> (Some m, p3))"

definition on_failure ::
    "moment \<Rightarrow> dns_message \<Rightarrow> domain_name \<Rightarrow> route \<Rightarrow> domain_governance_state \<Rightarrow> pipeline
     \<Rightarrow> dns_message option \<times> pipeline" where
  "on_failure t query domain r s p =
     (Some (error_response query Rc_ServFail),
      enqueue_failure t (name_to_string domain) (h_id (m_header query)) r (phase s) p)"

text \<open>Stages 2 to 7, for names neither in the hosts table nor blocked.\<close>

definition resolve_routed ::
    "env \<Rightarrow> moment \<Rightarrow> dns_message \<Rightarrow> qtype \<Rightarrow> domain_name \<Rightarrow> pipeline \<Rightarrow> dns_message option \<times> pipeline" where
  "resolve_routed e t query qt domain p =
     (let domain_str = name_to_string domain;
          r = execution_route (decide p domain_str)
      in case get_or_create (at_created t) domain_str (prior_route_str r) (pl_store p) of (s, store) \<Rightarrow>
         case get_scoped (env_hasher e) (at_lookup t) r qt domain (pl_cache p) of (hit, cache) \<Rightarrow>
         let p1 = p\<lparr>pl_store := store, pl_cache := cache\<rparr>
         in case hit of
              Some cached \<Rightarrow>
                let m = cr_message cached
                in (Some (m\<lparr>m_header := (m_header m)\<lparr>h_id := h_id (m_header query)\<rparr>\<rparr>), p1)
            | None \<Rightarrow>
                (case forward (env_completions e) query (for_route (cfg_upstreams (pl_config p)) r)
                        (sc_default_timeout_ms (cfg_server (pl_config p))) of
                   Inr upstream_resp \<Rightarrow> on_answer e t query qt domain r s upstream_resp p1
                 | Inl err \<Rightarrow> on_failure t query domain r s p1))"

definition resolve :: "env \<Rightarrow> moment \<Rightarrow> u8 list \<Rightarrow> pipeline \<Rightarrow> dns_message option \<times> pipeline" where
  "resolve e t query_bytes p =
     (case from_wire query_bytes of
        Inl _ \<Rightarrow> (Some malformed_response, p)
      | Inr query \<Rightarrow>
          (case first_question query of
             None \<Rightarrow> (Some (error_response query Rc_FormErr), p)
           | Some q \<Rightarrow>
               let qt = q_type q; domain = q_name q; domain_str = name_to_string domain;
                   host_ips = (if hc_enabled (cfg_hosts (pl_config p))
                               then match_domain (pl_hosts p) domain_str qt else [])
               in if host_ips \<noteq> [] then
                    (Some (hosts_response (hc_ttl_secs (cfg_hosts (pl_config p))) query qt domain host_ips), p)
                  else if bc_enabled (cfg_block (pl_config p)) \<and> is_blocked (pl_block p) domain_str then
                    (Some (build_block_response (cfg_block (pl_config p)) query qt domain), p)
                  else resolve_routed e t query qt domain p))"

section \<open>Who answers\<close>

text \<open>A well-formed query with its first question, and the stages that may answer it locally.\<close>

definition asks :: "u8 list \<Rightarrow> dns_message \<Rightarrow> dns_question \<Rightarrow> bool" where
  "asks bytes query q \<longleftrightarrow> from_wire bytes = Inr query \<and> first_question query = Some q"

definition host_ips :: "pipeline \<Rightarrow> dns_question \<Rightarrow> ip_addr list" where
  "host_ips p q =
     (if hc_enabled (cfg_hosts (pl_config p)) then match_domain (pl_hosts p) (name_to_string (q_name q)) (q_type q)
      else [])"

definition blocked :: "pipeline \<Rightarrow> dns_question \<Rightarrow> bool" where
  "blocked p q \<longleftrightarrow> bc_enabled (cfg_block (pl_config p)) \<and> is_blocked (pl_block p) (name_to_string (q_name q))"

definition route_of :: "pipeline \<Rightarrow> dns_question \<Rightarrow> route" where
  "route_of p q = execution_route (decide p (name_to_string (q_name q)))"

definition cache_hit :: "env \<Rightarrow> moment \<Rightarrow> pipeline \<Rightarrow> dns_question \<Rightarrow> cached_response option" where
  "cache_hit e t p q = fst (get_scoped (env_hasher e) (at_lookup t) (route_of p q) (q_type q) (q_name q) (pl_cache p))"

lemma resolve_asks:
  "asks bytes query q \<Longrightarrow> resolve e t bytes p =
     (if host_ips p q \<noteq> [] then
        (Some (hosts_response (hc_ttl_secs (cfg_hosts (pl_config p))) query (q_type q) (q_name q) (host_ips p q)), p)
      else if blocked p q then
        (Some (build_block_response (cfg_block (pl_config p)) query (q_type q) (q_name q)), p)
      else resolve_routed e t query (q_type q) (q_name q) p)"
  by (simp add: asks_def resolve_def host_ips_def blocked_def Let_def)

section \<open>A sample pipeline\<close>

definition sample_question :: dns_question where
  "sample_question = question_new sample_name (QT_Type RT_A) (QC_Class RC_In)"

lemma sample_asks: "asks (to_wire sample_query) sample_query sample_question"
proof -
  have "from_wire (to_wire sample_query) = Inr sample_query"
    using from_wire_message_wire [OF sample_query_ok, of _ "[]"] by (simp add: to_wire_eq [OF sample_query_ok])
  moreover have "first_question sample_query = Some sample_question" by code_simp
  ultimately show ?thesis by (simp add: asks_def)
qed

definition sample_pipeline :: "runtime_config \<Rightarrow> pipeline" where
  "sample_pipeline config =
     with_governance_channels sample_fs (\<lambda>_. Inl ''missing'') config (cache_new (cfg_cache config)) knowledge_new
       store_new governance_thresholds_default \<lparr>ch_open = True, ch_sent = []\<rparr> \<lparr>ch_open = True, ch_sent = []\<rparr>"

definition plain_config :: runtime_config where
  "plain_config = minimal_config ''223.5.5.5:53''"

definition hosts_sample_config :: runtime_config where
  "hosts_sample_config = plain_config\<lparr>cfg_hosts :=
     \<lparr>hc_enabled = True, hc_entries = [(''www.a'', [''192.0.2.7'', ''192.0.2.8''])], hc_files = [], hc_ttl_secs = 60\<rparr>\<rparr>"

definition block_sample_config :: runtime_config where
  "block_sample_config = plain_config\<lparr>cfg_block :=
     block_config_default\<lparr>bc_enabled := True, bc_suffixes := [''a''], bc_blackhole_ipv4 := ''0.0.0.0'',
       bc_blackhole_ipv6 := ''::''\<rparr>\<rparr>"

definition sample_moment :: moment where
  "sample_moment = \<lparr>at_created = 0, at_lookup = 0, at_decided = 0, at_emitted = 0, at_enqueued = 0, at_stored = 0\<rparr>"

lemma sample_pipeline_fields [simp]:
  "pl_config (sample_pipeline c) = c"
  "pl_cache (sample_pipeline c) = cache_new (cfg_cache c)"
  "pl_store (sample_pipeline c) = store_new"
  "pl_thresholds (sample_pipeline c) = governance_thresholds_default"
  "pl_hosts (sample_pipeline c) = build_hosts_from_config sample_fs (cfg_hosts c)"
  "pl_block (sample_pipeline c) = build_block_matcher_from_config (\<lambda>_. Inl ''missing'') (cfg_block c)"
  by (simp_all add: sample_pipeline_def with_governance_channels_def)

text \<open>Every server of a race answers with the sample answer.\<close>

definition sample_env :: env where
  "sample_env =
     \<lparr>env_hasher = sample_hasher,
      env_completions = (\<lambda>wire tasks. map (\<lambda>(s, d). Inr (Inr
        \<lparr>ur_message = sample_answer, ur_server_name = us_name s, ur_server_addr = Sock_V4 [223, 5, 5, 5] 53,
         ur_rtt = 0\<rparr>)) tasks)\<rparr>"

section \<open>Local answers\<close>

lemma fold_add_answer:
  "fold (\<lambda>ip. add_answer (f ip)) ips m =
     m\<lparr>m_answers := m_answers m @ map f ips,
       m_header := (m_header m)\<lparr>h_ancount :=
         (if ips = [] then h_ancount (m_header m) else of_nat (length (m_answers m) + length ips))\<rparr>\<rparr>"
proof (induction ips rule: rev_induct)
  case (snoc ip ips)
  then show ?case by (simp add: add_answer_def Let_def)
qed simp

lemma match_domain_type:
  "ip \<in> set (match_domain h d qt) \<Longrightarrow>
     qt = QT_Type RT_A \<and> is_ipv4 ip \<or> qt = QT_Type RT_AAAA \<and> is_ipv6 ip"
  by (auto simp: match_domain_def Let_def split: if_splits)

text \<open>C6: a name in the hosts table is answered from it and from nothing else: the answer section
  lists exactly the table's addresses in table order, each under the queried name with the queried
  type and the configured TTL, the response repeats the query's id and questions with
  \<^verbatim>\<open>NOERROR\<close>, and neither cache, governance store nor the workers' channels change.\<close>

theorem hosts_answer_exact:
  assumes "asks bytes query q" "host_ips p q \<noteq> []"
  shows "\<exists>m. resolve e t bytes p = (Some m, p) \<and>
    map (\<lambda>rr. rr_ip (rr_rdata rr)) (m_answers m) = map Some (host_ips p q) \<and>
    (\<forall>rr \<in> set (m_answers m). rr_name rr = q_name q \<and> QT_Type (rr_type rr) = q_type q \<and>
       rr_ttl rr = hc_ttl_secs (cfg_hosts (pl_config p)) \<and> rr_class rr = RC_In \<and>
       (is_ipv4 (the (rr_ip (rr_rdata rr))) \<longleftrightarrow> rr_type rr = RT_A)) \<and>
    h_id (m_header m) = h_id (m_header query) \<and> m_questions m = m_questions query \<and>
    h_rcode (m_header m) = Rc_NoError \<and> h_qr (m_header m)"
proof -
  let ?ttl = "hc_ttl_secs (cfg_hosts (pl_config p))"
  let ?m = "hosts_response ?ttl query (q_type q) (q_name q) (host_ips p q)"
  have ty: "q_type q = QT_Type RT_A \<and> is_ipv4 ip \<or> q_type q = QT_Type RT_AAAA \<and> is_ipv6 ip"
    if "ip \<in> set (host_ips p q)" for ip
    using that match_domain_type [of ip] by (auto simp: host_ips_def split: if_splits)
  have answers: "m_answers ?m = map (host_record (q_name q) (q_type q) ?ttl) (host_ips p q)"
    by (simp add: hosts_response_def fold_add_answer message_response_def)
  have "rr_name (host_record (q_name q) (q_type q) ?ttl ip) = q_name q \<and>
      QT_Type (rr_type (host_record (q_name q) (q_type q) ?ttl ip)) = q_type q \<and>
      rr_ttl (host_record (q_name q) (q_type q) ?ttl ip) = ?ttl \<and>
      rr_class (host_record (q_name q) (q_type q) ?ttl ip) = RC_In \<and>
      rr_ip (rr_rdata (host_record (q_name q) (q_type q) ?ttl ip)) = Some ip \<and>
      (is_ipv4 ip \<longleftrightarrow> rr_type (host_record (q_name q) (q_type q) ?ttl ip) = RT_A)"
    if "ip \<in> set (host_ips p q)" for ip
    using ty [OF that] by (cases ip) (auto simp: host_record_def)
  moreover have "h_id (m_header ?m) = h_id (m_header query) \<and> m_questions ?m = m_questions query \<and>
      h_rcode (m_header ?m) = Rc_NoError \<and> h_qr (m_header ?m)"
    by (simp add: hosts_response_def fold_add_answer message_response_def header_response_def)
  ultimately show ?thesis
    using assms by (intro exI [of _ ?m]) (simp add: resolve_asks answers)
qed

theorem hosts_answer_exact_witness:
  "\<exists>m. resolve sample_env sample_moment (to_wire sample_query) (sample_pipeline hosts_sample_config) =
      (Some m, sample_pipeline hosts_sample_config) \<and>
    map (\<lambda>rr. rr_ip (rr_rdata rr)) (m_answers m) = [Some (V4 [192, 0, 2, 7]), Some (V4 [192, 0, 2, 8])]"
proof -
  have "(if hc_enabled (cfg_hosts hosts_sample_config)
      then match_domain (build_hosts_from_config sample_fs (cfg_hosts hosts_sample_config))
        (name_to_string (q_name sample_question)) (q_type sample_question) else []) =
      [V4 [192, 0, 2, 7], V4 [192, 0, 2, 8]]"
    by code_simp
  then have h: "host_ips (sample_pipeline hosts_sample_config) sample_question = [V4 [192, 0, 2, 7], V4 [192, 0, 2, 8]]"
    by (simp only: host_ips_def sample_pipeline_fields)
  then have "host_ips (sample_pipeline hosts_sample_config) sample_question \<noteq> []" by simp
  from hosts_answer_exact [OF sample_asks this, of sample_env sample_moment] show ?thesis
    by (auto simp: h)
qed

lemma suppress_response_fields:
  "m_answers (build_soa_suppress_response m d) = [] \<and>
   m_authorities (build_soa_suppress_response m d) = [soa_record_for d] \<and>
   m_questions (build_soa_suppress_response m d) = m_questions m \<and>
   h_id (m_header (build_soa_suppress_response m d)) = h_id (m_header m) \<and>
   h_rcode (m_header (build_soa_suppress_response m d)) = Rc_NoError \<and>
   h_qr (m_header (build_soa_suppress_response m d))"
  by (simp add: build_soa_suppress_response_def add_authority_def message_response_def header_response_def Let_def)

text \<open>C5: with a validated configuration a blocked name that is not in the hosts table gets, whatever
  its type, a \<^verbatim>\<open>NOERROR\<close> response with the query's id and questions: for A and AAAA one record with
  the configured blackhole address and a TTL of 60 seconds, for every other type and for the
  suppressed types no answer but the SOA record of the queried name. No state changes.\<close>

theorem blocked_answer_exact:
  assumes "asks bytes query q" "host_ips p q = []" "blocked p q" "config_validate (pl_config p) = Inr ()"
  shows "\<exists>m v4 v6. resolve e t bytes p = (Some m, p) \<and>
    parse_ipv4 (bc_blackhole_ipv4 (cfg_block (pl_config p))) = Some v4 \<and>
    parse_ipv6 (bc_blackhole_ipv6 (cfg_block (pl_config p))) = Some v6 \<and>
    h_id (m_header m) = h_id (m_header query) \<and> m_questions m = m_questions query \<and>
    h_rcode (m_header m) = Rc_NoError \<and> h_qr (m_header m) \<and>
    (if q_type q = QT_Type RT_A \<and> \<not> qtype_suppressed (cfg_block (pl_config p)) (q_type q)
     then m_answers m = [address_record (q_name q) RT_A (RD_A v4)] \<and> m_authorities m = []
     else if q_type q = QT_Type RT_AAAA \<and> \<not> qtype_suppressed (cfg_block (pl_config p)) (q_type q)
     then m_answers m = [address_record (q_name q) RT_AAAA (RD_AAAA v6)] \<and> m_authorities m = []
     else m_answers m = [] \<and> m_authorities m = [soa_record_for (q_name q)])"
proof -
  let ?b = "cfg_block (pl_config p)"
  have "validate_block ?b = Inr ()"
    using assms(4) by (auto simp: config_validate_def result_simps split: if_splits)
  then obtain v4 v6 where v: "parse_ipv4 (bc_blackhole_ipv4 ?b) = Some v4" "parse_ipv6 (bc_blackhole_ipv6 ?b) = Some v6"
    using assms(3) by (auto simp: validate_block_ok blocked_def)
  show ?thesis
    using assms(1-3) v suppress_response_fields [of "message_response query" "q_name q"]
    by (intro exI [of _ "build_block_response ?b query (q_type q) (q_name q)"] exI [of _ v4] exI [of _ v6])
      (auto simp: resolve_asks build_block_response_def Let_def add_answer_def message_response_def header_response_def)
qed

theorem blocked_answer_exact_witness:
  "\<exists>m. resolve sample_env sample_moment (to_wire sample_query) (sample_pipeline block_sample_config) =
      (Some m, sample_pipeline block_sample_config) \<and>
    m_answers m = [address_record sample_name RT_A (RD_A [0, 0, 0, 0])]"
proof -
  let ?p = "sample_pipeline block_sample_config"
  have h: "host_ips ?p sample_question = []"
    by (simp add: host_ips_def block_sample_config_def plain_config_def minimal_config_def hosts_config_default_def)
  have "bc_enabled (cfg_block block_sample_config) \<and>
      is_blocked (build_block_matcher_from_config (\<lambda>_. Inl ''missing'' :: string + string option list) (cfg_block block_sample_config))
        (name_to_string (q_name sample_question))" by code_simp
  then have b: "blocked ?p sample_question" by (simp only: blocked_def sample_pipeline_fields)
  have "config_validate block_sample_config = Inr ()" by code_simp
  then have c: "config_validate (pl_config ?p) = Inr ()" by (simp only: sample_pipeline_fields)
  have ty: "q_type sample_question = QT_Type RT_A" "q_name sample_question = sample_name"
    by (simp_all add: sample_question_def question_new_def)
  have sup: "\<not> qtype_suppressed (cfg_block block_sample_config) (QT_Type RT_A)" by code_simp
  have v4: "parse_ipv4 (bc_blackhole_ipv4 (cfg_block block_sample_config)) = Some [0, 0, 0, 0]" by code_simp
  from blocked_answer_exact [OF sample_asks h b c, of sample_env sample_moment] show ?thesis
    by (auto simp: ty sup v4)
qed

section \<open>Routed queries\<close>

definition routed :: "pipeline \<Rightarrow> dns_question \<Rightarrow> bool" where
  "routed p q \<longleftrightarrow> host_ips p q = [] \<and> \<not> blocked p q"

definition gov_entry :: "moment \<Rightarrow> pipeline \<Rightarrow> dns_question \<Rightarrow> domain_governance_state \<times> governance_store" where
  "gov_entry t p q =
     get_or_create (at_created t) (name_to_string (q_name q)) (prior_route_str (route_of p q)) (pl_store p)"

text \<open>The pipeline after the governance lookup and the cache lookup.\<close>

definition looked_up :: "env \<Rightarrow> moment \<Rightarrow> pipeline \<Rightarrow> dns_question \<Rightarrow> pipeline" where
  "looked_up e t p q =
     p\<lparr>pl_store := snd (gov_entry t p q),
       pl_cache := snd (get_scoped (env_hasher e) (at_lookup t) (route_of p q) (q_type q) (q_name q) (pl_cache p))\<rparr>"

definition race :: "env \<Rightarrow> pipeline \<Rightarrow> dns_message \<Rightarrow> dns_question \<Rightarrow> upstream_error + upstream_response" where
  "race e p query q =
     forward (env_completions e) query (for_route (cfg_upstreams (pl_config p)) (route_of p q))
       (sc_default_timeout_ms (cfg_server (pl_config p)))"

lemma resolve_routed_query:
  "asks bytes query q \<Longrightarrow> routed p q \<Longrightarrow> resolve e t bytes p =
     (case cache_hit e t p q of
        Some cached \<Rightarrow>
          (Some ((cr_message cached)\<lparr>m_header := (m_header (cr_message cached))\<lparr>h_id := h_id (m_header query)\<rparr>\<rparr>),
           looked_up e t p q)
      | None \<Rightarrow>
          (case race e p query q of
             Inr r \<Rightarrow> on_answer e t query (q_type q) (q_name q) (route_of p q) (fst (gov_entry t p q)) r
                        (looked_up e t p q)
           | Inl err \<Rightarrow> on_failure t query (q_name q) (route_of p q) (fst (gov_entry t p q)) (looked_up e t p q)))"
  unfolding cache_hit_def race_def looked_up_def gov_entry_def route_of_def
  by (simp add: resolve_asks routed_def) (simp only: resolve_routed_def Let_def case_prod_beta)

subsection \<open>Frames\<close>

lemma govern_frame:
  "govern t d r s ev p = (tr, p') \<Longrightarrow>
     pl_config p' = pl_config p \<and> pl_cache p' = pl_cache p \<and> pl_thresholds p' = pl_thresholds p \<and>
     pl_hosts p' = pl_hosts p \<and> pl_block p' = pl_block p \<and> pl_knowledge p' = pl_knowledge p \<and>
     pl_policy p' = pl_policy p \<and> pl_observation_tx p' = pl_observation_tx p"
  by (auto simp: govern_def Let_def split: if_splits)

lemma enqueue_geo_frame [simp]:
  "pl_config (enqueue_geo t d i r ph ev as p) = pl_config p"
  "pl_cache (enqueue_geo t d i r ph ev as p) = pl_cache p"
  "pl_thresholds (enqueue_geo t d i r ph ev as p) = pl_thresholds p"
  "pl_hosts (enqueue_geo t d i r ph ev as p) = pl_hosts p"
  "pl_block (enqueue_geo t d i r ph ev as p) = pl_block p"
  "pl_knowledge (enqueue_geo t d i r ph ev as p) = pl_knowledge p"
  "pl_policy (enqueue_geo t d i r ph ev as p) = pl_policy p"
  "pl_store (enqueue_geo t d i r ph ev as p) = pl_store p"
  by (simp_all add: enqueue_geo_def Let_def)

text \<open>Everything behind a race that was answered: the pipeline handed to the cache.\<close>

definition observed ::
    "moment \<Rightarrow> dns_message \<Rightarrow> domain_name \<Rightarrow> route \<Rightarrow> domain_governance_state \<Rightarrow> dns_message \<Rightarrow> pipeline \<Rightarrow> pipeline" where
  "observed t query domain r s m p =
     (let ev = analyze_answer_geo geo_lookup (m_answers m); g = govern t (name_to_string domain) r s ev p
      in enqueue_geo t (name_to_string domain) (h_id (m_header query)) r (new_phase (fst g)) ev (m_answers m) (snd g))"

lemma on_answer_observed:
  "on_answer e t query qt domain r s u p =
     (case store_answer e t r qt domain (ur_message u) (observed t query domain r s (ur_message u) p) of
        None \<Rightarrow> (None, observed t query domain r s (ur_message u) p)
      | Some p' \<Rightarrow> (Some (ur_message u), p'))"
  by (simp only: on_answer_def observed_def Let_def case_prod_beta)

lemma observed_frame [simp]:
  "pl_config (observed t query d r s m p) = pl_config p"
  "pl_cache (observed t query d r s m p) = pl_cache p"
  "pl_thresholds (observed t query d r s m p) = pl_thresholds p"
  "pl_hosts (observed t query d r s m p) = pl_hosts p"
  "pl_block (observed t query d r s m p) = pl_block p"
  "pl_knowledge (observed t query d r s m p) = pl_knowledge p"
  "pl_policy (observed t query d r s m p) = pl_policy p"
  using govern_frame [OF prod.collapse [symmetric], of t "name_to_string d" r s "analyze_answer_geo geo_lookup (m_answers m)" p]
  by (simp_all add: observed_def Let_def)

lemma store_answer_frame:
  "store_answer e t r qt d m p = Some p' \<Longrightarrow> \<exists>c. p' = p\<lparr>pl_cache := c\<rparr>"
  by (auto simp: store_answer_def split: if_splits intro: exI [of _ "pl_cache p"])

lemma store_answer_config:
  "store_answer e t r qt d m p = Some p' \<Longrightarrow> rc_config (pl_cache p') = rc_config (pl_cache p)"
  by (auto simp: store_answer_def insert_scoped_with_ttl_def evict_oldest_def Let_def
      split: if_splits option.splits)

lemma store_answer_total:
  "min_ttl_secs (rc_config (pl_cache p)) \<le> max_ttl_secs (rc_config (pl_cache p)) \<Longrightarrow>
   \<exists>p'. store_answer e t r qt d m p = Some p'"
  using clamp_ttl_Some [of "rc_config (pl_cache p)" "effective_ttl (pl_config p) r m"]
  by (auto simp: store_answer_def insert_scoped_with_ttl_def Let_def)

lemma get_scoped_config [simp]: "rc_config (snd (get_scoped h now r qt n c)) = rc_config c"
  by (auto simp: get_scoped_def Let_def split: option.splits)

lemma looked_up_frame [simp]:
  "pl_config (looked_up e t p q) = pl_config p" "pl_thresholds (looked_up e t p q) = pl_thresholds p"
  "pl_hosts (looked_up e t p q) = pl_hosts p" "pl_block (looked_up e t p q) = pl_block p"
  "pl_knowledge (looked_up e t p q) = pl_knowledge p" "pl_policy (looked_up e t p q) = pl_policy p"
  "pl_store (looked_up e t p q) = snd (gov_entry t p q)"
  "rc_config (pl_cache (looked_up e t p q)) = rc_config (pl_cache p)"
  by (simp_all add: looked_up_def)

lemma on_failure_frame:
  "on_failure t query d r s p = (m, p') \<Longrightarrow> m = Some (error_response query Rc_ServFail) \<and>
     (\<exists>tx. p' = p\<lparr>pl_observation_tx := tx\<rparr>)"
  by (auto simp: on_failure_def enqueue_failure_def)

section \<open>Answering a miss\<close>

lemma resolve_config:
  "pl_config (snd (resolve e t bytes p)) = pl_config p \<and> pl_thresholds (snd (resolve e t bytes p)) = pl_thresholds p \<and>
   pl_hosts (snd (resolve e t bytes p)) = pl_hosts p \<and> pl_block (snd (resolve e t bytes p)) = pl_block p \<and>
   pl_knowledge (snd (resolve e t bytes p)) = pl_knowledge p \<and> pl_policy (snd (resolve e t bytes p)) = pl_policy p \<and>
   rc_config (pl_cache (snd (resolve e t bytes p))) = rc_config (pl_cache p)"
proof (cases "\<exists>query q. asks bytes query q \<and> routed p q")
  case True
  then obtain query q where a: "asks bytes query q" "routed p q" by blast
  show ?thesis
  proof (cases "cache_hit e t p q")
    case None
    show ?thesis
    proof (cases "race e p query q")
      case (Inl err)
      with a None show ?thesis
        using on_failure_frame [OF prod.collapse [symmetric], of t query "q_name q" "route_of p q"
            "fst (gov_entry t p q)" "looked_up e t p q"]
        by (auto simp: resolve_routed_query)
    next
      case (Inr u)
      let ?o = "observed t query (q_name q) (route_of p q) (fst (gov_entry t p q)) (ur_message u) (looked_up e t p q)"
      show ?thesis
      proof (cases "store_answer e t (route_of p q) (q_type q) (q_name q) (ur_message u) ?o")
        case (Some p')
        with store_answer_frame [OF Some] store_answer_config [OF Some] a \<open>cache_hit e t p q = None\<close> Inr
        show ?thesis by (auto simp: resolve_routed_query on_answer_observed)
      qed (use a None Inr in \<open>simp add: resolve_routed_query on_answer_observed\<close>)
    qed
  qed (use a in \<open>simp add: resolve_routed_query\<close>)
next
  case False
  then show ?thesis
    by (cases "from_wire bytes"; cases "first_question (projr (from_wire bytes))")
      (auto simp: resolve_def asks_def routed_def host_ips_def blocked_def Let_def)
qed




lemma sample_routed: "routed (sample_pipeline plain_config) q"
  by (simp add: routed_def host_ips_def blocked_def plain_config_def minimal_config_def hosts_config_default_def
      block_config_default_def)

lemma sample_miss: "cache_hit e t (sample_pipeline plain_config) q = None"
  by (simp add: cache_hit_def get_scoped_def Let_def cache_new_def dm.get_new)

lemma plain_config_servers:
  "for_route (cfg_upstreams plain_config) r = ug_bootstrap (cfg_upstreams plain_config)"
  by (simp add: plain_config_def minimal_config_def for_route_def split: route.splits)

lemma plain_config_ttl:
  "rc_config (cache_new (cfg_cache plain_config)) = cache_config_default"
  by (simp add: cache_new_def plain_config_def minimal_config_def)


section \<open>The cache across queries\<close>

lemma get_scoped_wf: "cache_wf c \<Longrightarrow> cache_wf (snd (get_scoped h now r qt n c))"
  by (auto simp: get_scoped_def Let_def cache_wf_def dm.wf_rem split: option.splits)

lemma insert_then_get:
  assumes "insert_scoped_with_ttl h t0 r qt n m ttl c = Some c'" "cache_wf c"
    "clamp_ttl (rc_config c) ttl = Some d" "(now - t0) div NANOS_PER_SEC < unat d"
  shows "fst (get_scoped h now r qt n c') = Some (cached_response_new (set_answer_ttls d m))"
  using insert_entries [OF assms(1,2)]
proof cases
  case (1 d' c1)
  have "dm_wf (rc_entries c1)" using 1(2) by (simp add: cache_wf_def)
  then have "dm_get (rc_entries c') (cache_key_new h r qt n) =
      Some \<lparr>ce_response = cached_response_new (set_answer_ttls d m), ce_inserted_at = t0, ce_ttl_secs = d\<rparr>"
    using 1(1,5) assms(3) by (simp add: dm.get_ins)
  then show ?thesis using assms(4) by (simp add: get_scoped_def is_expired_def Let_def)
qed

text \<open>The clamped TTL under which the answer of a race is kept.\<close>

definition kept_for :: "pipeline \<Rightarrow> dns_question \<Rightarrow> dns_message \<Rightarrow> u32 option" where
  "kept_for p q m = clamp_ttl (rc_config (pl_cache p)) (effective_ttl (pl_config p) (route_of p q) m)"



section \<open>Governance over time\<close>

text \<open>The system: queries and maintenance ticks in any order.\<close>

inductive served :: "pipeline \<Rightarrow> pipeline \<Rightarrow> bool" for p0 where
  start: "served p0 p0"
| query: "served p0 p \<Longrightarrow> served p0 (snd (resolve e t bytes p))"
| tick: "served p0 p \<Longrightarrow> served p0 (p\<lparr>pl_store := fst (maintenance_tick now (pl_store p))\<rparr>)"

text \<open>A domain whose counters were never raised.\<close>

definition quiet :: "domain_governance_state \<Rightarrow> bool" where
  "quiet s \<longleftrightarrow>
     phase s \<in> {Phase_New, Phase_Learning, Phase_Suggested} \<and>
     mixed_count_24h s = 0 \<and> soft_conflict_count_24h s = 0 \<and> hard_conflict_count_24h s = 0 \<and>
     tls_mismatch_count_24h s = 0 \<and> route_opposite_count_24h s = 0 \<and> consecutive_failure_count s = 0 \<and>
     local_alignment_count s = 0"

definition all_quiet :: "governance_store \<Rightarrow> bool" where
  "all_quiet store \<longleftrightarrow> dm_wf store \<and> (\<forall>d s. store_get store d = Some s \<longrightarrow> quiet s)"

lemma quiet_new: "quiet (governance_state_new d r now)"
  by (simp add: quiet_def governance_state_new_def)

lemma quiet_maintained: "quiet s \<Longrightarrow> quiet (maintained now s)"
  by (auto simp: quiet_def maintained_def Let_def decay_fields decay_24h_counters_def)

lemma quiet_governed:
  assumes "quiet s" "th = governance_thresholds_default\<lparr>th_third_party_mode := mode\<rparr>"
  shows "quiet (governed_state (evaluate_governance_transition now (transition_input th s ev score)) score s)"
proof -
  let ?i = "transition_input th s ev score"
  have "\<not> review_triggered s th"
    using assms by (simp add: review_triggered_def quiet_def thresholds_default_defs word_le_nat_alt)
  moreover have "\<not> stable_ready s th"
    using assms by (cases mode) (simp_all add: stable_ready_def quiet_def thresholds_default_defs word_le_nat_alt Let_def)
  moreover have "new_phase (evaluate_governance_transition now ?i) = next_phase now ?i (phase s)"
    using transition_next_phase [of ?i now] by (simp add: transition_input_def first_seen_def)
  moreover have "in_state ?i = s" "in_thresholds ?i = th" by (simp_all add: transition_input_def)
  ultimately have "new_phase (evaluate_governance_transition now ?i) \<in> {Phase_New, Phase_Learning, Phase_Suggested}"
    using assms(1) by (auto simp: quiet_def Let_def)
  with assms(1) show ?thesis by (simp add: quiet_def governed_state_def)
qed

lemma all_quiet_insert: "all_quiet store \<Longrightarrow> quiet s \<Longrightarrow> all_quiet (dm_insert d s store)"
  by (auto simp: all_quiet_def store_get_def dm.wf_ins dm.get_ins)

lemma all_quiet_gov_entry:
  assumes "all_quiet (pl_store p)"
  shows "all_quiet (snd (gov_entry t p q))" "quiet (fst (gov_entry t p q))"
  using assms all_quiet_insert [OF assms quiet_new]
  by (auto simp: gov_entry_def get_or_create_def Let_def all_quiet_def store_get_def quiet_new split: option.splits)

lemma all_quiet_observed:
  assumes "all_quiet (pl_store p)" "quiet s"
    "pl_thresholds p = governance_thresholds_default\<lparr>th_third_party_mode := mode\<rparr>"
  shows "all_quiet (pl_store (observed t query d r s m p))"
  using all_quiet_insert [OF assms(1) quiet_governed [OF assms(2,3)]] assms(1)
  by (auto simp: observed_def govern_def force_update_def Let_def)

lemma all_quiet_resolve:
  assumes "all_quiet (pl_store p)"
    "pl_thresholds p = governance_thresholds_default\<lparr>th_third_party_mode := mode\<rparr>"
  shows "all_quiet (pl_store (snd (resolve e t bytes p)))"
proof (cases "\<exists>query q. asks bytes query q \<and> routed p q")
  case True
  then obtain query q where a: "asks bytes query q" "routed p q" by blast
  have o: "all_quiet (pl_store (observed t query (q_name q) (route_of p q) (fst (gov_entry t p q)) m (looked_up e t p q)))" for m
    using assms all_quiet_gov_entry [OF assms(1)] by (intro all_quiet_observed) auto
  show ?thesis
    using a assms all_quiet_gov_entry [OF assms(1), of t q] o store_answer_frame
    by (fastforce simp: resolve_routed_query on_answer_observed on_failure_def enqueue_failure_def
        split: option.splits sum.splits)
next
  case False
  then show ?thesis
    using assms by (cases "from_wire bytes"; cases "first_question (projr (from_wire bytes))")
      (auto simp: resolve_def asks_def routed_def host_ips_def blocked_def Let_def)
qed



end
