(* ===== verification/Cli.thy ===== *)
theory Cli
  imports Runtime Pipeline
begin

text \<open>
  The command line tools, \<^verbatim>\<open>border-dns-cli/src/main.rs\<close> and \<^verbatim>\<open>border_dns.rs\<close>. Argument parsing is clap's; the
  model starts with the parsed command and ends with the lines the process prints, or with its error.
  Reading and parsing the configuration file are the arguments \<open>read_file\<close> and \<open>toml\<close>, as in the theory
  \<open>Config\<close>; the rendering of a JSON value is the argument \<open>pretty\<close>. Printed text is UTF-8.
\<close>

section \<open>Formatting\<close>

definition show_bool :: "bool \<Rightarrow> string" where
  "show_bool b = (if b then ''true'' else ''false'')"

text \<open>The format \<^verbatim>\<open>{:.4}\<close>: the exact value rounded to four places, ties to even.\<close>

definition show_fixed4 :: "f32 \<Rightarrow> string" where
  "show_fixed4 x =
     (let n = round_half_even (\<bar>x\<bar> * 10000)
      in (if x < 0 then ''-'' else []) @ show_nat (nat (n div 10000)) @ ''.'' @
         map (\<lambda>d. digit_char (nat (n div d mod 10))) [1000, 100, 10, 1])"

text \<open>The format \<^verbatim>\<open>{:<24}\<close>.\<close>

definition pad24 :: "string \<Rightarrow> string" where
  "pad24 s = s @ replicate (24 - length s) CHR '' ''"

text \<open>The characters of the frames and bullets in UTF-8.\<close>

definition DOUBLE_LINE :: string where "DOUBLE_LINE = [CHR 0xE2, CHR 0x95, CHR 0x90]"

definition LINE :: string where "LINE = [CHR 0xE2, CHR 0x94, CHR 0x80]"

definition banner :: "string \<Rightarrow> string list" where
  "banner title =
     [[CHR 0xE2, CHR 0x95, CHR 0x94] @ concat (replicate 54 DOUBLE_LINE) @ [CHR 0xE2, CHR 0x95, CHR 0x97],
      [CHR 0xE2, CHR 0x95, CHR 0x91] @ title @ [CHR 0xE2, CHR 0x95, CHR 0x91],
      [CHR 0xE2, CHR 0x95, CHR 0x9A] @ concat (replicate 54 DOUBLE_LINE) @ [CHR 0xE2, CHR 0x95, CHR 0x9D],
      []]"

definition heading :: "string \<Rightarrow> nat \<Rightarrow> string" where
  "heading title n = ''  '' @ LINE @ LINE @ '' '' @ title @ '' '' @ concat (replicate n LINE)"

datatype json =
  J_Str string
| J_Bool bool
| J_Int nat
| J_Float f32
| J_Array "json list"
| J_Object "(string \<times> json) list"

section \<open>Reports\<close>

datatype cli_error = Cli_Config config_error | Cli_Json string | Cli_Runtime string

text \<open>What a command prints: the JSON value on request, the text otherwise.\<close>

definition print_report :: "(json \<Rightarrow> string + string) \<Rightarrow> bool \<Rightarrow> json \<Rightarrow> string list \<Rightarrow> cli_error + string list" where
  "print_report pretty as_json j text_lines =
     (if as_json then rbind (map_err Cli_Json (pretty j)) (\<lambda>s. Inr [s]) else Inr text_lines)"

fun domain_prior_debug :: "domain_prior \<Rightarrow> string" where
  "domain_prior_debug Prior_China = ''China''"
| "domain_prior_debug Prior_Foreign = ''Foreign''"
| "domain_prior_debug Prior_GlobalCdn = ''GlobalCdn''"
| "domain_prior_debug Prior_Unknown = ''Unknown''"

fun cli_prior_route :: "route \<Rightarrow> string" where
  "cli_prior_route Route_China = ''china''"
| "cli_prior_route Route_Foreign = ''foreign''"
| "cli_prior_route Route_Bootstrap = ''bootstrap''"
| "cli_prior_route Route_Fallback = ''unknown''"

definition domain_json ::
    "string \<Rightarrow> resolver_location \<Rightarrow> domain_prior \<Rightarrow> route_decision \<Rightarrow> route_evidence_score \<Rightarrow> json" where
  "domain_json domain loc prior decision score =
     J_Object
       [(''domain'', J_Str domain),
        (''resolver_location'', J_Str (resolver_location_as_str loc)),
        (''domain_prior'', J_Str (domain_prior_debug prior)),
        (''execution_route'', J_Str (route_as_str (execution_route decision))),
        (''route_source'', J_Str (route_source_as_str (route_source decision))),
        (''confidence'', J_Str (confidence_as_str (rd_confidence decision))),
        (''china_score'', J_Float (sc_china_score score)),
        (''foreign_score'', J_Float (sc_foreign_score score)),
        (''score_margin'', J_Float (sc_score_margin score)),
        (''domain_intent'', J_Str (domain_intent_as_str (sc_domain_intent score))),
        (''evidence_strength'', J_Str (evidence_strength_as_str (sc_evidence_strength score))),
        (''can_promote'', J_Bool (sc_can_promote score)),
        (''decision_phase'', J_Str (phase_as_str (sc_decision_phase score))),
        (''decision_timing'', J_Str (decision_timing_as_str (sc_decision_timing score))),
        (''reason_code'', J_Str (sc_reason_code score)),
        (''component_scores'', J_Object (map (\<lambda>(k, v). (k, J_Float v)) (sc_component_scores score))),
        (''notes'', J_Array (map J_Str (sc_notes score)))]"

definition domain_text ::
    "string \<Rightarrow> resolver_location \<Rightarrow> domain_prior \<Rightarrow> route_decision \<Rightarrow> route_evidence_score \<Rightarrow> string list" where
  "domain_text domain loc prior decision score =
     banner ''           BorderDNS Route Decision                  '' @
     [''  domain            : '' @ domain,
      ''  resolver_location : '' @ resolver_location_as_str loc,
      ''  domain_prior      : '' @ domain_prior_debug prior,
      [],
      heading ''Route Decision'' 34,
      ''  execution_route   : '' @ route_as_str (execution_route decision),
      ''  route_source      : '' @ route_source_as_str (route_source decision),
      ''  confidence        : '' @ confidence_as_str (rd_confidence decision),
      [],
      heading ''Evidence Score'' 34,
      ''  china_score       : '' @ show_fixed4 (sc_china_score score),
      ''  foreign_score     : '' @ show_fixed4 (sc_foreign_score score),
      ''  score_margin      : '' @ show_fixed4 (sc_score_margin score),
      ''  domain_intent     : '' @ domain_intent_as_str (sc_domain_intent score),
      ''  evidence_strength : '' @ evidence_strength_as_str (sc_evidence_strength score),
      ''  can_promote       : '' @ show_bool (sc_can_promote score),
      ''  decision_phase    : '' @ phase_as_str (sc_decision_phase score),
      ''  decision_timing   : '' @ decision_timing_as_str (sc_decision_timing score),
      ''  reason_code       : '' @ sc_reason_code score] @
     (if sc_component_scores score = [] then []
      else [[], heading ''Component Scores'' 32] @
        map (\<lambda>(k, v). ''  '' @ pad24 k @ '' : '' @ show_fixed4 v) (sc_component_scores score)) @
     (if sc_notes score = [] then []
      else [[], heading ''Notes'' 43] @ map (\<lambda>note. ''  '' @ [CHR 0xE2, CHR 0x80, CHR 0xA2] @ '' '' @ note) (sc_notes score))"

definition governance_json :: "string \<Rightarrow> domain_governance_state \<Rightarrow> json" where
  "governance_json domain s =
     J_Object
       [(''domain'', J_Str domain),
        (''phase'', J_Str (phase_as_str (phase s))),
        (''current_route'', J_Str (current_route s)),
        (''prior_route'', J_Str (prior_route s)),
        (''observation_count'', J_Int (unat (observation_count s))),
        (''can_promote'', J_Bool (gs_can_promote s)),
        (''promotion_frozen'', J_Bool (promotion_frozen s)),
        (''third_party_mode'', J_Bool (tp_enabled (third_party_summary s)))]"

definition governance_text :: "string \<Rightarrow> domain_governance_state \<Rightarrow> string list" where
  "governance_text domain s =
     banner ''         BorderDNS Governance State                  '' @
     [''  domain               : '' @ domain,
      ''  phase                : '' @ phase_as_str (phase s),
      ''  current_route        : '' @ current_route s,
      ''  prior_route          : '' @ prior_route s,
      ''  observation_count    : '' @ show_nat (unat (observation_count s)),
      ''  can_promote          : '' @ show_bool (gs_can_promote s),
      ''  promotion_frozen     : '' @ show_bool (promotion_frozen s),
      [],
      heading ''Third-Party'' 37,
      ''  enabled              : '' @ show_bool (tp_enabled (third_party_summary s)),
      ''  distinct_observers   : '' @ show_nat (unat (tp_distinct_observers (third_party_summary s))),
      [],
      heading ''Conflict Counters (24h)'' 25,
      ''  mixed_count          : '' @ show_nat (unat (mixed_count_24h s)),
      ''  soft_conflict_count  : '' @ show_nat (unat (soft_conflict_count_24h s)),
      ''  hard_conflict_count  : '' @ show_nat (unat (hard_conflict_count_24h s)),
      ''  tls_mismatch_count   : '' @ show_nat (unat (tls_mismatch_count_24h s)),
      ''  route_opposite_count : '' @ show_nat (unat (route_opposite_count_24h s)),
      [],
      heading ''Streaks'' 41,
      ''  no_conflict_streak   : '' @ show_nat (unat (consecutive_no_conflict_count s)),
      ''  failure_streak       : '' @ show_nat (unat (consecutive_failure_count s)),
      [],
      ''  Note: This is a fresh state (no runtime history).'',
      ''  Run the server to accumulate real governance data.'']"

section \<open>Commands\<close>

definition cmd_inspect_domain ::
    "(string \<Rightarrow> string + string) \<Rightarrow> (string \<Rightarrow> string + runtime_config) \<Rightarrow> (json \<Rightarrow> string + string)
     \<Rightarrow> string \<Rightarrow> string \<Rightarrow> bool \<Rightarrow> cli_error + string list" where
  "cmd_inspect_domain read_file toml pretty domain config_path as_json =
     rbind (map_err Cli_Config (load_from_file read_file toml config_path)) (\<lambda>config.
       let knowledge = knowledge_new;
           loc = location (cfg_resolver config);
           decision = decide_by_domain_prior (policy_new loc) (classify_domain knowledge) domain;
           prior = classify_domain knowledge domain;
           score_input = evidence_input_default\<lparr>ei_prior_route := cli_prior_route (execution_route decision),
             runtime_confidence := 0\<rparr>;
           score = score_route_evidence score_input
       in print_report pretty as_json (domain_json domain loc prior decision score)
            (domain_text domain loc prior decision score))"

definition cmd_inspect_governance ::
    "(string \<Rightarrow> string + string) \<Rightarrow> (string \<Rightarrow> string + runtime_config) \<Rightarrow> (json \<Rightarrow> string + string) \<Rightarrow> datetime
     \<Rightarrow> string \<Rightarrow> string \<Rightarrow> bool \<Rightarrow> cli_error + string list" where
  "cmd_inspect_governance read_file toml pretty now domain config_path as_json =
     rbind (map_err Cli_Config (load_from_file read_file toml config_path)) (\<lambda>config.
       let knowledge = knowledge_new;
           route_policy = policy_new (location (cfg_resolver config));
           decision = decide_by_domain_prior route_policy (classify_domain knowledge) domain;
           gov_state = governance_state_new domain (cli_prior_route (execution_route decision)) now
       in print_report pretty as_json (governance_json domain gov_state) (governance_text domain gov_state))"

definition cmd_inspect_review_candidates ::
    "(string \<Rightarrow> string + string) \<Rightarrow> (string \<Rightarrow> string + runtime_config) \<Rightarrow> (json \<Rightarrow> string + string)
     \<Rightarrow> string \<Rightarrow> bool \<Rightarrow> cli_error + string list" where
  "cmd_inspect_review_candidates read_file toml pretty config_path as_json =
     rbind (map_err Cli_Config (load_from_file read_file toml config_path)) (\<lambda>_.
       print_report pretty as_json
         (J_Object [(''review_candidates'', J_Array []),
            (''note'', J_Str ''No runtime data. Start the server to populate governance state.'')])
         (banner ''       BorderDNS Review Candidates                   '' @
          [''  No review candidates (no runtime data available).'',
           [],
           ''  This command queries the governance state of the running'',
           ''  server. Start `border-dns run` and accumulate domain'',
           ''  observations before review candidates will appear.'']))"

definition cache_text :: "cache_stats \<Rightarrow> string list" where
  "cache_text stats =
     [''Cache statistics:'',
      ''  entries: '' @ show_nat (cs_entries stats),
      ''  hits:    '' @ show_nat (unat (cs_hits stats)),
      ''  misses:  '' @ show_nat (unat (cs_misses stats)),
      ''  evictions: '' @ show_nat (unat (cs_evictions stats)),
      [],
      ''(Note: cache is empty on fresh start. Run the server to populate.)'']"

datatype command =
  Cmd_Run string bool
| Cmd_ValidateConfig string
| Cmd_InspectCache string
| Cmd_InspectDomain string string bool
| Cmd_InspectGovernance string string bool
| Cmd_InspectReviewCandidates string bool

text \<open>How the process ends: after its output, with a line on the error stream and exit code 1, or with an
  error returned from \<^verbatim>\<open>main\<close>. The output of \<^verbatim>\<open>run\<close> is its log; \<open>Ran\<close> holds what was started.\<close>

datatype process_exit =
  Printed "string list"
| Complained string
| Failed cli_error
| Ran runtime

definition exit_of :: "cli_error + string list \<Rightarrow> process_exit" where
  "exit_of r = (case r of Inl e \<Rightarrow> Failed e | Inr ls \<Rightarrow> Printed ls)"

definition run_command ::
    "(string \<Rightarrow> string + string) \<Rightarrow> (string \<Rightarrow> string + runtime_config) \<Rightarrow> (runtime_config \<Rightarrow> string + runtime)
     \<Rightarrow> string \<Rightarrow> process_exit" where
  "run_command read_file toml run config_path =
     (case load_from_file read_file toml config_path of
        Inl e \<Rightarrow> Failed (Cli_Config e)
      | Inr config \<Rightarrow> (case run config of Inl e \<Rightarrow> Failed (Cli_Runtime e) | Inr rt \<Rightarrow> Ran rt))"

definition cli_main ::
    "(string \<Rightarrow> string + string) \<Rightarrow> (string \<Rightarrow> string + runtime_config) \<Rightarrow> (runtime_config \<Rightarrow> string + runtime)
     \<Rightarrow> (json \<Rightarrow> string + string) \<Rightarrow> datetime \<Rightarrow> command \<Rightarrow> process_exit" where
  "cli_main read_file toml run pretty now command =
     (case command of
        Cmd_Run config verbose \<Rightarrow> run_command read_file toml run config
      | Cmd_ValidateConfig config \<Rightarrow>
          (case load_from_file read_file toml config of
             Inr _ \<Rightarrow> Printed [[CHR 0xE2, CHR 0x9C, CHR 0x93] @ '' Configuration is valid: '' @ config]
           | Inl e \<Rightarrow> Complained ([CHR 0xE2, CHR 0x9C, CHR 0x97] @ '' Configuration error: '' @ config_error_to_string e))
      | Cmd_InspectCache config \<Rightarrow>
          exit_of (rbind (map_err Cli_Config (load_from_file read_file toml config)) (\<lambda>c.
            Inr (cache_text (cache_stats_of (cache_new (cfg_cache c))))))
      | Cmd_InspectDomain domain config as_json \<Rightarrow>
          exit_of (cmd_inspect_domain read_file toml pretty domain config as_json)
      | Cmd_InspectGovernance domain config as_json \<Rightarrow>
          exit_of (cmd_inspect_governance read_file toml pretty now domain config as_json)
      | Cmd_InspectReviewCandidates config as_json \<Rightarrow>
          exit_of (cmd_inspect_review_candidates read_file toml pretty config as_json))"

section \<open>The plain entry point\<close>

text \<open>The configuration path of \<^verbatim>\<open>border_dns.rs\<close>: a positional argument, then \<^verbatim>\<open>-c\<close> or \<^verbatim>\<open>--config\<close>, then the default
  beside the executable if it exists, then the default. The directory of the executable and the file
  test are arguments.\<close>

fun config_flag :: "string list \<Rightarrow> string option" where
  "config_flag (a # b # args) = (if a = ''-c'' \<or> a = ''--config'' then Some b else config_flag (b # args))"
| "config_flag _ = None"

definition resolve_config :: "string list \<Rightarrow> string option \<Rightarrow> (string \<Rightarrow> bool) \<Rightarrow> string \<Rightarrow> string" where
  "resolve_config args exe_dir file_exists dflt =
     (if length args \<ge> 2 \<and> \<not> prefix ''-'' (args ! 1) then args ! 1
      else case config_flag args of
        Some path \<Rightarrow> path
      | None \<Rightarrow>
          (case exe_dir of
             Some dir \<Rightarrow> if file_exists (path_join dir dflt) then path_join dir dflt else dflt
           | None \<Rightarrow> dflt))"

definition verbose_flag :: "string option \<Rightarrow> bool" where
  "verbose_flag var = (case var of Some v \<Rightarrow> v = ''1'' \<or> eq_ignore_ascii_case v ''true'' | None \<Rightarrow> False)"

definition border_dns_main ::
    "(string \<Rightarrow> string + string) \<Rightarrow> (string \<Rightarrow> string + runtime_config) \<Rightarrow> (bool \<Rightarrow> runtime_config \<Rightarrow> string + runtime)
     \<Rightarrow> string list \<Rightarrow> string option \<Rightarrow> (string \<Rightarrow> bool) \<Rightarrow> string option \<Rightarrow> process_exit" where
  "border_dns_main read_file toml run args exe_dir file_exists verbose_var =
     (let config_path = resolve_config args exe_dir file_exists ''border-dns.toml'';
          verbose = verbose_flag verbose_var
      in run_command read_file toml (run verbose) config_path)"

section \<open>Lemmas\<close>

lemma cli_prior_route_eq: "cli_prior_route = prior_route_str"
  by (rule ext) (metis (full_types) cli_prior_route.simps prior_route_str.simps route.exhaust)

lemma decide_snoc_dot:
  "decide_by_domain_prior policy (classify_domain knowledge_new) (d @ ''.'') =
   decide_by_domain_prior policy (classify_domain knowledge_new) d"
  by (simp add: decide_by_domain_prior_def classify_domain_lists norm_labels_snoc_dot)

lemma decide_new:
  "decide (pipeline_new fs open_lines config cache knowledge_new) (d @ ''.'') =
   decide_by_domain_prior (policy_new (location (cfg_resolver config))) (classify_domain knowledge_new) d"
  by (simp add: decide_def pipeline_new_def with_governance_channels_def decide_snoc_dot)

lemma print_report_simps [simp]:
  "print_report pretty False j ls = Inr ls"
  "print_report pretty True j ls = (case pretty j of Inl e \<Rightarrow> Inl (Cli_Json e) | Inr out \<Rightarrow> Inr [out])"
  by (simp_all add: print_report_def map_err_def rbind_def split: sum.split)

lemma domain_text_route: "''  execution_route   : '' @ route_as_str (execution_route d) \<in> set (domain_text domain loc prior d score)"
  by (simp add: domain_text_def)

lemma domain_json_route:
  obtains fields where "domain_json domain loc prior d score = J_Object fields"
    "map_of fields ''execution_route'' = Some (J_Str (route_as_str (execution_route d)))"
  by (rule that, simp only: domain_json_def) simp

lemma governance_text_route:
  "''  current_route        : '' @ current_route s \<in> set (governance_text domain s)"
  "''  phase                : '' @ phase_as_str (phase s) \<in> set (governance_text domain s)"
  by (simp_all add: governance_text_def)

lemma governance_json_route:
  obtains fields where "governance_json domain s = J_Object fields"
    "map_of fields ''current_route'' = Some (J_Str (current_route s))"
    "map_of fields ''phase'' = Some (J_Str (phase_as_str (phase s)))"
  by (rule that, simp only: governance_json_def) simp_all

section \<open>Properties\<close>

text \<open>C19: what the inspection commands print is what the pipeline would do: for a configuration file that
  loads, the text names as execution route the route the pipeline built from that configuration takes
  for the domain's fully qualified name, and as current route and phase those of the governance state
  the pipeline creates when it first sees the domain; the JSON form has the same values under the same
  names. A file that does not load gives its error and no report.\<close>

theorem inspect_agrees_with_pipeline:
  "case load_from_file read_file toml path of
     Inl e \<Rightarrow> cmd_inspect_domain read_file toml pretty domain path as_json = Inl (Cli_Config e) \<and>
       cmd_inspect_governance read_file toml pretty now domain path as_json = Inl (Cli_Config e)
   | Inr config \<Rightarrow>
       let route = execution_route (decide (pipeline_new fs open_lines config cache knowledge_new) (domain @ ''.''));
           s = fst (get_or_create now domain (prior_route_str route) store_new)
       in (\<exists>ls fields. cmd_inspect_domain read_file toml pretty domain path False = Inr ls \<and>
            ''  execution_route   : '' @ route_as_str route \<in> set ls \<and>
            cmd_inspect_domain read_file toml pretty domain path True =
              (case pretty (J_Object fields) of Inl e \<Rightarrow> Inl (Cli_Json e) | Inr out \<Rightarrow> Inr [out]) \<and>
            map_of fields ''execution_route'' = Some (J_Str (route_as_str route))) \<and>
          (\<exists>ls fields. cmd_inspect_governance read_file toml pretty now domain path False = Inr ls \<and>
            ''  current_route        : '' @ current_route s \<in> set ls \<and>
            ''  phase                : '' @ phase_as_str (phase s) \<in> set ls \<and>
            cmd_inspect_governance read_file toml pretty now domain path True =
              (case pretty (J_Object fields) of Inl e \<Rightarrow> Inl (Cli_Json e) | Inr out \<Rightarrow> Inr [out]) \<and>
            map_of fields ''current_route'' = Some (J_Str (current_route s)) \<and>
            map_of fields ''phase'' = Some (J_Str (phase_as_str (phase s))))"
proof (cases "load_from_file read_file toml path")
  case (Inl e)
  then show ?thesis by (simp add: cmd_inspect_domain_def cmd_inspect_governance_def map_err_def)
next
  case (Inr config)
  define d where "d = decide_by_domain_prior (policy_new (location (cfg_resolver config))) (classify_domain knowledge_new) domain"
  define g where "g = governance_state_new domain (prior_route_str (execution_route d)) now"
  let ?loc = "location (cfg_resolver config)" and ?prior = "classify_domain knowledge_new domain"
  define score where "score = score_route_evidence (evidence_input_default\<lparr>ei_prior_route := prior_route_str (execution_route d),
    runtime_confidence := 0\<rparr>)"
  have fresh: "fst (get_or_create now domain r store_new) = governance_state_new domain r now" for r
    by (simp add: get_or_create_def store_new_def dm.get_new Let_def)
  have cmds: "cmd_inspect_domain read_file toml pretty domain path j =
      print_report pretty j (domain_json domain ?loc ?prior d score) (domain_text domain ?loc ?prior d score)"
    "cmd_inspect_governance read_file toml pretty now domain path j =
      print_report pretty j (governance_json domain g) (governance_text domain g)" for j
    by (simp_all add: Inr cmd_inspect_domain_def cmd_inspect_governance_def map_err_def cli_prior_route_eq Let_def
        d_def g_def score_def)
  obtain df where df: "domain_json domain ?loc ?prior d score = J_Object df"
    "map_of df ''execution_route'' = Some (J_Str (route_as_str (execution_route d)))" by (rule domain_json_route)
  obtain gf where gf: "governance_json domain g = J_Object gf" "map_of gf ''current_route'' = Some (J_Str (current_route g))"
    "map_of gf ''phase'' = Some (J_Str (phase_as_str (phase g)))" by (rule governance_json_route)
  show ?thesis
    unfolding Inr sum.case Let_def decide_new fresh d_def [symmetric] g_def [symmetric] cmds print_report_simps df(1) gf(1)
    using df(2) gf(2,3) domain_text_route governance_text_route
    by (intro conjI exI [of _ "domain_text domain ?loc ?prior d score"] exI [of _ df] exI [of _ "governance_text domain g"]
        exI [of _ gf] refl) assumption+
qed

text \<open>\<^verbatim>\<open>validate-config\<close> reports success exactly for the files with which \<^verbatim>\<open>run\<close> gets past loading, and otherwise ends
  with exit code 1 and the error \<^verbatim>\<open>run\<close> would end with.\<close>

theorem validate_command_exact:
  "case cli_main read_file toml run pretty now (Cmd_ValidateConfig path) of
     Printed ls \<Rightarrow> \<exists>config. load_from_file read_file toml path = Inr config \<and>
       cli_main read_file toml run pretty now (Cmd_Run path verbose) =
         (case run config of Inl e \<Rightarrow> Failed (Cli_Runtime e) | Inr rt \<Rightarrow> Ran rt)
   | Complained line \<Rightarrow> \<exists>e. cli_main read_file toml run pretty now (Cmd_Run path verbose) = Failed (Cli_Config e) \<and>
       suffix (config_error_to_string e) line
   | _ \<Rightarrow> False"
  by (simp add: cli_main_def run_command_def suffix_def split: sum.split)

text \<open>A path on the command line wins over the default beside the executable, with or without the flag.\<close>

theorem resolve_config_order:
  assumes "\<not> prefix ''-'' path" "exe \<notin> {''-c'', ''--config''}" "flag \<in> {''-c'', ''--config''}"
  shows "resolve_config (exe # path # args) dir ex dflt = path \<and>
    resolve_config (exe # flag # path # args) dir ex dflt = path"
  using assms by (auto simp: resolve_config_def)

text \<open>The number format on scores: signs, carries and ties.\<close>

theorem show_fixed4_examples:
  "show_fixed4 (1 / 3) = ''0.3333'' \<and> show_fixed4 (- 5 / 4) = ''-1.2500'' \<and> show_fixed4 (199999 / 100000) = ''2.0000'' \<and>
   show_fixed4 (5 / 100000) = ''0.0000''"
  by code_simp

end
