(* ===== verification/Probes.thy ===== *)
theory Probes
  imports Geo_Ip Facts_Schema "HOL-Library.Multiset"
begin

text \<open>
  The probes, \<^verbatim>\<open>border-dns-probes/src/lib.rs\<close>: latency classes, the ranking of candidate addresses
  by connect time, the location filter in front of it, and the certificate identity check.

  The network is an argument: \<open>connect ip port\<close> says how a connection attempt ends and after how
  many nanoseconds. \<^verbatim>\<open>slice::sort_by\<close> is a stable sort; the model sorts by insertion with the
  source's own comparison, and the lemmas identify the result with the library's stable sort.
\<close>

section \<open>Results\<close>

record tls_probe_result =
  tpr_sni_domain :: string
  tpr_target_ip :: ip_addr
  tpr_identity_status :: tls_identity_status
  tpr_cert_sans :: "string list"
  tpr_cert_cn :: "string option"
  tpr_connect_ms :: "u64 option"
  tpr_error :: "string option"

record latency_probe_result =
  lpr_target_ip :: ip_addr
  lpr_connect_ms :: "u64 option"
  lpr_quality :: probe_quality
  lpr_error :: "string option"

record ranked_ip =
  ri_addr :: ip_addr
  ri_latency_ms :: "u64 option"
  ri_quality :: probe_quality

section \<open>Latency\<close>

definition classify_latency :: "u64 \<Rightarrow> probe_quality" where
  "classify_latency connect_ms =
     (if connect_ms < 50 then Probe_Good
      else if connect_ms < 200 then Probe_Acceptable
      else if connect_ms < 1000 then Probe_Poor
      else Probe_Unstable)"

text \<open>How a connection attempt ends: accepted or refused after some nanoseconds, or never.\<close>

datatype connect_attempt = Accepted nat | Refused nat string | Silent

definition tcp_connect_time :: "connect_attempt \<Rightarrow> nat \<Rightarrow> string + nat" where
  "tcp_connect_time attempt timeout =
     (case attempt of
        Accepted t \<Rightarrow> if t \<le> timeout then Inr t else Inl ''tcp_connect_timeout''
      | Refused t e \<Rightarrow> if t \<le> timeout then Inl (''tcp_connect_error: '' @ e) else Inl ''tcp_connect_timeout''
      | Silent \<Rightarrow> Inl ''tcp_connect_timeout'')"

text \<open>\<^verbatim>\<open>Duration::as_millis() as u64\<close>.\<close>

definition as_millis_u64 :: "nat \<Rightarrow> u64" where
  "as_millis_u64 nanos = of_nat (nanos div 1000000)"

section \<open>Ranking\<close>

datatype ordering = Less | Equal | Greater

definition u64_cmp :: "u64 \<Rightarrow> u64 \<Rightarrow> ordering" where
  "u64_cmp x y = (if x < y then Less else if x = y then Equal else Greater)"

fun compare_latency :: "u64 option \<Rightarrow> u64 option \<Rightarrow> ordering" where
  "compare_latency (Some x) (Some y) = u64_cmp x y"
| "compare_latency (Some _) None = Less"
| "compare_latency None (Some _) = Greater"
| "compare_latency None None = Equal"

fun insert_by :: "('a \<Rightarrow> 'a \<Rightarrow> ordering) \<Rightarrow> 'a \<Rightarrow> 'a list \<Rightarrow> 'a list" where
  "insert_by cmp x [] = [x]"
| "insert_by cmp x (y # ys) = (if cmp x y = Greater then y # insert_by cmp x ys else x # y # ys)"

definition sort_by :: "('a \<Rightarrow> 'a \<Rightarrow> ordering) \<Rightarrow> 'a list \<Rightarrow> 'a list" where
  "sort_by cmp xs = foldr (insert_by cmp) xs []"

definition probe_candidate ::
    "(ip_addr \<Rightarrow> u16 \<Rightarrow> connect_attempt) \<Rightarrow> u16 \<Rightarrow> nat \<Rightarrow> ip_addr \<Rightarrow> ranked_ip" where
  "probe_candidate connect port timeout ip =
     (let result = tcp_connect_time (connect ip port) timeout in
      \<lparr>ri_addr = ip,
       ri_latency_ms = (case result of Inr d \<Rightarrow> Some (as_millis_u64 d) | Inl _ \<Rightarrow> None),
       ri_quality = (case result of Inr d \<Rightarrow> classify_latency (as_millis_u64 d) | Inl _ \<Rightarrow> Probe_Unstable)\<rparr>)"

definition rank_by_latency ::
    "(ip_addr \<Rightarrow> u16 \<Rightarrow> connect_attempt) \<Rightarrow> ip_addr list \<Rightarrow> u16 \<Rightarrow> nat \<Rightarrow> ranked_ip list" where
  "rank_by_latency connect candidates port timeout =
     (if candidates = [] then []
      else sort_by (\<lambda>a b. compare_latency (ri_latency_ms a) (ri_latency_ms b))
             (map (probe_candidate connect port timeout) candidates))"

section \<open>Location filter\<close>

definition want_scope :: "resolver_location \<Rightarrow> ip_geo_scope option" where
  "want_scope location =
     (case location of Loc_China \<Rightarrow> Some Geo_Cn | Loc_Foreign \<Rightarrow> Some Geo_Foreign | Loc_Unknown \<Rightarrow> None)"

definition filter_ips_by_location ::
    "ip_addr list \<Rightarrow> resolver_location \<Rightarrow> (ip_addr \<Rightarrow> geo_ip_result) \<Rightarrow> ip_addr list" where
  "filter_ips_by_location candidates location geo =
     (if candidates = [] then []
      else
        let filtered = filter (\<lambda>ip.
              (case geo_scope (geo ip) of
                 Geo_Private \<Rightarrow> False
               | Geo_Reserved \<Rightarrow> False
               | scope \<Rightarrow> (case want_scope location of Some want \<Rightarrow> scope = want | None \<Rightarrow> True))) candidates
        in if filtered = [] then candidates else filtered)"

definition rank_by_location ::
    "(ip_addr \<Rightarrow> u16 \<Rightarrow> connect_attempt) \<Rightarrow> ip_addr list \<Rightarrow> u16 \<Rightarrow> nat \<Rightarrow> resolver_location
     \<Rightarrow> (ip_addr \<Rightarrow> geo_ip_result) \<Rightarrow> ranked_ip list" where
  "rank_by_location connect candidates port timeout location geo =
     rank_by_latency connect (filter_ips_by_location candidates location geo) port timeout"

section \<open>Certificate identity\<close>

text \<open>The wildcard block the source repeats for names and for alias targets: the pattern starts with
  \<^verbatim>\<open>*.\<close>, the name ends with the rest of it, and what is in front has no dot.\<close>

definition wildcard_match :: "string \<Rightarrow> string \<Rightarrow> bool" where
  "wildcard_match pattern name =
     (if prefix ''*.'' pattern then
        let sfx = drop 1 pattern in
        if suffix sfx name then
          let pre = take (length name - length sfx) name in CHR ''.'' \<notin> set pre
        else False
      else False)"

fun cname_matches :: "string list \<Rightarrow> string option \<Rightarrow> string list \<Rightarrow> bool" where
  "cname_matches cert_sans cert_cn [] = False"
| "cname_matches cert_sans cert_cn (cname # rest) =
     (let cname_lower = trim_end_matches CHR ''.'' (to_lowercase cname) in
      if list_ex (\<lambda>san. to_lowercase san = cname_lower \<or> wildcard_match (to_lowercase san) cname_lower) cert_sans
      then True
      else case cert_cn of
        Some cn \<Rightarrow> if to_lowercase cn = cname_lower then True else cname_matches cert_sans cert_cn rest
      | None \<Rightarrow> cname_matches cert_sans cert_cn rest)"

definition check_identity_match ::
    "string \<Rightarrow> string list \<Rightarrow> string option \<Rightarrow> string list \<Rightarrow> tls_identity_status" where
  "check_identity_match sni_domain cert_sans cert_cn cname_targets =
     (let sni_lower = to_lowercase sni_domain in
      if list_ex (\<lambda>san. to_lowercase san = sni_lower \<or> wildcard_match (to_lowercase san) sni_lower) cert_sans
      then Tls_ExactMatch
      else if (case cert_cn of
                 Some cn \<Rightarrow> to_lowercase cn = sni_lower \<or> wildcard_match (to_lowercase cn) sni_lower
               | None \<Rightarrow> False)
      then Tls_ExactMatch
      else if cname_matches cert_sans cert_cn cname_targets then Tls_CnameMatch
      else if cert_sans \<noteq> [] \<or> cert_cn \<noteq> None then Tls_Mismatch
      else Tls_Unknown)"

section \<open>The sort is the library's stable sort\<close>

text \<open>Milliseconds as a number, with failed probes above every 64-bit value.\<close>

definition latency_key :: "ranked_ip \<Rightarrow> nat" where
  "latency_key r = (case ri_latency_ms r of Some ms \<Rightarrow> unat ms | None \<Rightarrow> 2 ^ 64)"

lemma u64_unat_bound: "unat (w :: u64) < 2 ^ 64"
  using unsigned_less [of w, where ?'a = nat] by simp

lemma compare_latency_Greater:
  "compare_latency (ri_latency_ms a) (ri_latency_ms b) = Greater \<longleftrightarrow> latency_key b < latency_key a"
  using u64_unat_bound [of "the (ri_latency_ms a)"] u64_unat_bound [of "the (ri_latency_ms b)"]
  by (cases "ri_latency_ms a"; cases "ri_latency_ms b")
    (auto simp: latency_key_def u64_cmp_def word_less_nat_alt word_unat_eq_iff)

lemma insert_by_insort:
  assumes "\<And>a b. cmp a b = Greater \<longleftrightarrow> f b < (f a :: 'k :: linorder)"
  shows "insert_by cmp x ys = insort_key f x ys"
  by (induction ys) (auto simp: assms not_less)

lemma sort_by_sort_key:
  assumes "\<And>a b. cmp a b = Greater \<longleftrightarrow> f b < (f a :: 'k :: linorder)"
  shows "sort_by cmp xs = sort_key f xs"
  by (simp add: sort_by_def sort_key_def insert_by_insort [OF assms, abs_def])

lemma rank_by_latency_sort:
  "rank_by_latency connect ips port timeout = sort_key latency_key (map (probe_candidate connect port timeout) ips)"
  by (auto simp: rank_by_latency_def sort_by_sort_key [of _ latency_key, OF compare_latency_Greater])

lemma filter_location_eq:
  "filter_ips_by_location ips location geo =
     (let kept = filter (\<lambda>ip. geo_scope (geo ip) \<notin> {Geo_Private, Geo_Reserved} \<and>
                    (\<forall>want. want_scope location = Some want \<longrightarrow> geo_scope (geo ip) = want)) ips
      in if kept = [] then ips else kept)"
proof -
  have "(\<lambda>ip. case geo_scope (geo ip) of Geo_Private \<Rightarrow> False | Geo_Reserved \<Rightarrow> False
        | scope \<Rightarrow> (case want_scope location of Some want \<Rightarrow> scope = want | None \<Rightarrow> True)) =
      (\<lambda>ip. geo_scope (geo ip) \<notin> {Geo_Private, Geo_Reserved} \<and>
        (\<forall>want. want_scope location = Some want \<longrightarrow> geo_scope (geo ip) = want))"
    by (auto simp: fun_eq_iff split: ip_geo_scope.splits option.splits)
  then show ?thesis by (auto simp: filter_ips_by_location_def Let_def)
qed

section \<open>Certificate names by labels\<close>

text \<open>What a certificate name covers: itself, and under \<^verbatim>\<open>*.\<close> every name that differs in the first
  label only.\<close>

definition covers :: "string \<Rightarrow> string \<Rightarrow> bool" where
  "covers pattern name \<longleftrightarrow>
     pattern = name \<or>
     (\<exists>l ls. ls \<noteq> [] \<and> split_on CHR ''.'' pattern = ''*'' # ls \<and> split_on CHR ''.'' name = l # ls)"

lemma split_on_Cons2D:
  assumes "split_on c xs = p # ls" "ls \<noteq> []"
  shows "\<exists>ys. xs = p @ c # ys \<and> split_on c ys = ls \<and> c \<notin> set p"
  using assms
proof (induction xs arbitrary: p)
  case (Cons x xs)
  show ?case
  proof (cases "x = c")
    case True
    with Cons.prems show ?thesis by auto
  next
    case False
    obtain q qs where q: "split_on c xs = q # qs" by (cases "split_on c xs") auto
    with Cons.prems False have p: "p = x # q" "qs = ls" by auto
    with Cons.IH [of q] q Cons.prems(2) obtain ys where "xs = q @ c # ys" "split_on c ys = ls" "c \<notin> set q"
      by auto
    with p False show ?thesis by auto
  qed
qed simp

lemma split_on_inj: "split_on c xs = split_on c ys \<Longrightarrow> xs = ys"
proof (induction xs arbitrary: ys)
  case Nil
  show ?case
  proof (cases ys)
    case (Cons y ys')
    with Nil show ?thesis by (cases "split_on c ys'") (auto split: if_splits)
  qed simp
next
  case (Cons x xs)
  obtain q qs where q: "split_on c xs = q # qs" by (cases "split_on c xs") auto
  from Cons.prems q obtain y ys' where y: "ys = y # ys'" by (cases ys) (auto split: if_splits)
  obtain r rs where r: "split_on c ys' = r # rs" by (cases "split_on c ys'") auto
  from Cons.prems q r y Cons.IH [of ys'] show ?case by (auto split: if_splits)
qed

lemma wildcard_match_labels:
  "wildcard_match pattern name \<longleftrightarrow>
     (\<exists>l ls. ls \<noteq> [] \<and> split_on CHR ''.'' pattern = ''*'' # ls \<and> split_on CHR ''.'' name = l # ls)"
proof
  assume m: "wildcard_match pattern name"
  then have "prefix ''*.'' pattern" by (simp add: wildcard_match_def split: if_splits)
  then obtain r where r: "pattern = ''*.'' @ r" by (auto simp: prefix_def)
  with m obtain p where p: "name = p @ CHR ''.'' # r" "CHR ''.'' \<notin> set p"
    by (auto simp: wildcard_match_def suffix_def Let_def split: if_splits)
  then have "split_on CHR ''.'' pattern = ''*'' # split_on CHR ''.'' r"
    "split_on CHR ''.'' name = p # split_on CHR ''.'' r"
    using split_on_append_sep [of "CHR ''.''" "''*''" r] split_on_append_sep [of "CHR ''.''" p r] r by simp_all
  then show "\<exists>l ls. ls \<noteq> [] \<and> split_on CHR ''.'' pattern = ''*'' # ls \<and> split_on CHR ''.'' name = l # ls"
    by (intro exI [of _ p] exI [of _ "split_on CHR ''.'' r"]) simp
next
  assume "\<exists>l ls. ls \<noteq> [] \<and> split_on CHR ''.'' pattern = ''*'' # ls \<and> split_on CHR ''.'' name = l # ls"
  then obtain l ls where "ls \<noteq> []" "split_on CHR ''.'' pattern = ''*'' # ls" "split_on CHR ''.'' name = l # ls"
    by blast
  from split_on_Cons2D [OF this(2,1)] split_on_Cons2D [OF this(3,1)] obtain r r' where
    "pattern = ''*'' @ CHR ''.'' # r" "split_on CHR ''.'' r = ls"
    "name = l @ CHR ''.'' # r'" "split_on CHR ''.'' r' = ls" "CHR ''.'' \<notin> set l"
    by auto
  moreover from this have "r = r'" using split_on_inj [of "CHR ''.''" r r'] by simp
  ultimately show "wildcard_match pattern name"
    by (simp add: wildcard_match_def Let_def suffix_def)
qed

lemma covers_iff: "pattern = name \<or> wildcard_match pattern name \<longleftrightarrow> covers pattern name"
  by (simp add: covers_def wildcard_match_labels)

lemma cname_matches_iff:
  "cname_matches sans cn cnames \<longleftrightarrow>
     (\<exists>c \<in> set cnames. let t = trim_end_matches CHR ''.'' (to_lowercase c) in
        (\<exists>san \<in> set sans. covers (to_lowercase san) t) \<or> map_option to_lowercase cn = Some t)"
  by (induction sans cn cnames rule: cname_matches.induct)
    (auto simp: Let_def list_ex_iff covers_iff split: option.splits)

section \<open>Properties\<close>

text \<open>C39: the ranking loses nothing and invents nothing: it is a permutation of the probed candidates,
  in ascending order of latency with every failed probe behind every successful one, candidates of
  equal latency stay in the order they were given, and each quality is the class of the latency
  measured.\<close>

theorem ranking_is_stable_sort:
  "mset (map ri_addr (rank_by_latency connect ips port timeout)) = mset ips \<and>
   sorted (map latency_key (rank_by_latency connect ips port timeout)) \<and>
   (\<forall>k. map ri_addr (filter (\<lambda>r. latency_key r = k) (rank_by_latency connect ips port timeout)) =
        filter (\<lambda>ip. latency_key (probe_candidate connect port timeout ip) = k) ips) \<and>
   list_all (\<lambda>r. ri_quality r = (case ri_latency_ms r of Some ms \<Rightarrow> classify_latency ms | None \<Rightarrow> Probe_Unstable))
     (rank_by_latency connect ips port timeout)"
proof -
  have addr: "ri_addr (probe_candidate connect port timeout ip) = ip" for ip
    by (simp add: probe_candidate_def Let_def)
  have "mset (map ri_addr (rank_by_latency connect ips port timeout)) = mset ips"
    by (simp add: rank_by_latency_sort mset_map image_mset.compositionality comp_def addr)
  moreover have "map ri_addr (filter (\<lambda>r. latency_key r = k) (rank_by_latency connect ips port timeout)) =
      filter (\<lambda>ip. latency_key (probe_candidate connect port timeout ip) = k) ips" for k
    by (simp add: rank_by_latency_sort sort_key_stable filter_map comp_def addr)
  moreover have "ri_quality (probe_candidate connect port timeout ip) =
      (case ri_latency_ms (probe_candidate connect port timeout ip) of
         Some ms \<Rightarrow> classify_latency ms | None \<Rightarrow> Probe_Unstable)" for ip
    by (simp add: probe_candidate_def Let_def split: sum.splits)
  ultimately show ?thesis
    by (simp add: rank_by_latency_sort list_all_iff)
qed

text \<open>The location filter keeps the order, never turns a non-empty candidate list into an empty one, and
  hands private or reserved addresses on only when it would otherwise keep nothing.\<close>

theorem filter_by_location_correct:
  "subseq (filter_ips_by_location ips location geo) ips \<and>
   (filter_ips_by_location ips location geo = [] \<longleftrightarrow> ips = []) \<and>
   (filter_ips_by_location ips location geo \<noteq> ips \<longrightarrow>
      (\<forall>ip \<in> set (filter_ips_by_location ips location geo).
         geo_scope (geo ip) \<notin> {Geo_Private, Geo_Reserved} \<and>
         (\<forall>want. want_scope location = Some want \<longrightarrow> geo_scope (geo ip) = want)))"
  by (auto simp: filter_location_eq Let_def)

text \<open>C40: the identity check decides by labels: an exact match is a certificate name that covers the server
  name, itself or as a wildcard for exactly one first label; an alias match needs an alternative name
  that covers an alias target or a common name equal to it; a certificate with names but no match is a
  mismatch, and one without names is unknown.\<close>

theorem identity_match_by_labels:
  "check_identity_match sni sans cn cnames =
     (let names = map to_lowercase (sans @ (case cn of Some c \<Rightarrow> [c] | None \<Rightarrow> []));
          alias = (\<lambda>t. (\<exists>san \<in> set sans. covers (to_lowercase san) t) \<or> map_option to_lowercase cn = Some t)
      in if \<exists>n \<in> set names. covers n (to_lowercase sni) then Tls_ExactMatch
         else if \<exists>c \<in> set cnames. alias (trim_end_matches CHR ''.'' (to_lowercase c)) then Tls_CnameMatch
         else if names = [] then Tls_Unknown else Tls_Mismatch)"
  by (auto simp: check_identity_match_def Let_def covers_iff cname_matches_iff list_ex_iff split: option.splits)

section \<open>Where code and documentation part\<close>

text \<open>The comments say that private and reserved addresses are always excluded; a candidate list that
  holds nothing else is probed as it is.\<close>

theorem private_candidates_are_probed:
  "map ri_addr (rank_by_location connect [V4 [10, 0, 0, 1]] 443 timeout Loc_China geo_lookup) = [V4 [10, 0, 0, 1]]"
  by (simp add: rank_by_location_def rank_by_latency_sort filter_ips_by_location_def Let_def lookup_v4_def
      is_reserved_v4_def is_private_v4_def probe_candidate_def)

end
