(* ===== verification/Replies.thy ===== *)
theory Replies
  imports Http_Listeners
begin

text \<open>
  What leaves the server is a DNS message: the composition of the codec, the hosts table, the cache, the
  handler and the listeners. Every reply the handler returns decodes, to the message the handler
  meant, provided the upstream messages do and the context was built by \<^verbatim>\<open>RuntimeContext::new\<close> and has
  been changed by the handler only.
\<close>

section \<open>Messages that survive their encoding\<close>

text \<open>The cache rewrites the TTL of every answer record; for an OPT record, whose TTL field holds flags, the
  stored message would differ from its encoding. It has no place in an answer section.\<close>

definition sendable :: "dns_message \<Rightarrow> bool" where
  "sendable m \<longleftrightarrow> message_ok m \<and> list_all (\<lambda>rr. rr_type rr \<noteq> RT_OPT) (m_answers m)"

definition with_id :: "u16 \<Rightarrow> dns_message \<Rightarrow> dns_message" where
  "with_id i m = m\<lparr>m_header := (m_header m)\<lparr>h_id := i\<rparr>\<rparr>"

text \<open>The bytes of a reply decode to its message, up to the id, which the cache replaces in the bytes only.\<close>

definition decodes :: "handler_response \<Rightarrow> bool" where
  "decodes r \<longleftrightarrow> (\<exists>i. from_wire (hr_wire r) = Inr (with_id i (hr_message r)))"

lemma with_id_same [simp]: "with_id (h_id (m_header m)) m = m"
  by (simp add: with_id_def)

lemma respond_decodes:
  assumes "message_ok m"
  shows "decodes (respond m)"
proof -
  have "from_wire (to_wire m) = Inr m"
    using from_wire_message_wire [OF assms, of _ "[]"] to_wire_eq [OF assms] by simp
  then have "from_wire (hr_wire (respond m)) = Inr (with_id (h_id (m_header m)) (hr_message (respond m)))"
    by (simp add: respond_def)
  then show ?thesis unfolding decodes_def by blast
qed

lemma cached_decodes:
  "message_ok m \<Longrightarrow> decodes \<lparr>hr_wire = wire_with_id (cached_response_new m) i, hr_message = cr_message (cached_response_new m)\<rparr>"
  using wire_with_id_correct [of m i] by (auto simp: decodes_def with_id_def cached_response_new_def)

lemma rr_ok_ttl:
  assumes "rr_ok rr" "rr_type rr \<noteq> RT_OPT"
  shows "rr_ok (rr\<lparr>rr_ttl := t\<rparr>)"
  using assms by (cases "rr_rdata rr") (auto simp: rr_ok_def)

lemma sendable_set_ttls: "sendable m \<Longrightarrow> sendable (set_answer_ttls t m)"
  by (auto simp: sendable_def set_answer_ttls_def message_ok_def counts_ok_def list_all_iff rr_ok_ttl)

section \<open>Local answers are messages\<close>

lemma code_constants_ok [simp]:
  "record_type_ok RT_A" "record_type_ok RT_AAAA" "record_type_ok RT_SOA" "record_class_ok RC_In"
  "response_code_ok Rc_NoError" "response_code_ok Rc_FormErr" "response_code_ok Rc_ServFail"
  by code_simp+

lemma response_idem [simp]: "message_response (message_response m) = message_response m"
  by (simp add: message_response_def header_response_def)

lemma decoded_response_ok:
  assumes "from_wire bytes = Inr query"
  shows "message_ok (message_response query)"
proof -
  from from_wire_D [OF assms] have q: "list_all question_ok (m_questions query)"
    "unat (h_qdcount (m_header query)) = length (m_questions query)"
    by (simp_all add: counts_ok_def)
  then have "length (m_questions query) < 65536" using u16_unat_less [of "h_qdcount (m_header query)"] by simp
  then show ?thesis
    using q(1) header_ok_response [of "h_id (m_header query)" "h_rd (m_header query)"]
    by (simp add: message_ok_def counts_ok_def message_response_def header_ok_def unat_of_nat_u16)
      (simp add: header_response_def)
qed

lemma rcode_ok:
  "message_ok m \<Longrightarrow> rc \<in> {Rc_NoError, Rc_FormErr, Rc_ServFail} \<Longrightarrow>
   message_ok (m\<lparr>m_header := (m_header m)\<lparr>h_rcode := rc\<rparr>\<rparr>)"
  by (auto simp: message_ok_def counts_ok_def header_ok_def)

lemma asked_name_ok:
  assumes "from_wire bytes = Inr query" "first_question query = Some q"
  shows "name_ok (q_name q)"
proof -
  have "q \<in> set (m_questions query)"
    using assms(2) by (cases "m_questions query") (simp_all add: first_question_def)
  then show ?thesis
    using from_wire_D [OF assms(1)] by (auto simp: list_all_iff question_ok_def)
qed

lemma soa_reply_ok:
  assumes "message_ok (message_response m)" "name_ok domain"
  shows "message_ok (handler_soa_suppress_response (message_response m) domain)"
proof -
  let ?soa = "case from_str ''block.borderdns.local'' of Inr n \<Rightarrow> n | Inl _ \<Rightarrow> root"
  have soa: "name_ok ?soa" "length (rdata_wire (RD_SOA \<lparr>soa_mname = ?soa, soa_rname = ?soa, soa_serial = 1, soa_refresh = 900,
              soa_retry = 900, soa_expire = 1800, soa_minimum = 60\<rparr>)) = 66"
    by code_simp+
  show ?thesis
    unfolding handler_soa_suppress_response_def Let_def response_idem
  proof (rule add_authority_ok)
    show "message_ok (message_response m\<lparr>m_header := m_header (message_response m)\<lparr>h_rcode := Rc_NoError\<rparr>\<rparr>)"
      by (rule rcode_ok [OF assms(1)]) simp
  qed (use soa assms(2) in \<open>simp_all add: rr_ok_def message_response_def\<close>)
qed

lemma block_reply_ok:
  assumes "message_ok (message_response m)" "name_ok domain"
  shows "message_ok (handler_block_response ctx m qt domain)"
proof -
  let ?b = "cfg_block (ctx_config ctx)"
  have v4: "length (case parse_ipv4 (bc_blackhole_ipv4 ?b) of Some a \<Rightarrow> a | None \<Rightarrow> [127, 0, 0, 1]) = 4"
    by (simp split: option.split add: parse_ipv4_length)
  have v6: "length (case parse_ipv6 (bc_blackhole_ipv6 ?b) of Some a \<Rightarrow> a | None \<Rightarrow> replicate 16 0) = 16"
    by (simp split: option.split add: parse_ipv6_length)
  have add: "message_ok (add_answer rr (message_response m))" if "rr_ok rr" for rr
    using that by (intro add_answer_ok assms(1)) (simp_all add: message_response_def)
  show ?thesis
    unfolding handler_block_response_def Let_def
    using v4 v6 assms soa_reply_ok [OF assms]
    by (auto intro!: add simp: rr_ok_def split: qtype.split record_type.split)
qed

lemma fold_add_answer_ok:
  "message_ok m \<Longrightarrow> list_all rr_ok (map f xs) \<Longrightarrow> length (m_answers m) + length xs \<le> 65535 \<Longrightarrow>
   message_ok (fold (\<lambda>x. add_answer (f x)) xs m)"
proof (induction xs arbitrary: m)
  case (Cons x xs)
  then have "message_ok (add_answer (f x) m)" by (intro add_answer_ok) simp_all
  with Cons show ?case by (simp add: add_answer_def Let_def)
qed simp

lemma hosts_reply_ok:
  assumes "message_ok (message_response m)" "name_ok domain" "length ips \<le> 65535"
    "\<And>ip. ip \<in> set ips \<Longrightarrow> ip_ok ip \<and> (qt = QT_Type RT_A \<and> is_ipv4 ip \<or> qt = QT_Type RT_AAAA \<and> is_ipv6 ip)"
  shows "message_ok (handler_hosts_response ttl m qt domain ips)"
proof -
  have "rr_ok \<lparr>rr_name = domain, rr_type = (case as_record_type qt of Some rt \<Rightarrow> rt | None \<Rightarrow> RT_A), rr_class = RC_In,
      rr_ttl = ttl, rr_rdata = (case ip of V4 v4 \<Rightarrow> RD_A v4 | V6 v6 \<Rightarrow> RD_AAAA v6)\<rparr>" if "ip \<in> set ips" for ip
    using assms(2) assms(4) [OF that] by (cases ip) (auto simp: rr_ok_def)
  then show ?thesis
    unfolding handler_hosts_response_def Let_def
    using assms(1,3) by (intro fold_add_answer_ok) (auto simp: list_all_iff message_response_def)
qed

section \<open>The invariant of the context\<close>

definition context_sendable :: "runtime_context \<Rightarrow> bool" where
  "context_sendable ctx \<longleftrightarrow>
     cache_wf (ctx_cache ctx) \<and>
     (\<forall>k e. dm_get (rc_entries (ctx_cache ctx)) k = Some e \<longrightarrow> (\<exists>m. ce_response e = cached_response_new m \<and> sendable m)) \<and>
     list_all (\<lambda>e. ip_ok (he_ip e)) (ht_entries (ctx_hosts ctx)) \<and> length (ht_entries (ctx_hosts ctx)) \<le> 65535"

definition upstreams_sendable :: "(u8 list \<Rightarrow> (upstream_server \<times> u64) list \<Rightarrow> task_result list) \<Rightarrow> bool" where
  "upstreams_sendable completions \<longleftrightarrow>
     (\<forall>wire tasks u. Inr (Inr u) \<in> set (completions wire tasks) \<longrightarrow> sendable (ur_message u))"

lemma context_sendable_metrics [simp]: "context_sendable (ctx\<lparr>ctx_metrics := m\<rparr>) = context_sendable ctx"
  by (simp add: context_sendable_def)

lemma context_sendable_cache:
  assumes "context_sendable ctx" "cache_step h now op (ctx_cache ctx) = Some c"
    "\<And>ki e. op_stores (rc_config (ctx_cache ctx)) now op = Some (ki, e) \<Longrightarrow>
       \<exists>m. ce_response e = cached_response_new m \<and> sendable m"
  shows "context_sendable (ctx\<lparr>ctx_cache := c\<rparr>)"
  using cache_step_entries [OF assms(2)] assms(1,3) unfolding context_sendable_def by simp blast

lemma context_sendable_get:
  assumes "context_sendable ctx" "cache_get h now qt n (ctx_cache ctx) = (hit, c)"
  shows "context_sendable (ctx\<lparr>ctx_cache := c\<rparr>) \<and>
    (\<forall>r. hit = Some r \<longrightarrow> (\<exists>m. r = cached_response_new m \<and> sendable m))"
proof
  have "cache_step h now (Op_Get Route_Fallback qt n) (ctx_cache ctx) = Some c"
    using assms(2) by (simp add: cache_get_def)
  then show "context_sendable (ctx\<lparr>ctx_cache := c\<rparr>)"
    by (rule context_sendable_cache [OF assms(1)]) simp
  show "\<forall>r. hit = Some r \<longrightarrow> (\<exists>m. r = cached_response_new m \<and> sendable m)"
    using assms by (auto simp: context_sendable_def cache_get_def get_scoped_def Let_def split: option.splits if_splits)
qed

lemma context_sendable_insert:
  assumes "context_sendable ctx" "cache_insert h now qt n m (ctx_cache ctx) = Some c" "sendable m"
  shows "context_sendable (ctx\<lparr>ctx_cache := c\<rparr>)"
proof (rule context_sendable_cache [OF assms(1)])
  show "cache_step h now (Op_Insert Route_Fallback qt n m) (ctx_cache ctx) = Some c"
    using assms(2) by (simp add: cache_insert_def)
qed (use assms(3) in \<open>auto intro: sendable_set_ttls\<close>)

lemma forward_sendable:
  assumes "upstreams_sendable cs" "forward cs query upstreams d = Inr u"
  shows "sendable (ur_message u)"
proof -
  have "first_success (cs (to_wire query) (race_tasks upstreams d)) u"
    using assms(2) by (auto simp: forward_def forward_loop_Inr split: if_splits)
  then have "Inr (Inr u) \<in> set (cs (to_wire query) (race_tasks upstreams d))"
    by (auto simp: first_success_def)
  with assms(1) show ?thesis unfolding upstreams_sendable_def by blast
qed

section \<open>Every reply is a message\<close>

lemma handle_miss_sendable:
  assumes "context_sendable ctx" "upstreams_sendable cs" "message_ok (message_response query)"
    and "handle_miss h cs t kind query qt domain ctx = (Some r, ctx')"
  shows "decodes r \<and> context_sendable ctx'"
proof (cases "forward cs query (default_upstreams (cfg_upstreams (ctx_config ctx)))
    (sc_default_timeout_ms (cfg_server (ctx_config ctx)))")
  case (Inl e)
  with assms(1,4) rcode_ok [OF assms(3), of Rc_ServFail] show ?thesis
    by (auto simp: handle_miss_def Let_def respond_decodes)
next
  case (Inr u)
  note u = forward_sendable [OF assms(2) Inr]
  let ?m = "ur_message u"
  obtain c where c: "(if h_rcode (m_header ?m) = Rc_NoError \<and> m_answers ?m \<noteq> []
      then cache_insert h t qt domain ?m (ctx_cache ctx) else Some (ctx_cache ctx)) = Some c"
    "r = respond ?m" "ctx' = ctx\<lparr>ctx_cache := c, ctx_metrics := record_for kind record_response (ctx_metrics ctx)\<rparr>"
    using assms(4) Inr by (auto simp: handle_miss_def Let_def split: option.splits)
  have "context_sendable (ctx\<lparr>ctx_cache := c\<rparr>)"
    using c(1) assms(1) context_sendable_insert [OF assms(1) _ u] by (auto split: if_splits)
  then have "context_sendable ctx'" unfolding c(3) by (simp add: context_sendable_def)
  moreover have "decodes r" unfolding c(2) using u by (intro respond_decodes) (simp add: sendable_def)
  ultimately show ?thesis by simp
qed

lemma host_ips_ok:
  assumes "context_sendable ctx" "ip \<in> set (match_domain (ctx_hosts ctx) d qt)"
  shows "ip_ok ip \<and> (qt = QT_Type RT_A \<and> is_ipv4 ip \<or> qt = QT_Type RT_AAAA \<and> is_ipv6 ip)"
  using assms by (auto simp: context_sendable_def list_all_iff match_domain_def Let_def split: if_splits)

lemma match_domain_length: "length (match_domain t d qt) \<le> length (ht_entries t)"
  by (simp add: match_domain_def Let_def)

lemma local_reply_ok:
  assumes "context_sendable ctx" "from_wire bytes = Inr query" "first_question query = Some q"
  shows "message_ok (handler_hosts_response ttl query (q_type q) (q_name q) (match_domain (ctx_hosts ctx) d (q_type q)))"
    "message_ok (handler_block_response ctx query (q_type q) (q_name q))"
proof -
  note ok = decoded_response_ok [OF assms(2)] asked_name_ok [OF assms(2,3)]
  show "message_ok (handler_block_response ctx query (q_type q) (q_name q))" by (rule block_reply_ok [OF ok])
  have "length (match_domain (ctx_hosts ctx) d (q_type q)) \<le> 65535"
    using match_domain_length [of "ctx_hosts ctx" d "q_type q"] assms(1) by (simp add: context_sendable_def)
  then show "message_ok (handler_hosts_response ttl query (q_type q) (q_name q) (match_domain (ctx_hosts ctx) d (q_type q)))"
    by (rule hosts_reply_ok [OF ok]) (rule host_ips_ok [OF assms(1)])
qed

lemma handled_reply_decodes:
  assumes "context_sendable ctx" "upstreams_sendable cs"
    and "handle_dns_query h cs lookup_at stored_at bytes kind ctx = (Some r, ctx')"
  shows "decodes r \<and> context_sendable ctx'"
proof (cases "from_wire bytes")
  case (Inl e)
  have "message_ok \<lparr>m_header = (header_response 0 False)\<lparr>h_rcode := Rc_FormErr\<rparr>, m_questions = [], m_answers = [],
      m_authorities = [], m_additionals = []\<rparr>" by code_simp
  from respond_decodes [OF this] have "decodes handler_malformed_response"
    by (simp add: handler_malformed_response_def Let_def)
  with assms Inl show ?thesis by (simp add: handle_dns_query_def)
next
  case (Inr query)
  note resp = decoded_response_ok [OF Inr]
  show ?thesis
  proof (cases "first_question query")
    case None
    with assms Inr rcode_ok [OF resp, of Rc_FormErr] show ?thesis
      by (auto simp: handle_dns_query_def Let_def respond_decodes)
  next
    case (Some q)
    obtain hit c where g: "cache_get h lookup_at (q_type q) (q_name q) (ctx_cache ctx) = (hit, c)" by force
    note clean = context_sendable_get [OF assms(1) g]
    consider (local) m where "r = respond m" "message_ok m" "ctx' = ctx"
      | (hit) cached m where "hit = Some cached" "ctx' = ctx\<lparr>ctx_cache := c, ctx_metrics := m\<rparr>"
          "r = \<lparr>hr_wire = wire_with_id cached (h_id (m_header query)), hr_message = cr_message cached\<rparr>"
      | (miss) "handle_miss h cs stored_at kind query (q_type q) (q_name q) (ctx\<lparr>ctx_cache := c\<rparr>) = (Some r, ctx')"
      using assms(3) Inr Some g local_reply_ok [OF assms(1) Inr Some]
      by (auto simp: handle_dns_query_def Let_def split: if_splits option.splits)
    then show ?thesis
    proof cases
      case local
      then show ?thesis using assms(1) by (simp add: respond_decodes)
    next
      case hit
      with clean obtain m' where "cached = cached_response_new m'" "sendable m'" by auto
      moreover have "context_sendable ctx'" using clean unfolding hit(2) by (simp add: context_sendable_def)
      ultimately show ?thesis using hit(3) cached_decodes by (simp add: sendable_def)
    next
      case miss
      then show ?thesis using handle_miss_sendable [OF conjunct1 [OF clean] assms(2) resp] by blast
    qed
  qed
qed

text \<open>A fresh context is in order: the addresses of its hosts table come out of the address parser.\<close>

definition hosts_parsed :: "hosts_table \<Rightarrow> bool" where
  "hosts_parsed t \<longleftrightarrow> list_all (\<lambda>e. ip_ok (he_ip e)) (ht_entries t)"

lemma with_entry_parsed: "hosts_parsed t \<Longrightarrow> hosts_parsed (with_entry d ip t)"
  by (auto simp: hosts_parsed_def with_entry_def parse_ip_addr_ok split: option.split)

lemma fold_parsed: "(\<And>x t. hosts_parsed t \<Longrightarrow> hosts_parsed (f x t)) \<Longrightarrow> hosts_parsed t \<Longrightarrow> hosts_parsed (fold f xs t)"
  by (induction xs arbitrary: t) simp_all

lemma file_entries_parsed: "list_all (\<lambda>e. ip_ok (he_ip e)) (file_entries fs path)"
  by (auto simp: file_entries_def line_entries_def Let_def list_all_iff parse_ip_addr_ok split: option.splits list.splits if_splits)

lemma hosts_build_parsed: "hosts_parsed t \<Longrightarrow> hosts_parsed (hosts_build fs t)"
  using file_entries_parsed [of fs] by (auto simp: hosts_parsed_def hosts_build_entries list_all_iff)

lemma hosts_table_parsed: "hosts_parsed (build_hosts_table fs config)"
proof -
  have "hosts_parsed (fold with_file files t)" if "hosts_parsed t" for files t
    using that by (rule fold_parsed [rotated]) (simp add: hosts_parsed_def with_file_def)
  moreover have "hosts_parsed (fold (\<lambda>(domain, ips). fold (with_entry domain) ips) entries t)" if "hosts_parsed t" for entries t
    using that by (rule fold_parsed [rotated]) (auto intro!: fold_parsed with_entry_parsed)
  moreover have "hosts_parsed hosts_new" by (simp add: hosts_parsed_def hosts_new_def)
  ultimately show ?thesis by (simp add: build_hosts_table_def Let_def hosts_build_parsed)
qed

lemma context_new_sendable:
  assumes "length (ht_entries (build_hosts_table fs config)) \<le> 65535"
  shows "context_sendable (context_new fs open_lines config)"
  using assms hosts_table_parsed [of fs config]
  by (simp add: context_sendable_def context_new_def hosts_parsed_def) (simp add: cache_new_def dm.get_new)

section \<open>On every listener\<close>

definition context_clean :: "runtime_context \<Rightarrow> bool" where
  "context_clean ctx \<longleftrightarrow> context_ready ctx \<and> context_sendable ctx"

definition env_clean :: "stream_env \<Rightarrow> bool" where
  "env_clean env \<longleftrightarrow>
     (\<forall>n. ids_echoed (se_completions env n) \<and> upstreams_sendable (se_completions env n)) \<and>
     (\<forall>n ctx. context_clean ctx \<longrightarrow> context_clean (se_others env n ctx))"

text \<open>The contract of \<open>dns_service\<close> with one law more.\<close>

locale message_service = dns_service +
  assumes sends_messages: "inv c \<Longrightarrow> answer n q c = (Some r, c') \<Longrightarrow> decodes r"
begin

lemma message_reply:
  assumes "inv c"
  obtains r c' m where "answer n q c = (Some r, c')" "inv c'" "carries_id q (hr_wire r)" "from_wire (hr_wire r) = Inr m"
proof -
  obtain r c' where r: "answer n q c = (Some r, c')" "inv c'" "carries_id q (hr_wire r)" using reply [OF assms] .
  with sends_messages [OF assms r(1)] show thesis unfolding decodes_def by (blast intro: that)
qed

lemma message_replies:
  "inv c \<Longrightarrow> \<exists>ws c'. answers answer n qs c = Some (ws, c') \<and> inv c' \<and>
     list_all2 (\<lambda>q w. carries_id q w \<and> (\<exists>m. from_wire w = Inr m)) qs ws"
proof (induction qs arbitrary: n c)
  case (Cons q qs)
  obtain r c1 m where r: "answer n q c = (Some r, c1)" "inv c1" "carries_id q (hr_wire r)" "from_wire (hr_wire r) = Inr m"
    using message_reply [OF Cons.prems] .
  from Cons.IH [OF r(2), of "Suc n"] obtain ws c' where
    "answers answer (Suc n) qs c1 = Some (ws, c')" "inv c'"
    "list_all2 (\<lambda>q w. carries_id q w \<and> (\<exists>m. from_wire w = Inr m)) qs ws" by blast
  with r show ?case by simp
qed simp

end

lemma context_clean_record [simp]: "context_clean (record_connection kind ctx) = context_clean ctx"
  by (simp add: context_clean_def) (simp add: record_connection_def)

lemma answer_query_clean:
  assumes "env_clean env" "context_clean ctx"
  shows "\<exists>r ctx'. answer_query env kind n q ctx = (Some r, ctx') \<and> context_clean ctx' \<and> carries_id q (hr_wire r) \<and> decodes r"
proof -
  let ?ctx = "se_others env n ctx"
  let ?env = "env\<lparr>se_others := \<lambda>_ c. c\<rparr>"
  have clean: "context_clean ?ctx" "ids_echoed (se_completions env n)" "upstreams_sendable (se_completions env n)"
    using assms by (auto simp: env_clean_def)
  have same: "answer_query env kind n q ctx = answer_query ?env kind n q ?ctx"
    by (simp add: answer_query_def)
  have "env_ok ?env \<and> context_ready ?ctx"
    using assms(1) clean(1) by (auto simp: env_ok_def env_clean_def context_clean_def)
  from handler_service.reply [OF this, of kind n q] obtain r ctx' where
    r: "answer_query ?env kind n q ?ctx = (Some r, ctx')" "context_ready ctx'" "carries_id q (hr_wire r)" by blast
  have "handle_dns_query (se_hasher env) (se_completions env n) (se_lookup_at env n) (se_stored_at env n) q kind ?ctx = (Some r, ctx')"
    using r(1) by (simp add: answer_query_def)
  from handled_reply_decodes [OF _ clean(3) this] clean(1) have "decodes r \<and> context_sendable ctx'"
    by (simp add: context_clean_def)
  with r same show ?thesis by (simp add: context_clean_def)
qed

interpretation handler_messages: message_service "answer_query env kind" "\<lambda>ctx. env_clean env \<and> context_clean ctx" for env kind
proof
  fix ctx n q
  assume "env_clean env \<and> context_clean ctx"
  then show "\<exists>r c'. answer_query env kind n q ctx = (Some r, c') \<and> env_clean env \<and> context_clean c'"
    using answer_query_clean by blast
next
  fix ctx n q r ctx'
  assume "env_clean env \<and> context_clean ctx" "answer_query env kind n q ctx = (Some r, ctx')"
  then show "carries_id q (hr_wire r)" "decodes r"
    using answer_query_clean [of env ctx kind n q] by auto
qed

section \<open>Properties\<close>


text \<open>A server that answers every query with one address under the query's id.\<close>

definition echoing_env :: stream_env where
  "echoing_env = stream_sample_env\<lparr>se_completions := \<lambda>_ wire _.
     (case wire of
        a # b # _ \<Rightarrow> [Inr (Inr \<lparr>ur_message = with_id (u16_from_be_bytes a b) sample_answer, ur_server_name = ''up'',
          ur_server_addr = Sock_V4 [192, 0, 2, 53] 53, ur_rtt = 1\<rparr>)]
      | _ \<Rightarrow> [])\<rparr>"

lemma echoing_env_clean: "env_clean echoing_env"
proof -
  have "message_ok sample_answer"
    unfolding sample_answer_def
    by (intro add_answer_ok message_response_ok sample_query_ok sample_record_ok) (simp add: message_response_def)
  then have "sendable sample_answer"
    by (simp add: sendable_def sample_answer_def add_answer_def message_response_def sample_record_def Let_def)
  then have "sendable (with_id i sample_answer)" for i
    by (simp add: sendable_def with_id_def message_ok_def counts_ok_def header_ok_def)
  then show ?thesis
    by (auto simp: env_clean_def echoing_env_def stream_sample_env_def ids_echoed_def upstreams_sendable_def with_id_def
        u16_be_bytes_roundtrip split: list.splits)
qed


section \<open>Where code and documentation part\<close>

text \<open>The TC bit is parsed and written back, but nothing looks at it: a truncated upstream answer is sent on, to
  stream clients too, and stored in the cache like a complete one.\<close>

theorem truncated_answer_is_cached:
  assumes "forward cs query (default_upstreams (cfg_upstreams (ctx_config ctx)))
      (sc_default_timeout_ms (cfg_server (ctx_config ctx))) = Inr u"
    and "is_truncated (ur_message u)" "h_rcode (m_header (ur_message u)) = Rc_NoError" "m_answers (ur_message u) \<noteq> []"
    and "cache_insert h t qt domain (ur_message u) (ctx_cache ctx) = Some c"
  shows "\<exists>ctx'. handle_miss h cs t kind query qt domain ctx = (Some (respond (ur_message u)), ctx') \<and> ctx_cache ctx' = c"
  using assms by (simp add: handle_miss_def Let_def)

end
