(* ===== verification/Server_Run.thy ===== *)
theory Server_Run
  imports Replies
begin

text \<open>
  The running server as a state machine over all its listeners. Every query is a task of its own on the
  shared context. A task of \<^verbatim>\<open>handle_dns_query\<close> runs without interruption up to the one place where it
  waits, the upstream race, and from there to its end; between the two any other task may run. So the handler
  is split at that place, and a run is a sequence of beginnings and ends of tasks in any order.
\<close>

section \<open>The handler in two parts\<close>

datatype begun =
  Replied handler_response
| Waiting dns_message qtype domain_name

definition begin_query ::
    "(key_input \<Rightarrow> u64) \<Rightarrow> nat \<Rightarrow> u8 list \<Rightarrow> transport_kind \<Rightarrow> runtime_context \<Rightarrow> begun \<times> runtime_context" where
  "begin_query hasher lookup_at query_bytes kind ctx =
     (case from_wire query_bytes of
        Inl _ \<Rightarrow> (Replied handler_malformed_response, ctx)
      | Inr query \<Rightarrow>
          (case first_question query of
             None \<Rightarrow>
               let resp = message_response query;
                   resp = resp\<lparr>m_header := (m_header resp)\<lparr>h_rcode := Rc_FormErr\<rparr>\<rparr>
               in (Replied (respond resp), ctx)
           | Some q \<Rightarrow>
               let qt = q_type q; domain = q_name q; domain_str = name_to_string domain;
                   config = ctx_config ctx;
                   host_ips = (if hc_enabled (cfg_hosts config)
                               then match_domain (ctx_hosts ctx) domain_str qt else [])
               in if host_ips \<noteq> [] then
                    (Replied (respond (handler_hosts_response (hc_ttl_secs (cfg_hosts config)) query qt domain host_ips)), ctx)
                  else if bc_enabled (cfg_block config) \<and> is_blocked (ctx_block_matcher ctx) domain_str then
                    (Replied (respond (handler_block_response ctx query qt domain)), ctx)
                  else
                    (case cache_get hasher lookup_at qt domain (ctx_cache ctx) of
                       (Some cached, cache) \<Rightarrow>
                         (Replied \<lparr>hr_wire = wire_with_id cached (h_id (m_header query)),
                                   hr_message = cr_message cached\<rparr>,
                          ctx\<lparr>ctx_cache := cache,
                            ctx_metrics := record_for kind record_cache_hit (ctx_metrics ctx)\<rparr>)
                     | (None, cache) \<Rightarrow> (Waiting query qt domain, ctx\<lparr>ctx_cache := cache\<rparr>))))"

text \<open>Without interference the two parts are the handler.\<close>

lemma handle_dns_query_parts:
  "handle_dns_query h cs lookup_at stored_at bytes kind ctx =
     (case begin_query h lookup_at bytes kind ctx of
        (Replied r, ctx') \<Rightarrow> (Some r, ctx')
      | (Waiting query qt domain, ctx') \<Rightarrow> handle_miss h cs stored_at kind query qt domain ctx')"
  by (simp add: handle_dns_query_def begin_query_def Let_def split: sum.split option.split prod.split)

section \<open>Runs\<close>

record waiting_task =
  wt_id :: nat
  wt_bytes :: "u8 list"
  wt_kind :: transport_kind
  wt_query :: dns_message
  wt_qtype :: qtype
  wt_domain :: domain_name

record sent_reply =
  sr_id :: nat
  sr_bytes :: "u8 list"
  sr_reply :: handler_response

record server_state =
  sv_context :: runtime_context
  sv_next :: nat
  sv_waiting :: "waiting_task list"
  sv_replies :: "sent_reply list"
  sv_panicked :: "nat list"

definition server_start :: "runtime_context \<Rightarrow> server_state" where
  "server_start ctx = \<lparr>sv_context = ctx, sv_next = 0, sv_waiting = [], sv_replies = [], sv_panicked = []\<rparr>"

datatype server_event =
  Ev_Request transport_kind
| Ev_Query nat "u8 list" transport_kind
| Ev_Race nat nat "u8 list \<Rightarrow> (upstream_server \<times> u64) list \<Rightarrow> task_result list"

text \<open>A request counted, a query with the time of its cache lookup, and the end of the race of a waiting task
  with the time of its insertion and the order in which the servers finished; \<open>upstream\<close> says how servers
  may behave.\<close>

inductive server_step ::
    "(key_input \<Rightarrow> u64) \<Rightarrow> ((u8 list \<Rightarrow> (upstream_server \<times> u64) list \<Rightarrow> task_result list) \<Rightarrow> bool)
     \<Rightarrow> server_state \<Rightarrow> server_event \<Rightarrow> server_state \<Rightarrow> bool"
  for h upstream where
  request: "server_step h upstream s (Ev_Request kind) (s\<lparr>sv_context := record_connection kind (sv_context s)\<rparr>)"
| query_replied: "begin_query h t bytes kind (sv_context s) = (Replied r, ctx) \<Longrightarrow>
    server_step h upstream s (Ev_Query t bytes kind)
      (s\<lparr>sv_context := ctx, sv_next := Suc (sv_next s),
         sv_replies := sv_replies s @ [\<lparr>sr_id = sv_next s, sr_bytes = bytes, sr_reply = r\<rparr>]\<rparr>)"
| query_waits: "begin_query h t bytes kind (sv_context s) = (Waiting query qt domain, ctx) \<Longrightarrow>
    server_step h upstream s (Ev_Query t bytes kind)
      (s\<lparr>sv_context := ctx, sv_next := Suc (sv_next s),
         sv_waiting := sv_waiting s @ [\<lparr>wt_id = sv_next s, wt_bytes = bytes, wt_kind = kind, wt_query = query,
           wt_qtype = qt, wt_domain = domain\<rparr>]\<rparr>)"
| race_replied: "sv_waiting s = ws1 @ w # ws2 \<Longrightarrow> upstream cs \<Longrightarrow>
    handle_miss h cs t (wt_kind w) (wt_query w) (wt_qtype w) (wt_domain w) (sv_context s) = (Some r, ctx) \<Longrightarrow>
    server_step h upstream s (Ev_Race (wt_id w) t cs)
      (s\<lparr>sv_context := ctx, sv_waiting := ws1 @ ws2,
         sv_replies := sv_replies s @ [\<lparr>sr_id = wt_id w, sr_bytes = wt_bytes w, sr_reply = r\<rparr>]\<rparr>)"
| race_panicked: "sv_waiting s = ws1 @ w # ws2 \<Longrightarrow> upstream cs \<Longrightarrow>
    handle_miss h cs t (wt_kind w) (wt_query w) (wt_qtype w) (wt_domain w) (sv_context s) = (None, ctx) \<Longrightarrow>
    server_step h upstream s (Ev_Race (wt_id w) t cs)
      (s\<lparr>sv_context := ctx, sv_waiting := ws1 @ ws2, sv_panicked := sv_panicked s @ [wt_id w]\<rparr>)"

inductive_cases server_stepE: "server_step h upstream s e s'"

inductive server_runs ::
    "(key_input \<Rightarrow> u64) \<Rightarrow> ((u8 list \<Rightarrow> (upstream_server \<times> u64) list \<Rightarrow> task_result list) \<Rightarrow> bool)
     \<Rightarrow> server_state \<Rightarrow> server_event list \<Rightarrow> server_state \<Rightarrow> bool"
  for h upstream where
  no_step: "server_runs h upstream s [] s"
| one_more: "server_runs h upstream s es s1 \<Longrightarrow> server_step h upstream s1 e s2 \<Longrightarrow> server_runs h upstream s (es @ [e]) s2"

section \<open>The invariant\<close>

definition task_sound :: "waiting_task \<Rightarrow> bool" where
  "task_sound w \<longleftrightarrow> from_wire (wt_bytes w) = Inr (wt_query w)"

definition reply_sound :: "sent_reply \<Rightarrow> bool" where
  "reply_sound r \<longleftrightarrow> decodes (sr_reply r) \<and> carries_id (sr_bytes r) (hr_wire (sr_reply r))"

definition static_parts :: "runtime_context \<Rightarrow> runtime_config \<times> block_matcher \<times> hosts_table" where
  "static_parts ctx = (ctx_config ctx, ctx_block_matcher ctx, ctx_hosts ctx)"

definition run_ok :: "server_state \<Rightarrow> bool" where
  "run_ok s \<longleftrightarrow>
     context_clean (sv_context s) \<and> list_all task_sound (sv_waiting s) \<and> list_all reply_sound (sv_replies s) \<and>
     sv_panicked s = [] \<and>
     mset (map wt_id (sv_waiting s) @ map sr_id (sv_replies s)) = mset [0..<sv_next s]"

lemma static_parts_metrics [simp]: "static_parts (ctx\<lparr>ctx_metrics := m\<rparr>) = static_parts ctx"
  by (simp add: static_parts_def)

lemma static_parts_cache [simp]: "static_parts (ctx\<lparr>ctx_cache := c\<rparr>) = static_parts ctx"
  by (simp add: static_parts_def)

lemma begin_waiting:
  assumes "begin_query h t bytes kind ctx = (Waiting query qt domain, ctx')"
  obtains c where "from_wire bytes = Inr query" "cache_get h t qt domain (ctx_cache ctx) = (None, c)" "ctx' = ctx\<lparr>ctx_cache := c\<rparr>"
  using assms by (auto simp: begin_query_def Let_def split: sum.splits option.splits if_splits prod.splits)

lemma begin_static: "begin_query h t bytes kind ctx = (b, ctx') \<Longrightarrow> static_parts ctx' = static_parts ctx"
  by (auto simp: begin_query_def static_parts_def Let_def split: sum.splits option.splits if_splits prod.splits)

lemma begin_replied_clean:
  assumes "context_clean ctx" "begin_query h t bytes kind ctx = (Replied r, ctx')"
  shows "context_clean ctx' \<and> decodes r \<and> carries_id bytes (hr_wire r)"
proof -
  let ?none = "\<lambda>_ _. [] :: task_result list"
  have run: "handle_dns_query h ?none t t bytes kind ctx = (Some r, ctx')"
    using assms(2) by (simp add: handle_dns_query_parts)
  have ok: "context_ok ctx" "ttl_ordered ctx" "context_sendable ctx"
    using assms(1) by (simp_all add: context_clean_def context_ready_def)
  have "decodes r \<and> context_sendable ctx'"
    by (rule handled_reply_decodes [OF ok(3) _ run]) (simp add: upstreams_sendable_def)
  moreover have "ttl_ordered ctx'" using handled_query_responds [OF ok(2), of h ?none t t bytes kind] run by auto
  moreover have "context_ok ctx'" using \<open>decodes r \<and> context_sendable ctx'\<close>
    by (auto simp: context_sendable_def context_ok_def)
  moreover have "carries_id bytes (hr_wire r)"
  proof (cases "from_wire bytes")
    case (Inr m)
    have "forward ?none m us d \<noteq> Inr u" for us d u by (simp add: forward_def)
    then show ?thesis using handled_query_id [OF ok(1) Inr run] Inr by (simp add: carries_id_def)
  qed (simp add: carries_id_def)
  ultimately show ?thesis by (simp add: context_clean_def context_ready_def)
qed

lemma begin_waiting_clean:
  assumes "context_clean ctx" "begin_query h t bytes kind ctx = (Waiting query qt domain, ctx')"
  shows "context_clean ctx' \<and> from_wire bytes = Inr query"
proof -
  obtain c where c: "from_wire bytes = Inr query" "cache_get h t qt domain (ctx_cache ctx) = (None, c)"
    "ctx' = ctx\<lparr>ctx_cache := c\<rparr>" using begin_waiting [OF assms(2)] .
  have "context_ok (ctx\<lparr>ctx_cache := c\<rparr>)" "context_sendable (ctx\<lparr>ctx_cache := c\<rparr>)" "ttl_ordered (ctx\<lparr>ctx_cache := c\<rparr>)"
    using context_ok_get [OF _ c(2)] context_sendable_get [OF _ c(2)] cache_get_config [OF c(2)] assms(1)
    by (simp_all add: context_clean_def context_ready_def ttl_ordered_def)
  with c(1,3) show ?thesis by (simp add: context_clean_def context_ready_def)
qed

lemma miss_static: "handle_miss h cs t kind query qt domain ctx = (r, ctx') \<Longrightarrow> static_parts ctx' = static_parts ctx"
  by (auto simp: handle_miss_def static_parts_def Let_def split: sum.splits option.splits)

lemma miss_clean:
  assumes "context_clean ctx" "from_wire bytes = Inr query" "ids_echoed cs" "upstreams_sendable cs"
  shows "\<exists>r ctx'. handle_miss h cs t kind query qt domain ctx = (Some r, ctx') \<and> context_clean ctx' \<and> decodes r \<and>
    carries_id bytes (hr_wire r)"
proof -
  have ok: "context_ok ctx" "ttl_ordered ctx" "context_sendable ctx"
    using assms(1) by (simp_all add: context_clean_def context_ready_def)
  from handle_miss_responds [OF ok(2)] obtain r ctx' where
    run: "handle_miss h cs t kind query qt domain ctx = (Some r, ctx')" and ttl: "ttl_ordered ctx'" by blast
  from handle_miss_ok [OF ok(1) run forward_echoes [OF assms(3)]]
    handle_miss_sendable [OF ok(3) assms(4) decoded_response_ok [OF assms(2)] run] run ttl assms(2)
  show ?thesis by (auto simp: context_clean_def context_ready_def carries_id_def)
qed

definition well_behaved :: "((u8 list \<Rightarrow> (upstream_server \<times> u64) list \<Rightarrow> task_result list) \<Rightarrow> bool) \<Rightarrow> bool" where
  "well_behaved upstream \<longleftrightarrow> (\<forall>cs. upstream cs \<longrightarrow> ids_echoed cs \<and> upstreams_sendable cs)"

lemma server_step_ok:
  assumes "server_step h upstream s e s'" "well_behaved upstream" "run_ok s"
  shows "run_ok s' \<and> static_parts (sv_context s') = static_parts (sv_context s)"
  using assms(1)
proof cases
  case (request kind)
  with assms(3) show ?thesis by (simp add: run_ok_def) (simp add: record_connection_def)
next
  case (query_replied t bytes kind r ctx)
  with assms(3) begin_replied_clean [OF _ query_replied(3)] begin_static [OF query_replied(3)] show ?thesis
    by (simp add: run_ok_def reply_sound_def)
next
  case (query_waits t bytes kind query qt domain ctx)
  with assms(3) begin_waiting_clean [OF _ query_waits(3)] begin_static [OF query_waits(3)] show ?thesis
    by (simp add: run_ok_def task_sound_def)
next
  case (race_replied ws1 w ws2 cs t r ctx)
  have "from_wire (wt_bytes w) = Inr (wt_query w)"
    using assms(3) race_replied(3) by (simp add: run_ok_def task_sound_def)
  moreover have "ids_echoed cs" "upstreams_sendable cs" using assms(2) race_replied(4) by (simp_all add: well_behaved_def)
  ultimately have "context_clean ctx \<and> decodes r \<and> carries_id (wt_bytes w) (hr_wire r)"
    using miss_clean [of "sv_context s" "wt_bytes w" "wt_query w" cs h t "wt_kind w" "wt_qtype w" "wt_domain w"]
      assms(3) race_replied(5) by (simp add: run_ok_def)
  with assms(3) race_replied(2,3) miss_static [OF race_replied(5)] show ?thesis
    by (simp add: run_ok_def reply_sound_def)
next
  case (race_panicked ws1 w ws2 cs t ctx)
  have "from_wire (wt_bytes w) = Inr (wt_query w)"
    using assms(3) race_panicked(3) by (simp add: run_ok_def task_sound_def)
  moreover have "ids_echoed cs" "upstreams_sendable cs" using assms(2) race_panicked(4) by (simp_all add: well_behaved_def)
  ultimately have False
    using miss_clean [of "sv_context s" "wt_bytes w" "wt_query w" cs h t "wt_kind w" "wt_qtype w" "wt_domain w"]
      assms(3) race_panicked(5) by (simp add: run_ok_def)
  then show ?thesis ..
qed

lemma server_runs_ok:
  assumes "server_runs h upstream s es s'" "well_behaved upstream" "run_ok s"
  shows "run_ok s' \<and> static_parts (sv_context s') = static_parts (sv_context s)"
  using assms(1,3)
proof induction
  case (one_more s es s1 e s2)
  from server_step_ok [OF one_more.hyps(2) assms(2)] one_more show ?case by simp
qed simp

lemma context_new_clean:
  assumes "ttl_ordered (context_new fs open_lines config)" "length (ht_entries (build_hosts_table fs config)) \<le> 65535"
  shows "context_clean (context_new fs open_lines config)"
proof -
  have "context_sendable (context_new fs open_lines config)" using assms(2) by (rule context_new_sendable)
  moreover from this have "context_ok (context_new fs open_lines config)" by (auto simp: context_sendable_def context_ok_def)
  ultimately show ?thesis using assms(1) by (simp add: context_clean_def context_ready_def)
qed

lemma server_start_ok: "context_clean ctx \<Longrightarrow> run_ok (server_start ctx)"
  by (simp add: server_start_def run_ok_def)

section \<open>Properties\<close>


definition echo_upstream :: "u8 list \<Rightarrow> (upstream_server \<times> u64) list \<Rightarrow> task_result list" where
  "echo_upstream = se_completions echoing_env 0"

lemma echo_well_behaved: "well_behaved (\<lambda>cs. cs = echo_upstream)"
  using echoing_env_clean by (simp add: well_behaved_def echo_upstream_def env_clean_def)

lemma sample_begins:
  "\<exists>ctx. begin_query sample_hasher 0 (to_wire sample_query) Kind_Udp handler_sample_context =
     (Waiting sample_query (QT_Type RT_A) sample_name, ctx)"
proof -
  have w: "from_wire (to_wire sample_query) = Inr sample_query"
    using from_wire_message_wire [OF sample_query_ok, of _ "[]"] by (simp add: to_wire_eq [OF sample_query_ok])
  have q: "first_question sample_query = Some (question_new sample_name (QT_Type RT_A) (QC_Class RC_In))" by code_simp
  have off: "\<not> hc_enabled (cfg_hosts (ctx_config handler_sample_context))" "\<not> bc_enabled (cfg_block (ctx_config handler_sample_context))"
    by (simp_all add: handler_sample_context_def context_new_def) code_simp+
  obtain c where "cache_get sample_hasher 0 (QT_Type RT_A) sample_name (ctx_cache handler_sample_context) = (None, c)"
    by (simp add: handler_sample_context_def context_new_def cache_get_def get_scoped_def cache_new_def dm.get_new Let_def)
  with w q off show ?thesis by (simp add: begin_query_def question_new_def Let_def)
qed


end
