(* ===== verification/Spec2Isabelle.thy ===== *)
theory Spec2Isabelle
  imports Cli Probes Server_Run
begin

text \<open>
  BorderDNS is a split-horizon DNS forwarder. It answers a query from a static hosts table, from a block
  list, from a route-scoped cache, or by racing the upstream servers of the route the domain belongs to,
  and it keeps a governance state per domain that learns from the answers. The sources are the Rust
  crates under \<^verbatim>\<open>src/crates/\<close>; a file below is named by its crate and path.

  \<^bold>\<open>How the parts interact.\<close> A listener (\<^verbatim>\<open>server.rs\<close>) cuts its transport into query bytes and hands
  them to \<^verbatim>\<open>handle_dns_query\<close> (\<^verbatim>\<open>handler.rs\<close>), which decodes them with the codec of \<^verbatim>\<open>dns-protocol\<close>, consults
  the hosts table, the block matcher and the cache, and on a miss races the default servers
  (\<^verbatim>\<open>border-dns-upstream\<close>). \<^verbatim>\<open>Pipeline::resolve\<close> (\<^verbatim>\<open>border-dns-pipeline\<close>) is the second query path: it decides
  a route from the domain lists, looks into the cache under that route, races the servers of the route,
  scores the answer, moves the governance state, and emits facts and observation tasks to channels. \<^verbatim>\<open>run\<close>
  (\<^verbatim>\<open>border-dns-runtime/src/lib.rs\<close>) builds the shared context, starts the listeners and the background
  workers; the workers age the governance counters and write the facts to hourly files.

  \<^bold>\<open>Theories.\<close> One theory per component, in the order of the calls.

  \<^item> \<open>Prelude\<close>: machine integers, results with \<open>rbind\<close> for \<^verbatim>\<open>?\<close>, the string functions of the standard library,
    and the collections \<open>result_simps\<close> and \<open>wire_simps\<close>. \<open>Dash_Map\<close>: the concurrent maps, as a locale and its
    interpretation on association lists. \<open>Float32\<close>: finite \<^verbatim>\<open>f32\<close> and \<^verbatim>\<open>f64\<close> values as rationals rounded to
    nearest even.
  \<^item> \<open>Dns_Types\<close> (\<^verbatim>\<open>dns-types\<close>), \<open>Wire\<close>, \<open>Name_Codec\<close>, \<open>Header\<close>, \<open>Rr\<close>, \<open>Message\<close> (\<^verbatim>\<open>dns-protocol\<close>: \<^verbatim>\<open>wire.rs\<close>,
    \<^verbatim>\<open>name.rs\<close>, \<^verbatim>\<open>header.rs\<close>, \<^verbatim>\<open>question.rs\<close>, \<^verbatim>\<open>rr.rs\<close>, \<^verbatim>\<open>message.rs\<close>): the codec. The locales \<open>wire_decoder\<close> and
    \<open>wire_codec\<close> state what a decoder promises on the bytes behind it; they are interpreted on the integers,
    the header, the question, the name and the record. Shown: everything decoded is well formed, decoding
    inverts encoding with and without compression, and a pointer chain ends.
  \<^item> \<open>Tcp_Frame\<close> (\<^verbatim>\<open>tcp_frame.rs\<close>) and \<open>Transport\<close> (\<^verbatim>\<open>transport.rs\<close>): the streaming frame decoder refines a
    reference function on the whole stream, for every way of cutting it; base64url round trips.
  \<^item> \<open>Ip_Addr\<close>: the address parser of the standard library. \<open>Config\<close> (\<^verbatim>\<open>border-dns-config\<close>): the configuration,
    its defaults, and a validation that is characterised exactly.
  \<^item> \<open>Hosts_Table\<close>, \<open>Block_Matcher\<close>, \<open>Domain_Knowledge\<close> (\<^verbatim>\<open>border-dns-domain-knowledge\<close>), \<open>Geo_Ip\<close>
    (\<^verbatim>\<open>border-dns-geoip\<close>): lookups against reference definitions: the trie search with its memo table against
    the matching of single rules, the suffix trie against a set of names (locale \<open>name_set\<close>).
  \<^item> \<open>Cache\<close> (\<^verbatim>\<open>border-dns-cache\<close>): what a lookup returns after an insertion, that a hit was inserted under its
    key and has not expired, that the size stays bounded.
  \<^item> \<open>Upstream\<close> (\<^verbatim>\<open>border-dns-upstream\<close>): the race over completion orders, dispatch, UDP sockets and the
    connection pools (locale \<open>framed_stream\<close>, interpreted on TCP and TLS): no pooled connection is ever out
    of step with its server.
  \<^item> \<open>Route_Policy\<close>, \<open>Scoring\<close>, \<open>Governance\<close> (\<^verbatim>\<open>border-dns-route-policy\<close>, \<^verbatim>\<open>border-dns-facts\<close>), \<open>Facts_Schema\<close>,
    \<open>Observation\<close>, \<open>Governance_Worker\<close>: the decision, the score and the phase transition, which refines an
    explicit table; what a maintenance round changes.
  \<^item> \<open>Local_Answers\<close> and \<open>Pipeline\<close> (\<^verbatim>\<open>border-dns-pipeline\<close>): \<^verbatim>\<open>resolve\<close> on every branch, its state over any
    sequence of queries and maintenance rounds (\<open>served\<close>).
  \<^item> \<open>Transport_Layer\<close> (\<^verbatim>\<open>dns-transport\<close>), \<open>Handler\<close> (\<^verbatim>\<open>handler.rs\<close>), \<open>Server\<close> and \<open>Http_Listeners\<close> (\<^verbatim>\<open>server.rs\<close>),
    \<open>Blackhole\<close> (\<^verbatim>\<open>blackhole.rs\<close>), \<open>Runtime\<close> (\<^verbatim>\<open>lib.rs\<close>, \<^verbatim>\<open>governance_worker.rs\<close>): the running server. The locale
    \<open>dns_service\<close> is the contract between a listener and the handler; it is interpreted on the handler and
    gives that every listener answers every query with the id of that query. \<open>Replies\<close> extends it to
    \<open>message_service\<close> and shows that all bytes the server sends decode, to the message the handler meant.
    \<open>Server_Run\<close> is the server as a step relation: any number of queries in flight, each split at the one place where the
    handler waits, interleaved in any order; no task panics and every query is answered exactly once.
  \<^item> \<open>Fact_Store\<close> (\<^verbatim>\<open>border-dns-facts/src/store\<close>): the hourly event files, rotation, retention and the
    manifest. \<open>Probes\<close> (\<^verbatim>\<open>border-dns-probes\<close>): latency ranking and certificate names. \<open>Cli\<close>
    (\<^verbatim>\<open>border-dns-cli\<close>): the commands and what they print.
  \<^item> This theory: the agreement of the two query paths.

  \<^bold>\<open>Conventions.\<close> A struct is a record, an enum a datatype, a fixed-width integer a word; \<^verbatim>\<open>usize\<close> is \<open>nat\<close>.
  A \<^verbatim>\<open>Result\<close> is a sum with the error on the left, a panic is the value \<open>None\<close> of an option around the
  result. Strings are lists of bytes; \<^verbatim>\<open>to_lowercase\<close> is modelled on the ASCII letters and leaves every
  other byte as it is. A \<^verbatim>\<open>DashMap\<close> or
  \<^verbatim>\<open>HashMap\<close> is an association list with distinct keys, and its iteration order is that of the list; the
  hash function of the cache keys is an argument. Instants are nanoseconds. What the program asks the
  outside world for is an argument of the definition that asks: clock readings, the file system, the
  results of socket calls and of TLS handshakes, the order in which upstream tasks finish and what they
  return, TOML and JSON and date formatting, the drawn message id, and what other tasks have done to a
  shared context in the meantime (\<open>se_others\<close>). The shutdown signal is \<^verbatim>\<open>Notify::notify_waiters\<close>: it wakes
  the tasks that wait at that moment and is not remembered.

  \<^bold>\<open>Loops and bounds.\<close> The decompression loop carries the depth counter of the source, at most 63 pointers,
  which also ends a loop of pointers; the other recursive definitions are structural or have a
  measure: the bytes left in a reader, the buffered bytes of a frame decoder, the nodes of a trie. The read
  loop of the blackhole acceptor depends on its peer and is a partial function; it is shown to return
  for every behaviour of the peer, after at most one read more than its byte limit. The rebind loop and
  the serving loops run forever by design and are step relations, or functions of a finite list of events.

  \<^bold>\<open>Not modelled.\<close> Logging, and values computed only for it; \<^verbatim>\<open>clap\<close> argument parsing;
  the installation of the log filter and the wait for Ctrl+C; the tokio scheduler beyond the
  interleavings of \<open>Server_Run\<close> and of the arguments; rustls, hyper, axum, socket2, chrono and serde,
  which are not part of the sources and appear as arguments; the two probe traits of \<^verbatim>\<open>border-dns-probes\<close>, which have no
  implementation; \<^verbatim>\<open>rand_id\<close>, whose result is an argument; NaN and infinities, which the scoring code never
  produces from its bounded weights and 32-bit counts.

  \<^bold>\<open>Where code and documentation part.\<close> Theorems in sections of that name show behaviour that a comment or
  the documentation describes differently, or that defeats what the code is for; among them: a shutdown
  signal that reaches a serving listener makes it bind again; governance never leaves its first three
  phases; the listeners never reach the pipeline with its workers.
\<close>

section \<open>The two query paths\<close>

lemma handler_soa_eq: "handler_soa_suppress_response m d = build_soa_suppress_response m d"
  by (simp add: handler_soa_suppress_response_def build_soa_suppress_response_def soa_record_for_def soa_name_def Let_def)

lemma handler_block_eq: "handler_block_response ctx = build_block_response (cfg_block (ctx_config ctx))"
proof (intro ext)
  fix query qt d
  show "handler_block_response ctx query qt d = build_block_response (cfg_block (ctx_config ctx)) query qt d"
  proof (cases qt)
    case (QT_Type rt)
    then show ?thesis
      by (cases rt) (simp_all add: handler_block_response_def build_block_response_def handler_soa_eq
          qtype_suppressed_def is_some_and_def address_record_def Let_def)
  qed (simp_all add: handler_block_response_def build_block_response_def handler_soa_eq
      qtype_suppressed_def is_some_and_def Let_def)
qed

lemma handler_hosts_eq: "handler_hosts_response = hosts_response"
proof -
  have "host_record domain qt ttl = (\<lambda>ip. \<lparr>rr_name = domain,
      rr_type = (case as_record_type qt of Some rt \<Rightarrow> rt | None \<Rightarrow> RT_A), rr_class = RC_In, rr_ttl = ttl,
      rr_rdata = (case ip of V4 v4 \<Rightarrow> RD_A v4 | V6 v6 \<Rightarrow> RD_AAAA v6)\<rparr>)" for domain qt ttl
    by (simp add: fun_eq_iff host_record_def)
  then show ?thesis
    by (simp add: fun_eq_iff handler_hosts_response_def hosts_response_def Let_def)
qed

lemma context_tables_eq:
  "ctx_hosts (context_new fs open_lines config) = build_hosts_from_config fs (cfg_hosts config)"
  "ctx_block_matcher (context_new fs open_lines config) = build_block_matcher_from_config open_lines (cfg_block config)"
proof -
  show "ctx_hosts (context_new fs open_lines config) = build_hosts_from_config fs (cfg_hosts config)"
    by (simp add: context_new_def build_hosts_table_def build_hosts_from_config_def Let_def)
  have "(\<lambda>path m. case load_rules_from_file open_lines path m of Inr (m', _) \<Rightarrow> m' | Inl _ \<Rightarrow> m) =
      load_rules_file open_lines"
    by (simp add: fun_eq_iff load_rules_file_def)
  then show "ctx_block_matcher (context_new fs open_lines config) =
      build_block_matcher_from_config open_lines (cfg_block config)"
    by (simp add: context_new_def build_block_matcher_def build_block_matcher_from_config_def Let_def)
qed

text \<open>C1: the running server and the governance pipeline agree on every answer they give without asking
  the cache or a server. Built from one configuration, one file system and one set of rules files, both
  answer a malformed query, a query without question, a name of the hosts table and a blocked name with
  the same message, the server sends its encoding, and neither changes any state.\<close>

theorem local_answers_agree:
  assumes "p = with_governance_channels fs open_lines config cache knowledge store thresholds fact_tx observation_tx"
    and "ctx = context_new fs open_lines config"
    and "\<not> (\<exists>query q. asks bytes query q \<and> routed p q)"
  shows "\<exists>m. resolve e t bytes p = (Some m, p) \<and>
    handle_dns_query h cs lookup_at stored_at bytes kind ctx = (Some (respond m), ctx)"
proof -
  have same: "pl_config p = config" "ctx_config ctx = config" "pl_hosts p = ctx_hosts ctx" "pl_block p = ctx_block_matcher ctx"
    unfolding assms(1,2) context_tables_eq by (simp_all add: with_governance_channels_def context_new_def)
  show ?thesis
  proof (cases "from_wire bytes")
    case (Inl err)
    then show ?thesis
      by (simp add: resolve_def handle_dns_query_def malformed_response_def handler_malformed_response_def)
  next
    case (Inr query)
    show ?thesis
    proof (cases "first_question query")
      case None
      with Inr show ?thesis by (simp add: resolve_def handle_dns_query_def error_response_def Let_def)
    next
      case (Some q)
      then have a: "asks bytes query q" using Inr by (simp add: asks_def)
      with assms(3) have "host_ips p q \<noteq> [] \<or> blocked p q" by (auto simp: routed_def)
      with a Inr Some show ?thesis
        by (auto simp: resolve_asks handle_dns_query_def host_ips_def blocked_def same Let_def
            handler_hosts_eq handler_block_eq)
    qed
  qed
qed

theorem local_answers_agree_witness:
  "\<exists>m. resolve sample_env sample_moment [1, 2, 3] (sample_pipeline plain_config) = (Some m, sample_pipeline plain_config) \<and>
    handle_dns_query sample_hasher (\<lambda>_ _. []) 0 0 [1, 2, 3] Kind_Udp
      (context_new sample_fs (\<lambda>_. Inl ''missing'') plain_config) =
      (Some (respond m), context_new sample_fs (\<lambda>_. Inl ''missing'') plain_config)"
proof -
  have "\<not> (\<exists>query q. asks [1, 2, 3] query q \<and> routed (sample_pipeline plain_config) q)"
    using from_wire_short [of "[1, 2, 3]"] by (auto simp: asks_def HEADER_WIRE_SIZE_def)
  then show ?thesis
    by (rule local_answers_agree [OF sample_pipeline_def refl])
qed

end
